theory Spec2Isabelle
  imports Main "HOL-Library.Monad_Syntax"
begin

section \<open>dav-backup: a shallow embedding of \<^verbatim>\<open>index.js\<close>\<close>

text \<open>
  The program archives directories and dumps databases, streams each artifact to a WebDAV
  store, and deletes old backups. The remote store, the clock, the spawned processes and
  the HTTP stream are the environment: every call to them is a function of an abstract
  world state \<open>'w\<close> that returns its outcome and the next world. Everything observable
  the program does (remote calls, console lines, the retry delay) is appended to a trace.
\<close>

subsection \<open>Constants (lines 10-12)\<close>

definition TIMEOUT :: nat where
  "TIMEOUT = 12 * 60 * 60 * 1000"

definition REQUEST_TIMEOUT :: nat where
  "REQUEST_TIMEOUT = 4 * 60 * 60 * 1000"

definition RETRY_DELAY :: nat where
  "RETRY_DELAY = 10 * 1000"

subsection \<open>JavaScript values\<close>

text \<open>
  An error object with the dynamically attached fields the program reads:
  \<^verbatim>\<open>err.status\<close> (set by the webdav client), \<^verbatim>\<open>err.statusCode\<close> (set by the HTTP
  stream) and \<^verbatim>\<open>err.backupFilename\<close> (attached by the producers). A field that is
  \<^verbatim>\<open>undefined\<close> is \<open>None\<close>.
\<close>

record js_error =
  message :: string
  status :: "int option"
  statusCode :: "int option"
  backupFilename :: "string option"

text \<open>Truthiness of a possibly undefined string: \<^verbatim>\<open>undefined\<close> and \<^verbatim>\<open>''\<close> are falsy.\<close>

fun truthy :: "string option \<Rightarrow> bool" where
  "truthy None = False"
| "truthy (Some s) = (s \<noteq> [])"

text \<open>
  The numeric option \<^verbatim>\<open>daysToKeep\<close> (default \<^verbatim>\<open>Infinity\<close>). Whole numbers of days
  are modelled; \<^verbatim>\<open>NaN\<close> is what yargs yields for an unparsable number.
\<close>

datatype number = Finite int | Infinity | NaN

text \<open>Decimal rendering of a non-negative integer, as \<^verbatim>\<open>'' + n\<close> gives.\<close>

definition digit_char :: "nat \<Rightarrow> char" where
  "digit_char d = ''0123456789'' ! (d mod 10)"

fun show_nat :: "nat \<Rightarrow> string" where
  "show_nat n = (if n < 10 then [digit_char n] else show_nat (n div 10) @ [digit_char (n mod 10)])"

declare show_nat.simps [simp del]

definition show_int :: "int \<Rightarrow> string" where
  "show_int i = (if i < 0 then ''-'' @ show_nat (nat (- i)) else show_nat (nat i))"

subsection \<open>The clock and the timestamp format (lines 164, 224, 291)\<close>

text \<open>
  A moment: its instant in milliseconds since the epoch (what \<^verbatim>\<open>isBefore\<close> compares)
  and its local calendar fields (what \<^verbatim>\<open>format\<close> prints; \<open>month\<close> is 1 to 12 as
  the token \<^verbatim>\<open>MM\<close> prints it).
\<close>

record moment =
  valueOf :: int
  year :: nat
  month :: nat
  date :: nat
  hours :: nat
  minutes :: nat
  seconds :: nat
  milliseconds :: nat

text \<open>moment's \<^verbatim>\<open>zeroFill\<close>: pad on the left with zeros up to the target length.\<close>

definition zeroFill :: "nat \<Rightarrow> nat \<Rightarrow> string" where
  "zeroFill n targetLength = replicate (targetLength - length (show_nat n)) CHR ''0'' @ show_nat n"

text \<open>
  \<^verbatim>\<open>moment().format('YYYY-MM-DD_HH-mm-ss-SSS')\<close>, the tokens \<^verbatim>\<open>YYYY-MM-DD\<close> and
  \<^verbatim>\<open>HH-mm-ss-SSS\<close> on either side of the underscore.
\<close>

definition format_date :: "moment \<Rightarrow> string" where
  "format_date m = zeroFill (year m) 4 @ ''-'' @ zeroFill (month m) 2 @ ''-'' @ zeroFill (date m) 2"

definition format_time :: "moment \<Rightarrow> string" where
  "format_time m =
     zeroFill (hours m) 2 @ ''-'' @ zeroFill (minutes m) 2 @ ''-'' @ zeroFill (seconds m) 2 @ ''-'' @
     zeroFill (milliseconds m) 3"

definition format_timestamp :: "moment \<Rightarrow> string" where
  "format_timestamp m = format_date m @ ''_'' @ format_time m"

text \<open>The calendar fields of a moment the clock can return, up to the year 9999.\<close>

definition calendar_ok :: "moment \<Rightarrow> bool" where
  "calendar_ok m \<longleftrightarrow>
     year m < 10000 \<and> 1 \<le> month m \<and> month m \<le> 12 \<and> 1 \<le> date m \<and> date m \<le> 31 \<and>
     hours m < 24 \<and> minutes m < 60 \<and> seconds m < 60 \<and> milliseconds m < 1000"

subsection \<open>Artifact filenames (lines 164, 224, 291)\<close>

datatype kind = Tar | Mysql | Mongo

text \<open>
  The parsed options the run reads. \<open>retries\<close> is a count of retries (default 1), a
  natural number: the negative and fractional numbers the option parser would let through
  are outside the model. \<open>davBaseUrl\<close> is the URL line 57 resolves from \<^verbatim>\<open>dav\<close>. The
  options that only shape the command lines of the spawned processes are left to the
  environment.
\<close>

record options =
  dirs :: "string list option"
  name :: string
  daysToKeep :: number
  retries :: nat
  davBaseUrl :: string
  davDir :: string
  mysqlDb :: "string option"
  mongoDb :: "string option"

text \<open>
  The form the \<^verbatim>\<open>name\<close> option documents, \<^verbatim>\<open>/^[a-z0-9]+$/i\<close> (lines 353-355). The
  option parser does not apply it: \<^verbatim>\<open>check\<close> is not a key of an option, so any text
  reaches the program as the run name.
\<close>

definition alphanumeric :: "string \<Rightarrow> bool" where
  "alphanumeric nm \<longleftrightarrow>
     nm \<noteq> [] \<and> list_all (\<lambda>c. c \<in> set ''abcdefghijklmnopqrstuvwxyzABCDEFGHIJKLMNOPQRSTUVWXYZ0123456789'') nm"

text \<open>
  A database option that is \<^verbatim>\<open>undefined\<close> is interpolated as the text
  \<^verbatim>\<open>undefined\<close>; the stages only run a database producer when its option is truthy.
\<close>

fun interpolate :: "string option \<Rightarrow> string" where
  "interpolate None = ''undefined''"
| "interpolate (Some s) = s"

fun backupFilename_of :: "kind \<Rightarrow> options \<Rightarrow> moment \<Rightarrow> string" where
  "backupFilename_of Tar opts m =
     ''backup-'' @ name opts @ ''_'' @ format_timestamp m @ ''.tgz''"
| "backupFilename_of Mysql opts m =
     ''backup-'' @ name opts @ ''_mysql-'' @ interpolate (mysqlDb opts) @ ''_'' @ format_timestamp m @ ''.sql.gz''"
| "backupFilename_of Mongo opts m =
     ''backup-'' @ name opts @ ''_mongo-'' @ interpolate (mongoDb opts) @ ''_'' @ format_timestamp m @ ''.sql.gz''"

subsection \<open>\<^verbatim>\<open>BACKUP_FILENAME_REGEXP\<close> (line 59)\<close>

text \<open>
  \<^verbatim>\<open>^backup-${name}_(?:(mysql|mongo)-.+?_|)(\d{4}-\d{2}-\d{2})_(\d{2}-\d{2}-\d{2}-\d{3})(?:\.tgz|\.tar(?:\.gz|)|\.sql(?:\.gz|))$\<close>

  The matcher below is the backtracking search of this pattern, alternative by
  alternative and in the pattern's order, returning the three capture groups of the
  first match found. Line 59 interpolates the run name into the source of the pattern
  without escaping it. The matcher reads the name as a literal, which is what the pattern
  does for the alphanumeric names the option documents; a name with characters that are
  syntax in a pattern (\<^verbatim>\<open>a.c\<close>, \<^verbatim>\<open>a+\<close>) is read by the program as a pattern of its
  own, and what it then matches is outside this model. Every statement below about what
  the pattern matches therefore assumes an alphanumeric name. A character is a code unit
  below 256, so of the line terminators that \<^verbatim>\<open>.\<close> refuses, line feed and carriage
  return are representable.
\<close>

text \<open>A literal at the current position: the rest of the input, if it matches.\<close>

fun lit :: "string \<Rightarrow> string \<Rightarrow> string option" where
  "lit [] s = Some s"
| "lit (p # ps) [] = None"
| "lit (p # ps) (c # s) = (if p = c then lit ps s else None)"

text \<open>\<^verbatim>\<open>\d\<close>\<close>

definition is_digit :: "char \<Rightarrow> bool" where
  "is_digit c \<longleftrightarrow> c \<in> set ''0123456789''"

text \<open>\<^verbatim>\<open>\d{n}\<close>: the digits matched and the rest.\<close>

definition digits :: "nat \<Rightarrow> string \<Rightarrow> (string \<times> string) option" where
  "digits n s = (if n \<le> length s \<and> list_all is_digit (take n s) then Some (take n s, drop n s) else None)"

text \<open>The characters \<^verbatim>\<open>.\<close> does not match.\<close>

definition line_terminator :: "char \<Rightarrow> bool" where
  "line_terminator c \<longleftrightarrow> c = CHR 0x0A \<or> c = CHR 0x0D"

text \<open>Alternation: the first alternative that leads to a match wins.\<close>

fun orelse :: "'a option \<Rightarrow> 'a option \<Rightarrow> 'a option" where
  "orelse (Some x) y = Some x"
| "orelse None y = y"

text \<open>\<^verbatim>\<open>(?:\.tgz|\.tar(?:\.gz|)|\.sql(?:\.gz|))$\<close>\<close>

definition match_ext :: "string \<Rightarrow> bool" where
  "match_ext s \<longleftrightarrow>
     lit ''.tgz'' s = Some [] \<or>
     (case lit ''.tar'' s of None \<Rightarrow> False | Some r \<Rightarrow> lit ''.gz'' r = Some [] \<or> r = []) \<or>
     (case lit ''.sql'' s of None \<Rightarrow> False | Some r \<Rightarrow> lit ''.gz'' r = Some [] \<or> r = [])"

text \<open>\<^verbatim>\<open>(\d{4}-\d{2}-\d{2})\<close>: group 2 and the rest.\<close>

definition match_date :: "string \<Rightarrow> (string \<times> string) option" where
  "match_date s = do {
     (y, s1) \<leftarrow> digits 4 s;
     s2 \<leftarrow> lit ''-'' s1;
     (mo, s3) \<leftarrow> digits 2 s2;
     s4 \<leftarrow> lit ''-'' s3;
     (d, s5) \<leftarrow> digits 2 s4;
     Some (y @ ''-'' @ mo @ ''-'' @ d, s5)
   }"

text \<open>\<^verbatim>\<open>(\d{2}-\d{2}-\d{2}-\d{3})\<close>: group 3 and the rest.\<close>

definition match_time :: "string \<Rightarrow> (string \<times> string) option" where
  "match_time s = do {
     (h, s1) \<leftarrow> digits 2 s;
     s2 \<leftarrow> lit ''-'' s1;
     (mi, s3) \<leftarrow> digits 2 s2;
     s4 \<leftarrow> lit ''-'' s3;
     (sec, s5) \<leftarrow> digits 2 s4;
     s6 \<leftarrow> lit ''-'' s5;
     (ms, s7) \<leftarrow> digits 3 s6;
     Some (h @ ''-'' @ mi @ ''-'' @ sec @ ''-'' @ ms, s7)
   }"

text \<open>Everything after the optional kind part, up to the end of the input.\<close>

definition match_tail :: "string \<Rightarrow> (string \<times> string) option" where
  "match_tail s = do {
     (d, s1) \<leftarrow> match_date s;
     s2 \<leftarrow> lit ''_'' s1;
     (t, s3) \<leftarrow> match_time s2;
     if match_ext s3 then Some (d, t) else None
   }"

text \<open>
  \<^verbatim>\<open>.+?_\<close> and the tail. The lazy quantifier has consumed at least one character when
  \<open>lazy_more\<close> is entered: it first tries to stop (the \<^verbatim>\<open>_\<close> and the tail must match
  from here), and only when that fails takes one more character.
\<close>

fun lazy_more :: "string \<Rightarrow> (string \<times> string) option" where
  "lazy_more [] = None"
| "lazy_more (c # s) =
     orelse (lit ''_'' (c # s) \<bind> match_tail)
            (if line_terminator c then None else lazy_more s)"

definition lazy_plus :: "string \<Rightarrow> (string \<times> string) option" where
  "lazy_plus s = (case s of [] \<Rightarrow> None | c # s' \<Rightarrow> if line_terminator c then None else lazy_more s')"

text \<open>\<^verbatim>\<open>(mysql|mongo)-.+?_\<close> and the tail, for one alternative of group 1.\<close>

definition match_kind :: "string \<Rightarrow> string \<Rightarrow> (string option \<times> string \<times> string) option" where
  "match_kind k s = do {
     s1 \<leftarrow> lit k s;
     s2 \<leftarrow> lit ''-'' s1;
     (d, t) \<leftarrow> lazy_plus s2;
     Some (Some k, d, t)
   }"

text \<open>
  \<^verbatim>\<open>BACKUP_FILENAME_REGEXP.exec(basename)\<close>: the groups (kind, date, time) of the
  match, \<open>None\<close> when there is none.
\<close>

definition BACKUP_FILENAME_REGEXP_exec :: "string \<Rightarrow> string \<Rightarrow> (string option \<times> string \<times> string) option" where
  "BACKUP_FILENAME_REGEXP_exec nm basename = do {
     s \<leftarrow> lit (''backup-'' @ nm @ ''_'') basename;
     orelse (match_kind ''mysql'' s)
    (orelse (match_kind ''mongo'' s)
            (do { (d, t) \<leftarrow> match_tail s; Some (None, d, t) }))
   }"

definition BACKUP_FILENAME_REGEXP_test :: "string \<Rightarrow> string \<Rightarrow> bool" where
  "BACKUP_FILENAME_REGEXP_test nm basename \<longleftrightarrow> BACKUP_FILENAME_REGEXP_exec nm basename \<noteq> None"

text \<open>The kind tag a producer writes into its filename, and the database name next to it.\<close>

fun kind_tag :: "kind \<Rightarrow> string option" where
  "kind_tag Tar = None"
| "kind_tag Mysql = Some ''mysql''"
| "kind_tag Mongo = Some ''mongo''"

fun target :: "options \<Rightarrow> kind \<Rightarrow> string" where
  "target opts Tar = []"
| "target opts Mysql = interpolate (mysqlDb opts)"
| "target opts Mongo = interpolate (mongoDb opts)"

subsection \<open>The BackupFilename encoding, in the words of the specification\<close>

text \<open>
  \<^verbatim>\<open>backup-<name>_[<kind>-<target>_]<date>_<time>.<ext>\<close> where kind is mysql or mongo
  (absent for directory archives), date is \<^verbatim>\<open>YYYY-MM-DD\<close>, time is \<^verbatim>\<open>HH-MM-SS-mmm\<close>
  and ext is one of tgz, tar, tar.gz, sql, sql.gz. In a picture such as \<^verbatim>\<open>YYYY-MM-DD\<close>
  a hyphen stands for itself and every other character for one digit.
\<close>

fun pictured :: "string \<Rightarrow> string \<Rightarrow> bool" where
  "pictured [] [] = True"
| "pictured (p # ps) (c # cs) = ((if p = CHR ''-'' then c = CHR ''-'' else is_digit c) \<and> pictured ps cs)"
| "pictured ps cs = False"

definition spec_BackupFilename :: "string \<Rightarrow> string \<Rightarrow> string option \<Rightarrow> string \<Rightarrow> string \<Rightarrow> bool" where
  "spec_BackupFilename nm s k d t \<longleftrightarrow>
     pictured ''YYYY-MM-DD'' d \<and> pictured ''HH-MM-SS-mmm'' t \<and>
     (\<exists>ext. ext \<in> {''tgz'', ''tar'', ''tar.gz'', ''sql'', ''sql.gz''} \<and>
        (case k of
           None \<Rightarrow> s = ''backup-'' @ nm @ ''_'' @ d @ ''_'' @ t @ ''.'' @ ext
         | Some tag \<Rightarrow>
             (tag = ''mysql'' \<or> tag = ''mongo'') \<and>
             (\<exists>tgt. s = ''backup-'' @ nm @ ''_'' @ tag @ ''-'' @ tgt @ ''_'' @ d @ ''_'' @ t @ ''.'' @ ext)))"

subsection \<open>The environment, the trace and results\<close>

text \<open>
  An item of a directory listing. \<open>lastmod\<close> is the instant \<^verbatim>\<open>moment(lastmod)\<close>
  denotes, \<open>None\<close> when moment cannot parse the text (an invalid moment, which is
  before nothing).
\<close>

record entry =
  type :: string
  lastmod :: "int option"
  filename :: string
  basename :: string

text \<open>
  What the spawned process and the PUT stream of one attempt deliver to the handlers
  registered by a producer, in the order they fire: the process's \<^verbatim>\<open>error\<close> and
  \<^verbatim>\<open>exit\<close> events (the exit code is \<open>None\<close> for \<^verbatim>\<open>null\<close>, a process ended by a
  signal), and the stream's \<^verbatim>\<open>error\<close> and \<^verbatim>\<open>response\<close> events.
\<close>

datatype event =
    SpawnError js_error
  | ProcessExit "int option"
  | PutError js_error
  | PutResponse int string

text \<open>
  The trace. The console lines that print an error object are told apart by their call
  site: line 106 (the failed attempt), line 118 (the failed cleanup), line 155 (the
  handler of the whole run).
\<close>

datatype action =
    GetDirectoryContents string
  | CreateDirectory string
  | DeleteFile string
  | Spawn kind
  | Put string
  | Delay nat
  | Log string
  | Warn string
  | WarnBackupError js_error
  | WarnCleanupError js_error
  | ConsoleError js_error

record 'w env =
  getDirectoryContents :: "string \<Rightarrow> 'w \<Rightarrow> (js_error + entry list) \<times> 'w"
  createDirectory :: "string \<Rightarrow> 'w \<Rightarrow> (js_error + unit) \<times> 'w"
  deleteFile :: "string \<Rightarrow> 'w \<Rightarrow> (js_error + unit) \<times> 'w"
  now :: "'w \<Rightarrow> moment \<times> 'w"
  stream_events :: "kind \<Rightarrow> string \<Rightarrow> 'w \<Rightarrow> event list \<times> 'w"

text \<open>
  The state of a run: the world, the trace, and the events that the processes and streams
  of attempts already settled have still to deliver (\<open>late\<close>). The handlers of an
  attempt stay registered after its promise has settled.
\<close>

record 'w state =
  world :: 'w
  trace :: "action list"
  late :: "event list"

text \<open>
  How a piece of the program ends: it returns, it throws, or it calls
  \<^verbatim>\<open>process.exit\<close>, after which nothing else runs.
\<close>

datatype 'a result = Return 'a | Throw js_error | Exit int

definition after :: "'w \<Rightarrow> action list \<Rightarrow> 'w state \<Rightarrow> 'w state" where
  "after w acts st = st\<lparr>world := w, trace := trace st @ acts\<rparr>"

subsection \<open>Remote directory bootstrap (lines 62-87)\<close>

text \<open>\<^verbatim>\<open>String.prototype.split\<close> on a one-character separator, and \<^verbatim>\<open>Array.prototype.join\<close>.\<close>

fun split :: "char \<Rightarrow> string \<Rightarrow> string \<Rightarrow> string list" where
  "split sep acc [] = [acc]"
| "split sep acc (c # cs) = (if c = sep then acc # split sep [] cs else split sep (acc @ [c]) cs)"

fun join :: "string \<Rightarrow> string list \<Rightarrow> string" where
  "join sep [] = []"
| "join sep [x] = x"
| "join sep (x # y # ys) = x @ sep @ join sep (y # ys)"

text \<open>\<^verbatim>\<open>davDir.split('/').filter(Boolean)\<close>\<close>

definition davDirSegments :: "string \<Rightarrow> string list" where
  "davDirSegments dir = filter (\<lambda>seg. seg \<noteq> []) (split CHR ''/'' [] dir)"

text \<open>\<^verbatim>\<open>'/' + davDirSegments.slice(0, i).join('/')\<close>\<close>

definition segmentedDavDir :: "string list \<Rightarrow> nat \<Rightarrow> string" where
  "segmentedDavDir segs i = ''/'' @ join ''/'' (take i segs)"

text \<open>
  One pass through the body of the loop: the listing is stored in
  \<^verbatim>\<open>davDirContents\<close> only when \<^verbatim>\<open>getDirectoryContents\<close> succeeds.
\<close>

definition bootstrap_step ::
  "'w env \<Rightarrow> string \<Rightarrow> entry list option \<Rightarrow> 'w state \<Rightarrow> entry list option result \<times> 'w state" where
  "bootstrap_step env dir davDirContents st =
     (case getDirectoryContents env dir (world st) of
        (Inr listing, w1) \<Rightarrow> (Return (Some listing), after w1 [GetDirectoryContents dir] st)
      | (Inl err, w1) \<Rightarrow>
          if status err = Some 404 then
            (case createDirectory env dir w1 of
               (Inr u, w2) \<Rightarrow>
                 (Return davDirContents,
                  after w2 [GetDirectoryContents dir, Log (''Creating directory: '' @ dir), CreateDirectory dir] st)
             | (Inl err2, w2) \<Rightarrow>
                 (Throw err2,
                  after w2 [GetDirectoryContents dir, Log (''Creating directory: '' @ dir), CreateDirectory dir] st))
          else if status err = Some 401 then
            (Exit 1, after w1 [GetDirectoryContents dir, Warn ''Wrong credentials''] st)
          else (Throw err, after w1 [GetDirectoryContents dir] st))"

text \<open>\<^verbatim>\<open>do { ... i++ } while (i <= davDirSegments.length)\<close>\<close>

function bootstrap_loop ::
  "'w env \<Rightarrow> string list \<Rightarrow> nat \<Rightarrow> entry list option \<Rightarrow> 'w state \<Rightarrow> entry list option result \<times> 'w state" where
  "bootstrap_loop env segs i davDirContents st =
     (case bootstrap_step env (segmentedDavDir segs i) davDirContents st of
        (Return contents, st1) \<Rightarrow>
          if i + 1 \<le> length segs then bootstrap_loop env segs (i + 1) contents st1
          else (Return contents, st1)
      | (Throw err, st1) \<Rightarrow> (Throw err, st1)
      | (Exit code, st1) \<Rightarrow> (Exit code, st1))"
  by pat_completeness auto
termination
  by (relation "measure (\<lambda>(env, segs, i, c, st). Suc (length segs) - i)") auto

declare bootstrap_loop.simps [simp del]

definition bootstrap :: "'w env \<Rightarrow> options \<Rightarrow> 'w state \<Rightarrow> entry list option result \<times> 'w state" where
  "bootstrap env opts st = bootstrap_loop env (davDirSegments (davDir opts)) 0 None st"

subsection \<open>Retention pruning (lines 89-100)\<close>

text \<open>\<^verbatim>\<open>daysToKeep > 0 && daysToKeep < Infinity\<close>: the window in days, if pruning runs.\<close>

fun window :: "number \<Rightarrow> int option" where
  "window (Finite d) = (if d > 0 then Some d else None)"
| "window Infinity = None"
| "window NaN = None"

text \<open>\<^verbatim>\<open>moment.duration(daysToKeep, 'days').asMilliseconds()\<close>\<close>

definition days_asMilliseconds :: "int \<Rightarrow> int" where
  "days_asMilliseconds d = d * 86400000"

text \<open>\<^verbatim>\<open>lastModifiedMoment.isBefore(obsoleteMoment)\<close>\<close>

fun isBefore :: "int option \<Rightarrow> int \<Rightarrow> bool" where
  "isBefore None t = False"
| "isBefore (Some l) t = (l < t)"

text \<open>The condition of line 95.\<close>

definition obsolete :: "string \<Rightarrow> int \<Rightarrow> entry \<Rightarrow> bool" where
  "obsolete nm obsoleteMoment e \<longleftrightarrow>
     type e = ''file'' \<and> BACKUP_FILENAME_REGEXP_test nm (basename e) \<and> isBefore (lastmod e) obsoleteMoment"

text \<open>The \<^verbatim>\<open>for ... of\<close> loop: a rejected \<^verbatim>\<open>deleteFile\<close> is thrown out of the loop.\<close>

fun prune_loop :: "'w env \<Rightarrow> string \<Rightarrow> int \<Rightarrow> entry list \<Rightarrow> 'w state \<Rightarrow> unit result \<times> 'w state" where
  "prune_loop env nm obsoleteMoment [] st = (Return (), st)"
| "prune_loop env nm obsoleteMoment (e # es) st =
     (if obsolete nm obsoleteMoment e then
        (case deleteFile env (filename e) (world st) of
           (Inr u, w1) \<Rightarrow>
             prune_loop env nm obsoleteMoment es
               (after w1 [Log (''Deleting old backup: '' @ filename e), DeleteFile (filename e)] st)
         | (Inl err, w1) \<Rightarrow>
             (Throw err, after w1 [Log (''Deleting old backup: '' @ filename e), DeleteFile (filename e)] st))
      else prune_loop env nm obsoleteMoment es st)"

text \<open>Iterating \<^verbatim>\<open>undefined\<close> throws a TypeError.\<close>

definition not_iterable :: js_error where
  "not_iterable = \<lparr>message = ''davDirContents is not iterable'', status = None, statusCode = None, backupFilename = None\<rparr>"

definition prune :: "'w env \<Rightarrow> options \<Rightarrow> entry list option \<Rightarrow> 'w state \<Rightarrow> unit result \<times> 'w state" where
  "prune env opts davDirContents st =
     (case window (daysToKeep opts) of
        None \<Rightarrow> (Return (), st)
      | Some d \<Rightarrow>
          (case now env (world st) of (m, w1) \<Rightarrow>
           (case davDirContents of
              None \<Rightarrow> (Throw not_iterable, after w1 [] st)
            | Some listing \<Rightarrow>
                prune_loop env (name opts) (valueOf m - days_asMilliseconds d) listing (after w1 [] st))))"

subsection \<open>The producers and the streaming upload (lines 160-347)\<close>

text \<open>
  The three producers differ in the filename, in the exit codes they take for a failure
  and in the words of their messages; the handlers are otherwise the same. What a handler
  does to the promise of the attempt, or to the process:
\<close>

datatype reaction = Ignore | Resolve | Reject js_error | Process_exit int "action list"

text \<open>
  The \<^verbatim>\<open>exit\<close> handler: tar fails on \<^verbatim>\<open>code > 1\<close> (lines 173-180), the dumps on a
  truthy code (lines 241-247, 303-309). \<^verbatim>\<open>null\<close> is neither.
\<close>

fun exit_failed :: "kind \<Rightarrow> int option \<Rightarrow> bool" where
  "exit_failed k None = False"
| "exit_failed Tar (Some code) = (code > 1)"
| "exit_failed Mysql (Some code) = (code \<noteq> 0)"
| "exit_failed Mongo (Some code) = (code \<noteq> 0)"

fun backup_words :: "kind \<Rightarrow> string" where
  "backup_words Tar = ''Directory backup''"
| "backup_words Mysql = ''Database backup''"
| "backup_words Mongo = ''Database backup''"

definition on_exit :: "kind \<Rightarrow> string \<Rightarrow> int option \<Rightarrow> reaction" where
  "on_exit k fn code =
     (if exit_failed k code then
        Reject \<lparr>message = backup_words k @ '' failed with code '' @ (case code of None \<Rightarrow> ''null'' | Some c \<Rightarrow> show_int c),
                status = None, statusCode = None, backupFilename = Some fn\<rparr>
      else Ignore)"

text \<open>The \<^verbatim>\<open>error\<close> handler of the PUT stream (lines 193-200, 261-268, 323-330).\<close>

definition on_put_error :: "js_error \<Rightarrow> reaction" where
  "on_put_error err =
     (if statusCode err = Some 507 then Process_exit 1 [Warn ''Not enough storage space'']
      else Reject err)"

text \<open>The \<^verbatim>\<open>response\<close> handler of the PUT stream (lines 203-211, 271-279, 333-341).\<close>

definition on_response :: "kind \<Rightarrow> string \<Rightarrow> int \<Rightarrow> string \<Rightarrow> reaction" where
  "on_response k fn sc statusMessage =
     (if sc = 201 then Resolve
      else Reject \<lparr>message = backup_words k @ '' upload failed with '' @ show_int sc @ '' '' @ statusMessage,
                   status = None, statusCode = None, backupFilename = Some fn\<rparr>)"

fun react :: "kind \<Rightarrow> string \<Rightarrow> event \<Rightarrow> reaction" where
  "react k fn (SpawnError err) = Reject err"
| "react k fn (ProcessExit code) = on_exit k fn code"
| "react k fn (PutError err) = on_put_error err"
| "react k fn (PutResponse sc statusMessage) = on_response k fn sc statusMessage"

text \<open>
  A promise is settled by the first \<^verbatim>\<open>resolve\<close> or \<^verbatim>\<open>reject\<close>: the fate of the
  promise is the reaction to the first event that is not ignored. \<open>Ignore\<close> for the whole
  list: the promise stays pending.
\<close>

fun settle :: "kind \<Rightarrow> string \<Rightarrow> event list \<Rightarrow> reaction" where
  "settle k fn [] = Ignore"
| "settle k fn (ev # evs) = (case react k fn ev of Ignore \<Rightarrow> settle k fn evs | r \<Rightarrow> r)"

text \<open>
  The events that follow the one that settled the promise. The generator resumes as soon
  as the promise has settled, so these are delivered later, while the run goes on.
\<close>

fun leftover :: "kind \<Rightarrow> string \<Rightarrow> event list \<Rightarrow> event list" where
  "leftover k fn [] = []"
| "leftover k fn (ev # evs) = (case react k fn ev of Ignore \<Rightarrow> leftover k fn evs | r \<Rightarrow> evs)"

text \<open>
  On a promise that has settled, \<^verbatim>\<open>resolve\<close> and \<^verbatim>\<open>reject\<close> do nothing. The one
  handler that acts whatever the state of its promise is the \<^verbatim>\<open>error\<close> handler of the
  PUT stream on status 507 (lines 194-196, 262-264, 324-326), which ends the process.
\<close>

fun exits :: "event \<Rightarrow> bool" where
  "exits (PutError err) = (statusCode err = Some 507)"
| "exits ev = False"

text \<open>
  The generator waits on a promise that has yet to settle: the late events arrive. They
  are taken to arrive during the first wait that follows the settlement of their own
  attempt, before anything that wait is for.
\<close>

definition wait :: "'w state \<Rightarrow> unit result \<times> 'w state" where
  "wait st =
     (if list_ex exits (late st) then (Exit 1, after (world st) [Warn ''Not enough storage space''] st)
      else (Return (), st\<lparr>late := []\<rparr>))"

definition putUrl_of :: "options \<Rightarrow> string \<Rightarrow> string" where
  "putUrl_of opts fn = davBaseUrl opts @ davDir opts @ ''/'' @ fn"

text \<open>
  \<^verbatim>\<open>yield backupFn(davBaseUrl, options)\<close>: the producer is spawned and the upload
  started, and the generator waits. The promise resolves, rejects (the \<^verbatim>\<open>yield\<close>
  throws), or the process ends. A promise that never settles leaves the generator
  suspended until the watchdog of lines 47-50 fires. Time is not modelled otherwise: a
  run whose waits all end is taken to end within the twelve hours of the watchdog.
\<close>

definition backupFn :: "'w env \<Rightarrow> options \<Rightarrow> kind \<Rightarrow> 'w state \<Rightarrow> unit result \<times> 'w state" where
  "backupFn env opts k st =
     (case now env (world st) of (m, w1) \<Rightarrow>
      let fn = backupFilename_of k opts m;
          putUrl = putUrl_of opts fn
      in (case stream_events env k putUrl w1 of (evs, w2) \<Rightarrow>
          (case wait (after w2 [Spawn k, Log (''Uploading: '' @ putUrl), Put putUrl] st) of
             (Return u, st1) \<Rightarrow>
               (case settle k fn evs of
                  Resolve \<Rightarrow> (Return (), st1\<lparr>late := leftover k fn evs\<rparr>)
                | Reject err \<Rightarrow> (Throw err, st1\<lparr>late := leftover k fn evs\<rparr>)
                | Process_exit code logged \<Rightarrow> (Exit code, after w2 logged st1)
                | Ignore \<Rightarrow> (Exit 1, after w2 [Warn ''Timeout''] st1))
           | (Throw err, st1) \<Rightarrow> (Throw err, st1)
           | (Exit code, st1) \<Rightarrow> (Exit code, st1))))"

subsection \<open>The retry and cleanup orchestrator (lines 102-131)\<close>

text \<open>
  Lines 109-121: the cleanup delete and its \<^verbatim>\<open>catch\<close>, which rethrows nothing. The
  generator waits for the answer to the delete request.
\<close>

definition cleanup_warnings :: "js_error + unit \<Rightarrow> action list" where
  "cleanup_warnings r =
     (case r of
        Inr u \<Rightarrow> []
      | Inl err \<Rightarrow>
          if status err = Some 401 then [Warn ''Wrong credentials'']
          else if status err \<noteq> Some 404 then [WarnCleanupError err]
          else [])"

definition cleanup :: "'w env \<Rightarrow> options \<Rightarrow> js_error \<Rightarrow> 'w state \<Rightarrow> unit result \<times> 'w state" where
  "cleanup env opts err st =
     (if truthy (backupFilename err) then
        let brokenFilePath = davDir opts @ ''/'' @ interpolate (backupFilename err)
        in (case deleteFile env brokenFilePath (world st) of (r, w1) \<Rightarrow>
             (case wait (after w1 [Log (''Deleting broken backup: '' @ brokenFilePath),
                                   DeleteFile brokenFilePath] st) of
                (Return u, st1) \<Rightarrow> (Return (), after w1 (cleanup_warnings r) st1)
              | (Throw e, st1) \<Rightarrow> (Throw e, st1)
              | (Exit code, st1) \<Rightarrow> (Exit code, st1)))
      else (Return (), st))"

text \<open>
  The generator \<^verbatim>\<open>backup\<close>. It waits three times: for the promise of the attempt, for
  the cleanup delete, and for the delay before a retry.
\<close>

function backup :: "'w env \<Rightarrow> options \<Rightarrow> kind \<Rightarrow> nat \<Rightarrow> 'w state \<Rightarrow> unit result \<times> 'w state" where
  "backup env opts k retriesCount st =
     (case backupFn env opts k st of
        (Return u, st1) \<Rightarrow> (Return (), st1)
      | (Exit code, st1) \<Rightarrow> (Exit code, st1)
      | (Throw err, st1) \<Rightarrow>
          (case cleanup env opts err (after (world st1) [WarnBackupError err] st1) of
             (Return u, st2) \<Rightarrow>
               if retriesCount < retries opts then
                 (case wait (after (world st2) [Log ''Retrying'', Delay RETRY_DELAY] st2) of
                    (Return u, st3) \<Rightarrow> backup env opts k (retriesCount + 1) st3
                  | (Throw e, st3) \<Rightarrow> (Throw e, st3)
                  | (Exit code, st3) \<Rightarrow> (Exit code, st3))
               else (Return (), st2)
           | (Throw e, st2) \<Rightarrow> (Throw e, st2)
           | (Exit code, st2) \<Rightarrow> (Exit code, st2)))"
  by pat_completeness auto
termination
  by (relation "measure (\<lambda>(env, opts, k, retriesCount, st). retries opts - retriesCount)") auto

declare backup.simps [simp del]

subsection \<open>The run (lines 52-55, 61-157)\<close>

text \<open>\<^verbatim>\<open>dirs && dirs.length\<close>\<close>

fun has_dirs :: "string list option \<Rightarrow> bool" where
  "has_dirs None = False"
| "has_dirs (Some ds) = (ds \<noteq> [])"

fun configured :: "options \<Rightarrow> kind \<Rightarrow> bool" where
  "configured opts Tar = has_dirs (dirs opts)"
| "configured opts Mysql = truthy (mysqlDb opts)"
| "configured opts Mongo = truthy (mongoDb opts)"

fun completed :: "kind \<Rightarrow> string" where
  "completed Tar = ''Directory dump completed''"
| "completed Mysql = ''MySQL dump completed''"
| "completed Mongo = ''MongoDB dump completed''"

text \<open>Sequencing inside the generator: a throw or a process exit skips what follows.\<close>

definition and_then ::
  "'a result \<times> 'w state \<Rightarrow> ('a \<Rightarrow> 'w state \<Rightarrow> 'b result \<times> 'w state) \<Rightarrow> 'b result \<times> 'w state" where
  "and_then r f =
     (case r of
        (Return x, st) \<Rightarrow> f x st
      | (Throw err, st) \<Rightarrow> (Throw err, st)
      | (Exit code, st) \<Rightarrow> (Exit code, st))"

text \<open>One of the three \<^verbatim>\<open>if (...) { yield* backup(...); console.log(...) }\<close> blocks.\<close>

definition stage :: "'w env \<Rightarrow> options \<Rightarrow> kind \<Rightarrow> 'w state \<Rightarrow> unit result \<times> 'w state" where
  "stage env opts k st =
     (if configured opts k then
        and_then (backup env opts k 0 st) (\<lambda>u st1. (Return (), after (world st1) [Log (completed k)] st1))
      else (Return (), st))"

definition stages :: "'w env \<Rightarrow> options \<Rightarrow> 'w state \<Rightarrow> unit result \<times> 'w state" where
  "stages env opts st =
     and_then (stage env opts Tar st) (\<lambda>u st1.
     and_then (stage env opts Mysql st1) (\<lambda>u st2.
     stage env opts Mongo st2))"

text \<open>The body of the generator given to \<^verbatim>\<open>co\<close>.\<close>

definition co_body :: "'w env \<Rightarrow> options \<Rightarrow> 'w state \<Rightarrow> unit result \<times> 'w state" where
  "co_body env opts st =
     and_then (bootstrap env opts st) (\<lambda>davDirContents st1.
     and_then (prune env opts davDirContents st1) (\<lambda>u st2.
     stages env opts st2))"

text \<open>
  \<^verbatim>\<open>module.exports\<close>: the exit code of the process and the final state. Line 52 ends the
  process before any remote call when nothing is configured; \<^verbatim>\<open>.then\<close> exits with 0
  and \<^verbatim>\<open>.catch\<close> prints the error and exits with 1, both as soon as the generator is
  done: an event that is still late then is never delivered. Bootstrap and pruning run
  before the first attempt, when no event is late.
\<close>

definition run :: "'w env \<Rightarrow> options \<Rightarrow> 'w \<Rightarrow> int \<times> 'w state" where
  "run env opts w =
     (if \<not> has_dirs (dirs opts) \<and> \<not> truthy (mysqlDb opts) \<and> \<not> truthy (mongoDb opts) then
        (1, \<lparr>world = w, trace = [Log ''No directories or databases to backup''], late = []\<rparr>)
      else
        (case co_body env opts \<lparr>world = w, trace = [], late = []\<rparr> of
           (Return u, st) \<Rightarrow> (0, st)
         | (Throw err, st) \<Rightarrow> (1, after (world st) [ConsoleError err] st)
         | (Exit code, st) \<Rightarrow> (code, st)))"

subsection \<open>Reading a trace\<close>

text \<open>
  The upload URLs, the paths deleted and the errors of the failed attempts (line 106) of
  a trace, each in the order of the trace.
\<close>

fun puts :: "action list \<Rightarrow> string list" where
  "puts [] = []"
| "puts (Put u # tr) = u # puts tr"
| "puts (a # tr) = puts tr"

fun deletes :: "action list \<Rightarrow> string list" where
  "deletes [] = []"
| "deletes (DeleteFile p # tr) = p # deletes tr"
| "deletes (a # tr) = deletes tr"

fun failures :: "action list \<Rightarrow> js_error list" where
  "failures [] = []"
| "failures (WarnBackupError err # tr) = err # failures tr"
| "failures (a # tr) = failures tr"

text \<open>The directories listed, in the order of the trace.\<close>

fun listed :: "action list \<Rightarrow> string list" where
  "listed [] = []"
| "listed (GetDirectoryContents p # tr) = p # listed tr"
| "listed (a # tr) = listed tr"

text \<open>The trace without its console lines other than the failure notices of line 106.\<close>

fun steps :: "action list \<Rightarrow> action list" where
  "steps [] = []"
| "steps (Put u # tr) = Put u # steps tr"
| "steps (DeleteFile p # tr) = DeleteFile p # steps tr"
| "steps (Delay ms # tr) = Delay ms # steps tr"
| "steps (WarnBackupError err # tr) = WarnBackupError err # steps tr"
| "steps (a # tr) = steps tr"

subsection \<open>Deleting in order until a request fails\<close>

text \<open>
  Deletion is requested for the paths of a list one after the other, each request in the
  world the one before has left, and no further once a request has failed: the paths
  requested, and the error of the request that failed, if one did.
\<close>

fun deletions_until_failure :: "'w env \<Rightarrow> string list \<Rightarrow> 'w \<Rightarrow> string list \<times> js_error option" where
  "deletions_until_failure env [] w = ([], None)"
| "deletions_until_failure env (p # ps) w =
     (case deleteFile env p w of
        (Inr u, w1) \<Rightarrow> (case deletions_until_failure env ps w1 of (requested, failure) \<Rightarrow> (p # requested, failure))
      | (Inl err, w1) \<Rightarrow> ([p], Some err))"

subsection \<open>Properties of the actions a piece of the run adds to the trace\<close>

text \<open>Bootstrap and pruning upload nothing and never report a full remote store.\<close>

definition housekeeping :: "action list \<Rightarrow> bool" where
  "housekeeping added \<longleftrightarrow> puts added = [] \<and> Warn ''Not enough storage space'' \<notin> set added"

text \<open>
  What a job started with the counter at \<open>rc\<close> adds: at least one attempt and no more
  than the retries left allow, and an end that is a return or the end of the process,
  never a throw.
\<close>

definition job_added :: "options \<Rightarrow> nat \<Rightarrow> unit result \<Rightarrow> action list \<Rightarrow> bool" where
  "job_added opts rc r added \<longleftrightarrow>
     puts added \<noteq> [] \<and> length (puts added) \<le> retries opts - rc + 1 \<and>
     (r = Return () \<or> r = Exit 1)"

text \<open>
  The report of a full remote store is either absent from what a piece of the run adds to
  the trace, or it is the last thing added, there once, and the piece ends the process
  with code 1.
\<close>

definition storage_full :: action where
  "storage_full = Warn ''Not enough storage space''"

definition tracked :: "'a result \<Rightarrow> action list \<Rightarrow> bool" where
  "tracked r added \<longleftrightarrow>
     storage_full \<notin> set added \<or>
     (r = Exit 1 \<and> (\<exists>pre. added = pre @ [storage_full] \<and> storage_full \<notin> set pre))"

section \<open>Concrete runs\<close>

text \<open>Inputs at which the theorems below are evaluated.\<close>

definition moment0 :: moment where
  "moment0 = \<lparr>valueOf = 1709942759007, year = 2024, month = 3, date = 9,
               hours = 0, minutes = 5, seconds = 59, milliseconds = 7\<rparr>"

definition options0 :: options where
  "options0 = \<lparr>dirs = Some [''/data''], name = ''nightly'', daysToKeep = Finite 7, retries = 1,
                davBaseUrl = ''https://dav.box.com/dav'', davDir = ''/backup'',
                mysqlDb = Some ''shop'', mongoDb = None\<rparr>"

text \<open>A document database whose name has a line feed in it.\<close>

definition options_newline :: options where
  "options_newline = options0\<lparr>mongoDb := Some (''a'' @ [CHR 0x0A] @ ''b'')\<rparr>"

text \<open>
  Two old backups of the run, a recent one and a file of another kind, as listed in
  \<^verbatim>\<open>/backup\<close>; the clock of \<open>moment0\<close> is more than seven days past the old ones.
\<close>

definition old_tgz :: entry where
  "old_tgz = \<lparr>type = ''file'', lastmod = Some 1704067200000,
              filename = ''/backup/backup-nightly_2024-01-01_00-00-00-000.tgz'',
              basename = ''backup-nightly_2024-01-01_00-00-00-000.tgz''\<rparr>"

definition old_sql :: entry where
  "old_sql = \<lparr>type = ''file'', lastmod = Some 1704067200000,
              filename = ''/backup/backup-nightly_mysql-shop_2024-01-01_00-00-00-000.sql.gz'',
              basename = ''backup-nightly_mysql-shop_2024-01-01_00-00-00-000.sql.gz''\<rparr>"

definition recent_tgz :: entry where
  "recent_tgz = \<lparr>type = ''file'', lastmod = Some 1709856000000,
                 filename = ''/backup/backup-nightly_2024-03-08_00-00-00-000.tgz'',
                 basename = ''backup-nightly_2024-03-08_00-00-00-000.tgz''\<rparr>"

definition notes_txt :: entry where
  "notes_txt = \<lparr>type = ''file'', lastmod = Some 0,
                filename = ''/backup/notes.txt'', basename = ''notes.txt''\<rparr>"

text \<open>An old backup of the run that lies in the root directory, outside the target.\<close>

definition root_tgz :: entry where
  "root_tgz = \<lparr>type = ''file'', lastmod = Some 1704067200000,
               filename = ''/backup-nightly_2024-01-01_00-00-00-000.tgz'',
               basename = ''backup-nightly_2024-01-01_00-00-00-000.tgz''\<rparr>"

definition error_status :: "int \<Rightarrow> js_error" where
  "error_status code = \<lparr>message = ''Request failed'', status = Some code, statusCode = None, backupFilename = None\<rparr>"

definition stream_error :: "int option \<Rightarrow> js_error" where
  "stream_error code = \<lparr>message = ''Stream failed'', status = None, statusCode = code, backupFilename = None\<rparr>"

text \<open>
  A remote store on which everything succeeds, with producers that succeed; the world is
  the number of attempts started so far.
\<close>

definition env0 :: "nat env" where
  "env0 = \<lparr>
     getDirectoryContents = (\<lambda>p w.
       (if p = ''/'' then Inr [] else if p = ''/backup'' then Inr [old_tgz, notes_txt, recent_tgz, old_sql]
        else Inl (error_status 404), w)),
     createDirectory = (\<lambda>p w. (Inr (), w)),
     deleteFile = (\<lambda>p w. (Inr (), w)),
     now = (\<lambda>w. (moment0, w)),
     stream_events = (\<lambda>k putUrl w. ([ProcessExit (Some 0), PutResponse 201 ''Created''], w + 1))\<rparr>"

text \<open>The archiver exits with code 2 on every attempt; the upload itself is acknowledged.\<close>

definition env_tar_fails :: "nat env" where
  "env_tar_fails = env0\<lparr>stream_events := (\<lambda>k putUrl w.
     (if k = Tar then [ProcessExit (Some 2), PutResponse 201 ''Created'']
      else [ProcessExit (Some 0), PutResponse 201 ''Created''], w + 1))\<rparr>"

text \<open>The process cannot be spawned on the first attempt.\<close>

definition env_spawn_fails_once :: "nat env" where
  "env_spawn_fails_once = env0\<lparr>stream_events := (\<lambda>k putUrl w.
     (if w = 0 then [SpawnError \<lparr>message = ''spawn ENOENT'', status = None, statusCode = None, backupFilename = None\<rparr>]
      else [ProcessExit (Some 0), PutResponse 201 ''Created''], w + 1))\<rparr>"

text \<open>The store answers the first upload with 507 through the stream's error event.\<close>

definition env_full :: "nat env" where
  "env_full = env0\<lparr>stream_events := (\<lambda>k putUrl w. ([ProcessExit (Some 0), PutError (stream_error (Some 507))], w + 1))\<rparr>"

text \<open>
  The archiver exits with code 2, and the store then reports 507 for the upload through
  the stream's error event.
\<close>

definition env_late_full :: "nat env" where
  "env_late_full = env0\<lparr>stream_events := (\<lambda>k putUrl w.
     ([ProcessExit (Some 2), PutError (stream_error (Some 507))], w + 1))\<rparr>"

text \<open>
  The process cannot be spawned, and the store then reports 507 for the upload through the
  stream's error event.
\<close>

definition env_spawn_fails_full :: "nat env" where
  "env_spawn_fails_full = env0\<lparr>stream_events := (\<lambda>k putUrl w.
     ([SpawnError \<lparr>message = ''spawn ENOENT'', status = None, statusCode = None, backupFilename = None\<rparr>,
       PutError (stream_error (Some 507))], w + 1))\<rparr>"

text \<open>Every delete is refused with status 500, 401 or 404.\<close>

definition env_delete_fails :: "int \<Rightarrow> nat env" where
  "env_delete_fails code = env_tar_fails\<lparr>deleteFile := (\<lambda>p w. (Inl (error_status code), w))\<rparr>"

text \<open>The target directory does not exist yet; the root directory holds an old backup.\<close>

definition env_fresh :: "nat env" where
  "env_fresh = env0\<lparr>getDirectoryContents := (\<lambda>p w.
     (if p = ''/'' then Inr [root_tgz] else Inl (error_status 404), w))\<rparr>"

section \<open>Filenames and the pattern\<close>

text \<open>Rules that evaluate the definitions on concrete inputs.\<close>

lemma show_nat_small: "n < 10 \<Longrightarrow> show_nat n = [digit_char n]"
  by (subst show_nat.simps) simp

lemma show_nat_large: "10 \<le> n \<Longrightarrow> show_nat n = show_nat (n div 10) @ [digit_char (n mod 10)]"
  by (subst show_nat.simps) simp

lemma replicate_numeral: "replicate (numeral k) x = x # replicate (pred_numeral k) x"
  by (simp add: numeral_eq_Suc)

lemmas formatting = show_nat_small show_nat_large digit_char_def zeroFill_def format_date_def
  format_time_def format_timestamp_def replicate_numeral show_int_def

lemmas matching = BACKUP_FILENAME_REGEXP_test_def BACKUP_FILENAME_REGEXP_exec_def match_kind_def
  lazy_plus_def match_tail_def match_date_def match_time_def match_ext_def digits_def is_digit_def
  line_terminator_def

lemmas inputs = options0_def moment0_def options_newline_def


lemma is_digit_digit_char: "is_digit (digit_char d)"
proof -
  have "d mod 10 < length ''0123456789''" by simp
  then have "''0123456789'' ! (d mod 10) \<in> set ''0123456789''" by (rule nth_mem)
  then show ?thesis by (simp only: is_digit_def digit_char_def)
qed

lemma show_nat_digits: "list_all is_digit (show_nat n)"
proof (induction n rule: show_nat.induct)
  case (1 n)
  then show ?case
    by (subst show_nat.simps) (simp add: is_digit_digit_char)
qed

lemma show_nat_length: "n < 10 ^ k \<Longrightarrow> 0 < k \<Longrightarrow> length (show_nat n) \<le> k"
proof (induction n arbitrary: k rule: show_nat.induct)
  case (1 n)
  show ?case
  proof (cases "n < 10")
    case True
    then show ?thesis using "1.prems" by (subst show_nat.simps) simp
  next
    case False
    obtain j where k: "k = Suc j" using "1.prems"(2) by (cases k) auto
    have "0 < j" using False "1.prems"(1) k by (cases j) auto
    moreover have "n div 10 < 10 ^ j" using "1.prems"(1) k by (simp add: less_mult_imp_div_less)
    ultimately have "length (show_nat (n div 10)) \<le> j" using "1.IH" False by simp
    then show ?thesis using False k by (subst show_nat.simps) simp
  qed
qed

lemma zeroFill_length: "n < 10 ^ k \<Longrightarrow> 0 < k \<Longrightarrow> length (zeroFill n k) = k"
  using show_nat_length [of n k] by (simp add: zeroFill_def)

lemma is_digit_zero: "is_digit CHR ''0''"
  by (simp add: is_digit_def)

lemma zeroFill_digits: "list_all is_digit (zeroFill n k)"
  using show_nat_digits [of n] by (auto simp: zeroFill_def list_all_iff is_digit_zero)

lemma lit_append: "lit p (p @ s) = Some s"
  by (induction p) simp_all

lemma lit_Some: "lit p s = Some r \<Longrightarrow> s = p @ r"
  by (induction p s rule: lit.induct) (auto split: if_splits)

lemma digits_append: "length ds = n \<Longrightarrow> list_all is_digit ds \<Longrightarrow> digits n (ds @ s) = Some (ds, s)"
  by (simp add: digits_def)

lemma digits_Some: "digits n s = Some (ds, r) \<Longrightarrow> s = ds @ r \<and> length ds = n \<and> list_all is_digit ds"
  by (auto simp: digits_def split: if_splits)

lemma digits_zeroFill: "n < 10 ^ k \<Longrightarrow> 0 < k \<Longrightarrow> digits k (zeroFill n k @ s) = Some (zeroFill n k, s)"
  by (simp add: digits_append zeroFill_length zeroFill_digits)

lemma match_date_format:
  assumes "calendar_ok m"
  shows "match_date (format_date m @ s) = Some (format_date m, s)"
proof -
  have y: "year m < 10 ^ 4" and mo: "month m < 10 ^ 2" and d: "date m < 10 ^ 2"
    using assms by (simp_all add: calendar_ok_def)
  show ?thesis
    by (simp add: match_date_def format_date_def digits_zeroFill [OF y] digits_zeroFill [OF mo]
        digits_zeroFill [OF d])
qed

lemma match_time_format:
  assumes "calendar_ok m"
  shows "match_time (format_time m @ s) = Some (format_time m, s)"
proof -
  have h: "hours m < 10 ^ 2" and mi: "minutes m < 10 ^ 2" and sec: "seconds m < 10 ^ 2"
    and ms: "milliseconds m < 10 ^ 3"
    using assms by (simp_all add: calendar_ok_def)
  show ?thesis
    by (simp add: match_time_def format_time_def digits_zeroFill [OF h] digits_zeroFill [OF mi]
        digits_zeroFill [OF sec] digits_zeroFill [OF ms])
qed

lemma match_tail_format:
  assumes "calendar_ok m" and "match_ext ext"
  shows "match_tail (format_timestamp m @ ext) = Some (format_date m, format_time m)"
  using assms(2)
  by (simp add: match_tail_def format_timestamp_def match_date_format [OF assms(1)]
      match_time_format [OF assms(1)])

lemma match_date_Some:
  "match_date s = Some (d, r) \<Longrightarrow> s = d @ r \<and> length d = 10"
  by (auto simp: match_date_def split: Option.bind_splits dest!: digits_Some lit_Some)

lemma match_time_Some:
  "match_time s = Some (t, r) \<Longrightarrow> s = t @ r \<and> length t = 12"
  by (auto simp: match_time_def split: Option.bind_splits dest!: digits_Some lit_Some)

lemma match_ext_iff: "match_ext s \<longleftrightarrow> s \<in> {''.tgz'', ''.tar'', ''.tar.gz'', ''.sql'', ''.sql.gz''}"
  by (auto simp: match_ext_def split: option.splits dest!: lit_Some)

lemma match_tail_Some:
  "match_tail s = Some (d, t) \<Longrightarrow> \<exists>ext. s = d @ ''_'' @ t @ ext \<and> length d = 10 \<and> length t = 12 \<and> match_ext ext"
  by (auto simp: match_tail_def split: Option.bind_splits if_splits dest!: match_date_Some match_time_Some lit_Some)

lemma match_tail_length: "match_tail s = Some dt \<Longrightarrow> length s \<le> 30"
  by (cases dt) (auto dest!: match_tail_Some simp: match_ext_iff)


lemma lazy_more_format:
  assumes "calendar_ok m" and "match_ext ext" and "length ext = 7"
    and "list_all (\<lambda>c. \<not> line_terminator c) x"
  shows "lazy_more (x @ ''_'' @ format_timestamp m @ ext) = Some (format_date m, format_time m)"
  using assms(4)
proof (induction x)
  case Nil
  show ?case by (simp add: match_tail_format [OF assms(1,2)])
next
  case (Cons c x)
  have len: "length (format_timestamp m) = 23"
    using assms(1)
    by (simp add: format_timestamp_def format_date_def format_time_def zeroFill_length calendar_ok_def)
  have "match_tail (x @ ''_'' @ format_timestamp m @ ext) = None"
  proof (cases "match_tail (x @ ''_'' @ format_timestamp m @ ext)")
    case (Some dt)
    from match_tail_length [OF this] show ?thesis using len assms(3) by simp
  qed simp
  then have "lit ''_'' (c # x @ ''_'' @ format_timestamp m @ ext) \<bind> match_tail = None"
    by (cases "c = CHR ''_''") simp_all
  then show ?case using Cons by simp
qed

lemma match_kind_format:
  assumes "calendar_ok m" and "db \<noteq> []" and "list_all (\<lambda>c. \<not> line_terminator c) db"
  shows "match_kind k (k @ ''-'' @ db @ ''_'' @ format_timestamp m @ ''.sql.gz'') =
         Some (Some k, format_date m, format_time m)"
proof -
  obtain c x where db: "db = c # x" using assms(2) by (cases db) auto
  have "lazy_more (x @ ''_'' @ format_timestamp m @ ''.sql.gz'') = Some (format_date m, format_time m)"
    using assms(3) db by (intro lazy_more_format [OF assms(1)]) (simp_all add: match_ext_iff)
  then have "lazy_plus (db @ ''_'' @ format_timestamp m @ ''.sql.gz'') = Some (format_date m, format_time m)"
    using assms(3) db by (simp add: lazy_plus_def)
  then show ?thesis
    by (simp add: match_kind_def lit_append)
qed

lemma format_timestamp_digit:
  assumes "calendar_ok m"
  shows "\<exists>c r. format_timestamp m = c # r \<and> is_digit c"
proof -
  have "year m < 10 ^ 4" using assms by (simp add: calendar_ok_def)
  then have "length (zeroFill (year m) 4) = 4" by (simp add: zeroFill_length)
  then obtain c r where cr: "zeroFill (year m) 4 = c # r" by (cases "zeroFill (year m) 4") auto
  moreover have "is_digit c" using zeroFill_digits [of "year m" 4] cr by simp
  ultimately show ?thesis by (simp add: format_timestamp_def format_date_def)
qed

lemma match_kind_digit: "is_digit c \<Longrightarrow> k = ''mysql'' \<or> k = ''mongo'' \<Longrightarrow> match_kind k (c # s) = None"
  by (auto simp: match_kind_def is_digit_def)

lemma exec_Tar:
  assumes "calendar_ok m"
  shows "BACKUP_FILENAME_REGEXP_exec (name opts) (backupFilename_of Tar opts m) =
         Some (None, format_date m, format_time m)"
proof -
  obtain c r where cr: "format_timestamp m = c # r" "is_digit c"
    using format_timestamp_digit [OF assms] by blast
  have t: "match_tail (format_timestamp m @ ''.tgz'') = Some (format_date m, format_time m)"
    by (rule match_tail_format [OF assms]) (simp add: match_ext_iff)
  have "lit (''backup-'' @ name opts @ ''_'') (backupFilename_of Tar opts m) = Some (format_timestamp m @ ''.tgz'')"
    using lit_append [of "''backup-'' @ name opts @ ''_''"] by simp
  moreover have "match_kind ''mysql'' (format_timestamp m @ ''.tgz'') = None"
    "match_kind ''mongo'' (format_timestamp m @ ''.tgz'') = None"
    using cr by (simp_all add: match_kind_digit)
  ultimately show ?thesis
    using t by (simp add: BACKUP_FILENAME_REGEXP_exec_def)
qed

lemma exec_Mysql:
  assumes "calendar_ok m" and "db \<noteq> []" and "list_all (\<lambda>c. \<not> line_terminator c) db" and "mysqlDb opts = Some db"
  shows "BACKUP_FILENAME_REGEXP_exec (name opts) (backupFilename_of Mysql opts m) =
         Some (Some ''mysql'', format_date m, format_time m)"
proof -
  have "lit (''backup-'' @ name opts @ ''_'') (backupFilename_of Mysql opts m) =
        Some (''mysql'' @ ''-'' @ db @ ''_'' @ format_timestamp m @ ''.sql.gz'')"
    using lit_append [of "''backup-'' @ name opts @ ''_''"] assms(4) by simp
  then show ?thesis
    using match_kind_format [OF assms(1-3), of "''mysql''"]
    by (simp add: BACKUP_FILENAME_REGEXP_exec_def)
qed

lemma exec_Mongo:
  assumes "calendar_ok m" and "db \<noteq> []" and "list_all (\<lambda>c. \<not> line_terminator c) db" and "mongoDb opts = Some db"
  shows "BACKUP_FILENAME_REGEXP_exec (name opts) (backupFilename_of Mongo opts m) =
         Some (Some ''mongo'', format_date m, format_time m)"
proof -
  have "lit (''backup-'' @ name opts @ ''_'') (backupFilename_of Mongo opts m) =
        Some (''mongo'' @ ''-'' @ db @ ''_'' @ format_timestamp m @ ''.sql.gz'')"
    using lit_append [of "''backup-'' @ name opts @ ''_''"] assms(4) by simp
  moreover have "match_kind ''mysql'' (''mongo'' @ ''-'' @ db @ ''_'' @ format_timestamp m @ ''.sql.gz'') = None"
    by (simp add: match_kind_def)
  ultimately show ?thesis
    using match_kind_format [OF assms(1-3), of "''mongo''"]
    by (simp add: BACKUP_FILENAME_REGEXP_exec_def)
qed

lemma exec_produced:
  assumes "calendar_ok m" and "configured opts k" and "list_all (\<lambda>c. \<not> line_terminator c) (target opts k)"
  shows "BACKUP_FILENAME_REGEXP_exec (name opts) (backupFilename_of k opts m) =
         Some (kind_tag k, format_date m, format_time m)"
proof (cases k)
  case Tar
  then show ?thesis using exec_Tar [OF assms(1)] by simp
next
  case Mysql
  then obtain db where "mysqlDb opts = Some db" "db \<noteq> []"
    using assms(2) by (cases "mysqlDb opts") auto
  then show ?thesis using Mysql exec_Mysql [OF assms(1), of db opts] assms(3) by simp
next
  case Mongo
  then obtain db where "mongoDb opts = Some db" "db \<noteq> []"
    using assms(2) by (cases "mongoDb opts") auto
  then show ?thesis using Mongo exec_Mongo [OF assms(1), of db opts] assms(3) by simp
qed


lemma list2: "length xs = 2 \<Longrightarrow> \<exists>a b. xs = [a, b]"
  by (cases xs; cases "tl xs") auto

lemma list3: "length xs = 3 \<Longrightarrow> \<exists>a b c. xs = [a, b, c]"
  by (cases xs) (auto dest: list2)

lemma list4: "length xs = 4 \<Longrightarrow> \<exists>a b c d. xs = [a, b, c, d]"
  by (cases xs) (auto dest: list3)

lemma match_date_pictured: "match_date s = Some (d, r) \<Longrightarrow> pictured ''YYYY-MM-DD'' d"
  by (auto simp: match_date_def split: Option.bind_splits dest!: digits_Some lit_Some list2 list4)

lemma match_time_pictured: "match_time s = Some (t, r) \<Longrightarrow> pictured ''HH-MM-SS-mmm'' t"
  by (auto simp: match_time_def split: Option.bind_splits dest!: digits_Some lit_Some list2 list3)

lemma match_tail_spec:
  assumes "match_tail s = Some (d, t)"
  shows "pictured ''YYYY-MM-DD'' d \<and> pictured ''HH-MM-SS-mmm'' t \<and>
         (\<exists>ext. ext \<in> {''tgz'', ''tar'', ''tar.gz'', ''sql'', ''sql.gz''} \<and> s = d @ ''_'' @ t @ ''.'' @ ext)"
proof -
  from assms obtain s1 s2 s3 where
    d: "match_date s = Some (d, s1)" and u: "lit ''_'' s1 = Some s2" and
    t: "match_time s2 = Some (t, s3)" and e: "match_ext s3"
    by (auto simp: match_tail_def split: Option.bind_splits if_splits)
  have "s = d @ ''_'' @ t @ s3"
    using match_date_Some [OF d] lit_Some [OF u] match_time_Some [OF t] by simp
  moreover have "\<exists>ext. ext \<in> {''tgz'', ''tar'', ''tar.gz'', ''sql'', ''sql.gz''} \<and> s3 = ''.'' @ ext"
    using e by (auto simp: match_ext_iff)
  ultimately show ?thesis
    using match_date_pictured [OF d] match_time_pictured [OF t] by auto
qed

lemma lazy_more_Some:
  "lazy_more s = Some dt \<Longrightarrow> \<exists>x r. s = x @ ''_'' @ r \<and> match_tail r = Some dt"
proof (induction s)
  case Nil
  then show ?case by simp
next
  case (Cons c s)
  show ?case
  proof (cases "lit ''_'' (c # s) \<bind> match_tail")
    case (Some dt')
    then have "dt' = dt" using Cons.prems by simp
    then have "c # s = [] @ ''_'' @ s \<and> match_tail s = Some dt"
      using Some by (auto split: if_splits)
    then show ?thesis by blast
  next
    case None
    then have "lazy_more s = Some dt" using Cons.prems by (simp split: if_splits)
    then obtain x r where "s = x @ ''_'' @ r" "match_tail r = Some dt" using Cons.IH by blast
    then have "c # s = (c # x) @ ''_'' @ r \<and> match_tail r = Some dt" by simp
    then show ?thesis by blast
  qed
qed

lemma match_kind_Some:
  assumes "match_kind k s = Some (k', d, t)"
  shows "k' = Some k \<and> (\<exists>tgt r. s = k @ ''-'' @ tgt @ ''_'' @ r \<and> match_tail r = Some (d, t))"
proof -
  from assms obtain s1 s2 where
    a: "lit k s = Some s1" and b: "lit ''-'' s1 = Some s2" and c: "lazy_plus s2 = Some (d, t)" and k: "k' = Some k"
    by (auto simp: match_kind_def split: Option.bind_splits)
  from c obtain ch s3 where s2: "s2 = ch # s3" and l: "lazy_more s3 = Some (d, t)"
    by (auto simp: lazy_plus_def split: list.splits if_splits)
  from lazy_more_Some [OF l] obtain x r where xr: "s3 = x @ ''_'' @ r" "match_tail r = Some (d, t)" by blast
  have "s = k @ ''-'' @ (ch # x) @ ''_'' @ r"
    using lit_Some [OF a] lit_Some [OF b] s2 xr(1) by simp
  then show ?thesis using k xr(2) by blast
qed

lemma exec_spec:
  assumes "BACKUP_FILENAME_REGEXP_exec nm s = Some (k, d, t)"
  shows "spec_BackupFilename nm s k d t"
proof -
  from assms obtain s0 where p: "lit (''backup-'' @ nm @ ''_'') s = Some s0"
    and alt: "orelse (match_kind ''mysql'' s0) (orelse (match_kind ''mongo'' s0)
              (match_tail s0 \<bind> (\<lambda>(d, t). Some (None, d, t)))) = Some (k, d, t)"
    by (auto simp: BACKUP_FILENAME_REGEXP_exec_def split: Option.bind_splits)
  have s: "s = ''backup-'' @ nm @ ''_'' @ s0" using lit_Some [OF p] by simp
  consider (mysql) "match_kind ''mysql'' s0 = Some (k, d, t)"
    | (mongo) "match_kind ''mongo'' s0 = Some (k, d, t)"
    | (none) "match_tail s0 = Some (d, t)" "k = None"
    using alt
    by (cases "match_kind ''mysql'' s0"; cases "match_kind ''mongo'' s0")
       (auto split: Option.bind_splits)
  then show ?thesis
  proof cases
    case mysql
    from match_kind_Some [OF this] obtain tgt r where
      "k = Some ''mysql''" "s0 = ''mysql'' @ ''-'' @ tgt @ ''_'' @ r" "match_tail r = Some (d, t)" by blast
    then show ?thesis using match_tail_spec [of r d t] s
      by (auto simp: spec_BackupFilename_def)
  next
    case mongo
    from match_kind_Some [OF this] obtain tgt r where
      "k = Some ''mongo''" "s0 = ''mongo'' @ ''-'' @ tgt @ ''_'' @ r" "match_tail r = Some (d, t)" by blast
    then show ?thesis using match_tail_spec [of r d t] s
      by (auto simp: spec_BackupFilename_def)
  next
    case none
    then show ?thesis using match_tail_spec [of s0 d t] s
      by (auto simp: spec_BackupFilename_def)
  qed
qed

text \<open>
  Claim C5, as the code has it. For an alphanumeric run name, a clock before the year
  10000 and, for the two database producers, a configured database name without a line
  terminator, the filename a producer generates is matched by the pattern of the same run
  name, and the capture groups are the producer's kind tag (none for the directory
  archive), the date and the time of the filename. In the other direction, every name the
  pattern of an alphanumeric run name matches has the shape
  \<^verbatim>\<open>backup-<name>_[<kind>-<target>_]<date>_<time>.<ext>\<close> of the BackupFilename encoding,
  with the captured kind, date and time in it and one of the five extensions.
\<close>

theorem backup_filename_roundtrip:
  "(alphanumeric (name opts) \<and> calendar_ok m \<and> configured opts k \<and>
    list_all (\<lambda>c. \<not> line_terminator c) (target opts k) \<longrightarrow>
      BACKUP_FILENAME_REGEXP_exec (name opts) (backupFilename_of k opts m) =
        Some (kind_tag k, format_date m, format_time m)) \<and>
   (alphanumeric nm \<and> BACKUP_FILENAME_REGEXP_exec nm s = Some (tag, d, t) \<longrightarrow>
      spec_BackupFilename nm s tag d t)"
  using exec_produced [of m opts k] exec_spec [of nm s tag d t] by blast

theorem backup_filename_roundtrip_witness:
  "(alphanumeric (name options0) \<and> calendar_ok moment0 \<and> configured options0 Mysql \<and>
    list_all (\<lambda>c. \<not> line_terminator c) (target options0 Mysql)) \<and>
   backupFilename_of Mysql options0 moment0 = ''backup-nightly_mysql-shop_2024-03-09_00-05-59-007.sql.gz'' \<and>
   BACKUP_FILENAME_REGEXP_exec ''nightly'' ''backup-nightly_mysql-shop_2024-03-09_00-05-59-007.sql.gz'' =
     Some (Some ''mysql'', ''2024-03-09'', ''00-05-59-007'') \<and>
   spec_BackupFilename ''nightly'' ''backup-nightly_mysql-shop_2024-03-09_00-05-59-007.sql.gz''
     (Some ''mysql'') ''2024-03-09'' ''00-05-59-007''"
proof -
  have h: "alphanumeric (name options0) \<and> calendar_ok moment0 \<and> configured options0 Mysql \<and>
           list_all (\<lambda>c. \<not> line_terminator c) (target options0 Mysql)"
    by (simp add: inputs alphanumeric_def calendar_ok_def line_terminator_def)
  have n: "name options0 = ''nightly''"
    by (simp add: inputs)
  have f: "backupFilename_of Mysql options0 moment0 = ''backup-nightly_mysql-shop_2024-03-09_00-05-59-007.sql.gz''"
    by (simp add: inputs formatting)
  have g: "kind_tag Mysql = Some ''mysql''" "format_date moment0 = ''2024-03-09''"
    "format_time moment0 = ''00-05-59-007''"
    by (simp_all add: inputs formatting)
  have "BACKUP_FILENAME_REGEXP_exec (name options0) (backupFilename_of Mysql options0 moment0) =
        Some (kind_tag Mysql, format_date moment0, format_time moment0)"
    using backup_filename_roundtrip [of options0 moment0 Mysql] h by blast
  then have e: "BACKUP_FILENAME_REGEXP_exec ''nightly'' ''backup-nightly_mysql-shop_2024-03-09_00-05-59-007.sql.gz'' =
           Some (Some ''mysql'', ''2024-03-09'', ''00-05-59-007'')"
    by (simp only: n f g)
  have "spec_BackupFilename ''nightly'' ''backup-nightly_mysql-shop_2024-03-09_00-05-59-007.sql.gz''
          (Some ''mysql'') ''2024-03-09'' ''00-05-59-007''"
    using backup_filename_roundtrip
      [of options0 moment0 Mysql "''nightly''" "''backup-nightly_mysql-shop_2024-03-09_00-05-59-007.sql.gz''"
          "Some ''mysql''" "''2024-03-09''" "''00-05-59-007''"] e h
    unfolding n by blast
  then show ?thesis using h f e by blast
qed

text \<open>
  Claim C5 as stated fails for a database name with a line feed in it: the pattern's
  \<^verbatim>\<open>.+?\<close> does not cross a line terminator, so the filename the document dumper
  generates for such a database is not matched.
\<close>

theorem backup_filename_newline_counterexample:
  "alphanumeric (name options_newline) \<and> calendar_ok moment0 \<and> configured options_newline Mongo \<and>
   \<not> BACKUP_FILENAME_REGEXP_test (name options_newline)
        (backupFilename_of Mongo options_newline moment0)"
  by (simp add: inputs alphanumeric_def calendar_ok_def formatting matching)

section \<open>The orchestrator\<close>

subsection \<open>Traces\<close>

lemma puts_append [simp]: "puts (xs @ ys) = puts xs @ puts ys"
  by (induction xs rule: puts.induct) simp_all

lemma deletes_append [simp]: "deletes (xs @ ys) = deletes xs @ deletes ys"
  by (induction xs rule: deletes.induct) simp_all

lemma failures_append [simp]: "failures (xs @ ys) = failures xs @ failures ys"
  by (induction xs rule: failures.induct) simp_all

lemma steps_append [simp]: "steps (xs @ ys) = steps xs @ steps ys"
  by (induction xs rule: steps.induct) simp_all

lemma after_after: "after w b (after w' a st) = after w (a @ b) st"
  by (simp add: after_def)

lemma world_after [simp]: "world (after w a st) = w"
  by (simp add: after_def)

lemma trace_after [simp]: "trace (after w a st) = trace st @ a"
  by (simp add: after_def)

lemma late_after [simp]: "late (after w a st) = late st"
  by (simp add: after_def)

lemma after_late: "after w a (st\<lparr>late := l\<rparr>) = (after w a st)\<lparr>late := l\<rparr>"
  by (simp add: after_def)

subsection \<open>Events\<close>

lemma react_exit:
  "react k fn ev = Process_exit code logged \<Longrightarrow> code = 1 \<and> logged = [Warn ''Not enough storage space'']"
  by (cases ev) (auto simp: on_exit_def on_put_error_def on_response_def split: if_splits)

lemma react_exits: "exits ev \<longleftrightarrow> react k fn ev = Process_exit 1 [Warn ''Not enough storage space'']"
  by (cases ev) (auto simp: on_exit_def on_put_error_def on_response_def)

lemma settle_exit:
  "settle k fn evs = Process_exit code logged \<Longrightarrow> code = 1 \<and> logged = [Warn ''Not enough storage space'']"
  by (induction evs) (auto split: reaction.splits dest: react_exit)

lemma settle_append: "settle k fn pre = Ignore \<Longrightarrow> settle k fn (pre @ evs) = settle k fn evs"
  by (induction pre) (auto split: reaction.splits)

lemma settle_settled: "settle k fn pre \<noteq> Ignore \<Longrightarrow> settle k fn (pre @ evs) = settle k fn pre"
  by (induction pre) (auto split: reaction.splits)

lemma leftover_append: "settle k fn pre = Ignore \<Longrightarrow> leftover k fn (pre @ evs) = leftover k fn evs"
  by (induction pre) (auto split: reaction.splits)

lemma leftover_settled: "settle k fn pre \<noteq> Ignore \<Longrightarrow> leftover k fn (pre @ evs) = leftover k fn pre @ evs"
  by (induction pre) (auto split: reaction.splits)

lemma leftover_subset: "set (leftover k fn evs) \<subseteq> set evs"
  by (induction evs) (auto split: reaction.splits)

lemma settle_exits: "settle k fn evs = Process_exit code logged \<Longrightarrow> list_ex exits evs"
  by (induction evs) (auto split: reaction.splits simp: react_exits [of _ k fn] dest: react_exit)

lemma settle_Ignore: "settle k fn evs = Ignore \<Longrightarrow> \<not> list_ex exits evs"
  by (induction evs) (auto split: reaction.splits simp: react_exits [of _ k fn])

text \<open>The two ways a wait ends.\<close>

lemma wait_calm: "\<not> list_ex exits (late st) \<Longrightarrow> wait st = (Return (), st\<lparr>late := []\<rparr>)"
  by (simp add: wait_def)

lemma wait_exit:
  "list_ex exits (late st) \<Longrightarrow> wait st = (Exit 1, after (world st) [Warn ''Not enough storage space''] st)"
  by (simp add: wait_def)

text \<open>What one attempt adds to the trace.\<close>

lemma backupFn_cases:
  obtains (resolved) u where "fst (backupFn env opts k st) = Return ()"
      "trace (snd (backupFn env opts k st)) = trace st @ [Spawn k, Log (''Uploading: '' @ u), Put u]"
  | (rejected) u err where "fst (backupFn env opts k st) = Throw err"
      "trace (snd (backupFn env opts k st)) = trace st @ [Spawn k, Log (''Uploading: '' @ u), Put u]"
  | (exited) u msg where "fst (backupFn env opts k st) = Exit 1"
      "trace (snd (backupFn env opts k st)) = trace st @ [Spawn k, Log (''Uploading: '' @ u), Put u, Warn msg]"
proof -
  obtain m w1 where n: "now env (world st) = (m, w1)" by (cases "now env (world st)")
  obtain evs w2 where e: "stream_events env k (putUrl_of opts (backupFilename_of k opts m)) w1 = (evs, w2)"
    by (cases "stream_events env k (putUrl_of opts (backupFilename_of k opts m)) w1")
  let ?u = "putUrl_of opts (backupFilename_of k opts m)"
  show ?thesis
  proof (cases "list_ex exits (late st)")
    case True
    then show ?thesis using n e
      by (intro exited [where u = ?u and msg = "''Not enough storage space''"])
         (simp_all add: backupFn_def wait_def Let_def)
  next
    case False
    show ?thesis
    proof (cases "settle k (backupFilename_of k opts m) evs")
      case Ignore
      then show ?thesis using n e False
        by (intro exited [where u = ?u and msg = "''Timeout''"]) (simp_all add: backupFn_def wait_def Let_def)
    next
      case Resolve
      then show ?thesis using n e False
        by (intro resolved [where u = ?u]) (simp_all add: backupFn_def wait_def Let_def)
    next
      case (Reject err)
      then show ?thesis using n e False
        by (intro rejected [where u = ?u and err = err]) (simp_all add: backupFn_def wait_def Let_def)
    next
      case (Process_exit code logged)
      then show ?thesis using n e False settle_exit [OF Process_exit]
        by (intro exited [where u = ?u and msg = "''Not enough storage space''"])
           (simp_all add: backupFn_def wait_def Let_def)
    qed
  qed
qed

text \<open>What the cleanup adds: one delete request at most, and no upload.\<close>

lemma cleanup_cases:
  obtains (cleaned) cl where "fst (cleanup env opts err st) = Return ()"
      "trace (snd (cleanup env opts err st)) = trace st @ cl" "puts cl = []"
      "Warn ''Not enough storage space'' \<notin> set cl"
  | (exited) cl where "fst (cleanup env opts err st) = Exit 1"
      "trace (snd (cleanup env opts err st)) = trace st @ cl @ [Warn ''Not enough storage space'']"
      "puts cl = []" "Warn ''Not enough storage space'' \<notin> set cl"
proof (cases "truthy (backupFilename err)")
  case False
  then show ?thesis by (intro cleaned [where cl = "[]"]) (simp_all add: cleanup_def)
next
  case True
  let ?p = "davDir opts @ ''/'' @ interpolate (backupFilename err)"
  obtain r w1 where d: "deleteFile env ?p (world st) = (r, w1)"
    by (cases "deleteFile env ?p (world st)")
  have cw: "puts (cleanup_warnings r) = []" "Warn ''Not enough storage space'' \<notin> set (cleanup_warnings r)"
    by (cases r; simp add: cleanup_warnings_def)+
  show ?thesis
  proof (cases "list_ex exits (late st)")
    case False
    then show ?thesis using True d cw
      by (intro cleaned [where cl = "[Log (''Deleting broken backup: '' @ ?p), DeleteFile ?p] @ cleanup_warnings r"])
         (simp_all add: cleanup_def wait_def Let_def)
  next
    case exit: True
    then show ?thesis using True d
      by (intro exited [where cl = "[Log (''Deleting broken backup: '' @ ?p), DeleteFile ?p]"])
         (simp_all add: cleanup_def wait_def Let_def)
  qed
qed

text \<open>What a whole job adds to the trace.\<close>

lemma backup_added:
  "\<exists>added. trace (snd (backup env opts k rc st)) = trace st @ added \<and>
           job_added opts rc (fst (backup env opts k rc st)) added"
proof (induction env opts k rc st rule: backup.induct)
  case (1 env opts k rc st)
  obtain r st1 where b: "backupFn env opts k st = (r, st1)" by (cases "backupFn env opts k st")
  show ?case
  proof (cases rule: backupFn_cases [of env opts k st])
    case (resolved u)
    then have "backup env opts k rc st = (Return (), st1)" using b by (simp add: backup.simps)
    then show ?thesis using resolved b by (simp add: job_added_def)
  next
    case (exited u msg)
    then have "backup env opts k rc st = (Exit 1, st1)" using b by (simp add: backup.simps)
    then show ?thesis using exited b by (simp add: job_added_def)
  next
    case (rejected u err)
    then have r: "r = Throw err" and t1: "trace st1 = trace st @ [Spawn k, Log (''Uploading: '' @ u), Put u]"
      using b by simp_all
    let ?st1 = "after (world st1) [WarnBackupError err] st1"
    obtain c st2 where c: "cleanup env opts err ?st1 = (c, st2)" by (cases "cleanup env opts err ?st1")
    show ?thesis
    proof (cases rule: cleanup_cases [of env opts err ?st1])
      case (exited cl)
      then have "backup env opts k rc st = (Exit 1, st2)"
        using b r c by (simp add: backup.simps [of env opts k rc st])
      then show ?thesis using exited c t1 by (simp add: job_added_def)
    next
      case (cleaned cl)
      then have c': "c = Return ()" and t2: "trace st2 = trace st1 @ [WarnBackupError err] @ cl"
        using c by simp_all
      show ?thesis
      proof (cases "rc < retries opts")
        case False
        then have "backup env opts k rc st = (Return (), st2)"
          using b r c c' by (simp add: backup.simps [of env opts k rc st])
        then show ?thesis using t1 t2 cleaned(3) by (simp add: job_added_def)
      next
        case True
        let ?st2 = "after (world st2) [Log ''Retrying'', Delay RETRY_DELAY] st2"
        obtain d st3 where d: "wait ?st2 = (d, st3)" by (cases "wait ?st2")
        show ?thesis
        proof (cases "list_ex exits (late st2)")
          case exit: True
          then have "backup env opts k rc st = (Exit 1, after (world ?st2) [Warn ''Not enough storage space''] ?st2)"
            using b r c c' True by (simp add: backup.simps [of env opts k rc st] wait_def)
          then show ?thesis using t1 t2 cleaned(3) by (simp add: job_added_def)
        next
          case False
          then have w: "wait ?st2 = (Return (), ?st2\<lparr>late := []\<rparr>)" by (simp add: wait_def)
          have eq: "backup env opts k rc st = backup env opts k (rc + 1) (?st2\<lparr>late := []\<rparr>)"
            using b r c c' True w by (simp add: backup.simps [of env opts k rc st])
          obtain added' where a: "trace (snd (backup env opts k (rc + 1) (?st2\<lparr>late := []\<rparr>))) =
              trace (?st2\<lparr>late := []\<rparr>) @ added'"
            "job_added opts (rc + 1) (fst (backup env opts k (rc + 1) (?st2\<lparr>late := []\<rparr>))) added'"
            using "1.IH" [OF b [symmetric] r c [symmetric] c' True w [symmetric] refl] by blast
          let ?added = "[Spawn k, Log (''Uploading: '' @ u), Put u, WarnBackupError err] @ cl @
                        [Log ''Retrying'', Delay RETRY_DELAY] @ added'"
          have "trace (snd (backup env opts k rc st)) = trace st @ ?added"
            using eq a(1) t1 t2 by simp
          moreover have "job_added opts rc (fst (backup env opts k rc st)) ?added"
            using a(2) cleaned(3) True by (auto simp: eq job_added_def)
          ultimately show ?thesis by blast
        qed
      qed
    qed
  qed
qed


subsection \<open>Bootstrap and pruning\<close>

lemma housekeeping_append: "housekeeping (xs @ ys) \<longleftrightarrow> housekeeping xs \<and> housekeeping ys"
  by (auto simp: housekeeping_def)

lemma bootstrap_step_added:
  "\<exists>added. trace (snd (bootstrap_step env dir c st)) = trace st @ added \<and> housekeeping added \<and>
           deletes added = []"
  by (auto simp: bootstrap_step_def after_def housekeeping_def split: prod.splits sum.splits)

lemma bootstrap_loop_added:
  "\<exists>added. trace (snd (bootstrap_loop env segs i c st)) = trace st @ added \<and> housekeeping added \<and>
           deletes added = []"
proof (induction env segs i c st rule: bootstrap_loop.induct)
  case (1 env segs i c st)
  obtain r st1 where b: "bootstrap_step env (segmentedDavDir segs i) c st = (r, st1)"
    by (cases "bootstrap_step env (segmentedDavDir segs i) c st")
  obtain a1 where a1: "trace st1 = trace st @ a1" "housekeeping a1" "deletes a1 = []"
    using bootstrap_step_added [of env "segmentedDavDir segs i" c st] b by auto
  show ?case
  proof (cases "\<exists>c1. r = Return c1 \<and> i + 1 \<le> length segs")
    case True
    then obtain c1 where r: "r = Return c1" and le: "i + 1 \<le> length segs" by blast
    have eq: "bootstrap_loop env segs i c st = bootstrap_loop env segs (i + 1) c1 st1"
      using b r le by (simp add: bootstrap_loop.simps [of env segs i c st])
    obtain a2 where "trace (snd (bootstrap_loop env segs (i + 1) c1 st1)) = trace st1 @ a2"
      "housekeeping a2" "deletes a2 = []"
      using "1.IH" [OF b [symmetric] r le] by blast
    then have "trace (snd (bootstrap_loop env segs i c st)) = trace st @ (a1 @ a2) \<and>
               housekeeping (a1 @ a2) \<and> deletes (a1 @ a2) = []"
      using eq a1 by (simp add: housekeeping_append)
    then show ?thesis by blast
  next
    case False
    then have "snd (bootstrap_loop env segs i c st) = st1"
      using b by (cases r) (auto simp: bootstrap_loop.simps [of env segs i c st])
    then show ?thesis using a1 by auto
  qed
qed

lemma prune_loop_added:
  "\<exists>added. trace (snd (prune_loop env nm obs es st)) = trace st @ added \<and> housekeeping added \<and>
           (\<forall>code. fst (prune_loop env nm obs es st) \<noteq> Exit code)"
proof (induction es arbitrary: st)
  case Nil
  then show ?case by (simp add: housekeeping_def)
next
  case (Cons e es)
  show ?case
  proof (cases "obsolete nm obs e")
    case False
    then show ?thesis using Cons.IH [of st] by simp
  next
    case True
    obtain r w1 where d: "deleteFile env (filename e) (world st) = (r, w1)"
      by (cases "deleteFile env (filename e) (world st)")
    let ?a1 = "[Log (''Deleting old backup: '' @ filename e), DeleteFile (filename e)]"
    show ?thesis
    proof (cases r)
      case (Inl err)
      then have "prune_loop env nm obs (e # es) st = (Throw err, after w1 ?a1 st)"
        using True d by simp
      then have "trace (snd (prune_loop env nm obs (e # es) st)) = trace st @ ?a1 \<and> housekeeping ?a1 \<and>
           (\<forall>code. fst (prune_loop env nm obs (e # es) st) \<noteq> Exit code)"
        by (simp add: housekeeping_def)
      then show ?thesis by blast
    next
      case (Inr u)
      then have eq: "prune_loop env nm obs (e # es) st = prune_loop env nm obs es (after w1 ?a1 st)"
        using True d by simp
      obtain a2 where a2: "trace (snd (prune_loop env nm obs es (after w1 ?a1 st))) = trace (after w1 ?a1 st) @ a2"
        "housekeeping a2"
        "\<forall>code. fst (prune_loop env nm obs es (after w1 ?a1 st)) \<noteq> Exit code"
        using Cons.IH [of "after w1 ?a1 st"] by blast
      have "trace (snd (prune_loop env nm obs (e # es) st)) = trace st @ (?a1 @ a2) \<and> housekeeping (?a1 @ a2) \<and>
           (\<forall>code. fst (prune_loop env nm obs (e # es) st) \<noteq> Exit code)"
        using a2 unfolding eq by (simp add: housekeeping_def)
      then show ?thesis by blast
    qed
  qed
qed

lemma bootstrap_step_late: "late (snd (bootstrap_step env dir c st)) = late st"
  by (auto simp: bootstrap_step_def split: prod.splits sum.splits)

lemma bootstrap_loop_late: "late (snd (bootstrap_loop env segs i c st)) = late st"
proof (induction env segs i c st rule: bootstrap_loop.induct)
  case (1 env segs i c st)
  obtain r st1 where b: "bootstrap_step env (segmentedDavDir segs i) c st = (r, st1)"
    by (cases "bootstrap_step env (segmentedDavDir segs i) c st")
  have l: "late st1 = late st"
    using bootstrap_step_late [of env "segmentedDavDir segs i" c st] b by simp
  show ?case
  proof (cases "\<exists>c1. r = Return c1 \<and> i + 1 \<le> length segs")
    case True
    then obtain c1 where r: "r = Return c1" and le: "i + 1 \<le> length segs" by blast
    have "bootstrap_loop env segs i c st = bootstrap_loop env segs (i + 1) c1 st1"
      using b r le by (simp add: bootstrap_loop.simps [of env segs i c st])
    then show ?thesis using "1.IH" [OF b [symmetric] r le] l by simp
  next
    case False
    then have "snd (bootstrap_loop env segs i c st) = st1"
      using b by (cases r) (auto simp: bootstrap_loop.simps [of env segs i c st])
    then show ?thesis using l by simp
  qed
qed

lemma prune_loop_late: "late (snd (prune_loop env nm obs es st)) = late st"
  by (induction es arbitrary: st) (auto split: prod.splits sum.splits)

lemma prune_late: "late (snd (prune env opts c st)) = late st"
  by (auto simp: prune_def prune_loop_late split: option.splits prod.splits)

subsection \<open>Evaluating the concrete runs\<close>

lemmas environments = env0_def env_tar_fails_def env_spawn_fails_once_def env_full_def
  env_late_full_def env_spawn_fails_full_def env_delete_fails_def env_fresh_def error_status_def
  stream_error_def

lemma options0_fields:
  "retries options0 = 1" "davDir options0 = ''/backup''" "name options0 = ''nightly''"
  "daysToKeep options0 = Finite 7" "dirs options0 = Some [''/data'']" "mysqlDb options0 = Some ''shop''"
  "mongoDb options0 = None" "davBaseUrl options0 = ''https://dav.box.com/dav''"
  by (simp_all add: options0_def)

subsection \<open>Retries and cleanup\<close>

text \<open>The cleanup after a failure that carries a filename.\<close>

lemma cleanup_with_filename:
  assumes "backupFilename err = Some fn" and "fn \<noteq> []"
    and "deleteFile env (davDir opts @ ''/'' @ fn) (world st) = (r, w2)"
  shows "cleanup env opts err st =
           (if list_ex exits (late st)
            then (Exit 1,
                  after w2 [Log (''Deleting broken backup: '' @ davDir opts @ ''/'' @ fn),
                            DeleteFile (davDir opts @ ''/'' @ fn),
                            Warn ''Not enough storage space''] st)
            else (Return (),
                  after w2 ([Log (''Deleting broken backup: '' @ davDir opts @ ''/'' @ fn),
                             DeleteFile (davDir opts @ ''/'' @ fn)] @ cleanup_warnings r)
                    (st\<lparr>late := []\<rparr>)))"
  using assms by (simp add: cleanup_def wait_def Let_def after_def)

lemma backup_with_filename:
  assumes "backupFn env opts k st = (Throw err, st1)"
    and "backupFilename err = Some fn" and "fn \<noteq> []"
    and "deleteFile env (davDir opts @ ''/'' @ fn) (world st1) = (r, w2)"
  shows "backup env opts k rc st =
           (if list_ex exits (late st1)
            then (Exit 1,
                  after w2 [WarnBackupError err,
                            Log (''Deleting broken backup: '' @ davDir opts @ ''/'' @ fn),
                            DeleteFile (davDir opts @ ''/'' @ fn),
                            Warn ''Not enough storage space''] st1)
            else if rc < retries opts
            then backup env opts k (rc + 1)
                   (after w2 ([WarnBackupError err,
                               Log (''Deleting broken backup: '' @ davDir opts @ ''/'' @ fn),
                               DeleteFile (davDir opts @ ''/'' @ fn)] @ cleanup_warnings r @
                              [Log ''Retrying'', Delay 10000]) (st1\<lparr>late := []\<rparr>))
            else (Return (),
                  after w2 ([WarnBackupError err,
                             Log (''Deleting broken backup: '' @ davDir opts @ ''/'' @ fn),
                             DeleteFile (davDir opts @ ''/'' @ fn)] @ cleanup_warnings r)
                    (st1\<lparr>late := []\<rparr>)))"
proof -
  have d: "deleteFile env (davDir opts @ ''/'' @ fn) (world (after (world st1) [WarnBackupError err] st1)) = (r, w2)"
    using assms(4) by simp
  show ?thesis
    using assms(1)
    by (simp add: backup.simps [of env opts k rc st] cleanup_with_filename [OF assms(2,3) d]
        wait_def after_after after_late RETRY_DELAY_def)
qed

text \<open>A job begins with an attempt, and what it does next is added after it.\<close>

lemma backup_extends:
  "\<exists>rest. trace (snd (backup env opts k rc st)) = trace (snd (backupFn env opts k st)) @ rest"
proof -
  obtain r st1 where b: "backupFn env opts k st = (r, st1)" by (cases "backupFn env opts k st")
  show ?thesis
  proof (cases r)
    case (Return u)
    then show ?thesis using b by (simp add: backup.simps [of env opts k rc st])
  next
    case (Exit code)
    then show ?thesis using b by (simp add: backup.simps [of env opts k rc st])
  next
    case (Throw err)
    let ?st1 = "after (world st1) [WarnBackupError err] st1"
    obtain c st2 where c: "cleanup env opts err ?st1 = (c, st2)" by (cases "cleanup env opts err ?st1")
    show ?thesis
    proof (cases rule: cleanup_cases [of env opts err ?st1])
      case (exited cl)
      then have "backup env opts k rc st = (Exit 1, st2)"
        using b Throw c by (simp add: backup.simps [of env opts k rc st])
      then show ?thesis using exited c b by simp
    next
      case (cleaned cl)
      then have c': "c = Return ()" and t2: "trace st2 = trace st1 @ [WarnBackupError err] @ cl"
        using c by simp_all
      let ?st2 = "after (world st2) [Log ''Retrying'', Delay RETRY_DELAY] st2"
      show ?thesis
      proof (cases "rc < retries opts")
        case False
        then have "backup env opts k rc st = (Return (), st2)"
          using b Throw c c' by (simp add: backup.simps [of env opts k rc st])
        then show ?thesis using t2 b by simp
      next
        case True
        show ?thesis
        proof (cases "list_ex exits (late st2)")
          case exit: True
          then have "backup env opts k rc st = (Exit 1, after (world ?st2) [Warn ''Not enough storage space''] ?st2)"
            using b Throw c c' True by (simp add: backup.simps [of env opts k rc st] wait_def)
          then show ?thesis using t2 b by simp
        next
          case False
          then have "backup env opts k rc st = backup env opts k (rc + 1) (?st2\<lparr>late := []\<rparr>)"
            using b Throw c c' True by (simp add: backup.simps [of env opts k rc st] wait_def)
          moreover obtain added where
            "trace (snd (backup env opts k (rc + 1) (?st2\<lparr>late := []\<rparr>))) = trace (?st2\<lparr>late := []\<rparr>) @ added"
            using backup_added [of env opts k "rc + 1" "?st2\<lparr>late := []\<rparr>"] by blast
          ultimately show ?thesis using t2 b by simp
        qed
      qed
    qed
  qed
qed

lemma backup_starts:
  "\<exists>u next. trace (snd (backup env opts k rc st)) =
              trace st @ [Spawn k, Log (''Uploading: '' @ u), Put u] @ next"
proof -
  obtain rest where r: "trace (snd (backup env opts k rc st)) = trace (snd (backupFn env opts k st)) @ rest"
    using backup_extends by blast
  show ?thesis
    by (cases rule: backupFn_cases [of env opts k st]) (simp_all add: r)
qed


lemma tar_fails_attempt:
  "\<not> list_ex exits (late st) \<Longrightarrow>
   backupFn env_tar_fails options0 Tar st =
     (Throw \<lparr>message = ''Directory backup failed with code 2'', status = None, statusCode = None,
              backupFilename = Some ''backup-nightly_2024-03-09_00-05-59-007.tgz''\<rparr>,
      (after (world st + 1)
         [Spawn Tar, Log ''Uploading: https://dav.box.com/dav/backup/backup-nightly_2024-03-09_00-05-59-007.tgz'',
          Put ''https://dav.box.com/dav/backup/backup-nightly_2024-03-09_00-05-59-007.tgz''] st)
      \<lparr>late := [PutResponse 201 ''Created'']\<rparr>)"
  by (simp add: backupFn_def wait_def environments inputs formatting putUrl_of_def Let_def on_exit_def after_def)



text \<open>The job after a failure that carries no filename.\<close>

lemma backup_without_filename:
  assumes "backupFn env opts k st = (Throw err, st1)" and "\<not> truthy (backupFilename err)"
  shows "backup env opts k rc st =
           (if rc < retries opts
            then if list_ex exits (late st1)
                 then (Exit 1,
                       after (world st1) [WarnBackupError err, Log ''Retrying'', Delay 10000,
                                          Warn ''Not enough storage space''] st1)
                 else backup env opts k (rc + 1)
                        (after (world st1) [WarnBackupError err, Log ''Retrying'', Delay 10000]
                           (st1\<lparr>late := []\<rparr>))
            else (Return (), after (world st1) [WarnBackupError err] st1))"
proof -
  have "cleanup env opts err st' = (Return (), st')" for st'
    using assms(2) by (simp add: cleanup_def)
  then show ?thesis
    using assms(1)
    by (simp add: backup.simps [of env opts k rc st] wait_def after_after after_late RETRY_DELAY_def)
qed

text \<open>
  Claim C10. When an attempt fails with an error that carries no artifact filename, the
  orchestrator deletes nothing: it prints the error and, if the counter is below
  \<open>retries\<close>, waits the same 10 seconds and retries with the counter incremented; else it
  gives up. The attempt counts against the same budget of \<open>retries + 1\<close> attempts. (If a
  507 of the failed attempt's stream is still to come, it ends the process during the
  delay.)
\<close>

theorem failure_without_filename:
  assumes "backupFn env opts k st = (Throw err, st1)" and "\<not> truthy (backupFilename err)"
  shows "backup env opts k rc st =
           (if rc < retries opts
            then if list_ex exits (late st1)
                 then (Exit 1,
                       after (world st1) [WarnBackupError err, Log ''Retrying'', Delay 10000,
                                          Warn ''Not enough storage space''] st1)
                 else backup env opts k (rc + 1)
                        (after (world st1) [WarnBackupError err, Log ''Retrying'', Delay 10000]
                           (st1\<lparr>late := []\<rparr>))
            else (Return (), after (world st1) [WarnBackupError err] st1)) \<and>
         (\<exists>added. trace (snd (backup env opts k rc st)) = trace st @ added \<and>
                  length (puts added) \<le> retries opts - rc + 1)"
proof -
  have "\<exists>added. trace (snd (backup env opts k rc st)) = trace st @ added \<and>
                  length (puts added) \<le> retries opts - rc + 1"
    using backup_added [of env opts k rc st] by (auto simp: job_added_def)
  then show ?thesis
    using backup_without_filename [OF assms, of rc] by blast
qed

lemma spawn_fails_attempt:
  "\<not> list_ex exits (late st) \<Longrightarrow>
   backupFn env_spawn_fails_once options0 Tar st =
     (if world st = 0
      then (Throw \<lparr>message = ''spawn ENOENT'', status = None, statusCode = None, backupFilename = None\<rparr>,
            (after 1
              [Spawn Tar, Log ''Uploading: https://dav.box.com/dav/backup/backup-nightly_2024-03-09_00-05-59-007.tgz'',
               Put ''https://dav.box.com/dav/backup/backup-nightly_2024-03-09_00-05-59-007.tgz''] st)
            \<lparr>late := []\<rparr>)
      else (Return (),
            (after (world st + 1)
              [Spawn Tar, Log ''Uploading: https://dav.box.com/dav/backup/backup-nightly_2024-03-09_00-05-59-007.tgz'',
               Put ''https://dav.box.com/dav/backup/backup-nightly_2024-03-09_00-05-59-007.tgz''] st)
            \<lparr>late := []\<rparr>))"
  by (simp add: backupFn_def wait_def environments inputs formatting putUrl_of_def Let_def on_exit_def
      on_response_def after_def)

theorem failure_without_filename_witness:
  "backupFn env_spawn_fails_once options0 Tar \<lparr>world = 0, trace = [], late = []\<rparr> =
     (Throw \<lparr>message = ''spawn ENOENT'', status = None, statusCode = None, backupFilename = None\<rparr>,
      \<lparr>world = 1,
       trace = [Spawn Tar, Log ''Uploading: https://dav.box.com/dav/backup/backup-nightly_2024-03-09_00-05-59-007.tgz'',
               Put ''https://dav.box.com/dav/backup/backup-nightly_2024-03-09_00-05-59-007.tgz''],
       late = []\<rparr>) \<and>
   \<not> truthy (backupFilename \<lparr>message = ''spawn ENOENT'', status = None, statusCode = None, backupFilename = None\<rparr>) \<and>
   backup env_spawn_fails_once options0 Tar 0 \<lparr>world = 0, trace = [], late = []\<rparr> =
     (Return (),
      \<lparr>world = 2,
       trace = [Spawn Tar, Log ''Uploading: https://dav.box.com/dav/backup/backup-nightly_2024-03-09_00-05-59-007.tgz'',
               Put ''https://dav.box.com/dav/backup/backup-nightly_2024-03-09_00-05-59-007.tgz'',
               WarnBackupError \<lparr>message = ''spawn ENOENT'', status = None, statusCode = None, backupFilename = None\<rparr>,
               Log ''Retrying'', Delay 10000,
               Spawn Tar, Log ''Uploading: https://dav.box.com/dav/backup/backup-nightly_2024-03-09_00-05-59-007.tgz'',
               Put ''https://dav.box.com/dav/backup/backup-nightly_2024-03-09_00-05-59-007.tgz''],
       late = []\<rparr>)"
proof -
  let ?err = "\<lparr>message = ''spawn ENOENT'', status = None, statusCode = None, backupFilename = None\<rparr>"
  let ?st1 = "\<lparr>world = 1::nat,
       trace = [Spawn Tar, Log ''Uploading: https://dav.box.com/dav/backup/backup-nightly_2024-03-09_00-05-59-007.tgz'',
               Put ''https://dav.box.com/dav/backup/backup-nightly_2024-03-09_00-05-59-007.tgz''],
       late = []\<rparr>"
  have a: "backupFn env_spawn_fails_once options0 Tar \<lparr>world = 0, trace = [], late = []\<rparr> = (Throw ?err, ?st1)"
    by (simp add: spawn_fails_attempt after_def)
  have b: "\<not> truthy (backupFilename ?err)"
    by simp
  have "backup env_spawn_fails_once options0 Tar 0 \<lparr>world = 0, trace = [], late = []\<rparr> =
        backup env_spawn_fails_once options0 Tar 1
          (after (world ?st1) [WarnBackupError ?err, Log ''Retrying'', Delay 10000] (?st1\<lparr>late := []\<rparr>))"
    using failure_without_filename [OF a b, of 0] by (simp add: options0_fields)
  also have "\<dots> = (Return (),
      \<lparr>world = 2,
       trace = [Spawn Tar, Log ''Uploading: https://dav.box.com/dav/backup/backup-nightly_2024-03-09_00-05-59-007.tgz'',
               Put ''https://dav.box.com/dav/backup/backup-nightly_2024-03-09_00-05-59-007.tgz'',
               WarnBackupError ?err, Log ''Retrying'', Delay 10000,
               Spawn Tar, Log ''Uploading: https://dav.box.com/dav/backup/backup-nightly_2024-03-09_00-05-59-007.tgz'',
               Put ''https://dav.box.com/dav/backup/backup-nightly_2024-03-09_00-05-59-007.tgz''],
       late = []\<rparr>)"
    by (simp add: backup.simps spawn_fails_attempt after_def)
  finally show ?thesis using a b by blast
qed

text \<open>
  Claim C9. After a failed attempt that carries a filename the orchestrator requests one
  delete of the broken file. Whatever that request returns, the job goes on in the same
  way: a success and a 404 add nothing to the trace, a 401 adds only the warning
  \<^verbatim>\<open>Wrong credentials\<close>, any other error only a warning with the error; the job
  neither throws nor ends the process because of it, and whether it retries depends on
  the counter and \<open>retries\<close> alone. (If a 507 of the failed attempt's stream is still to
  come, it ends the process while the delete is awaited, whatever the delete returns.)
\<close>

theorem cleanup_outcome_is_ignored:
  assumes "backupFn env opts k st = (Throw err, st1)"
    and "backupFilename err = Some fn" and "fn \<noteq> []"
    and "deleteFile env (davDir opts @ ''/'' @ fn) (world st1) = (r, w2)"
  shows "backup env opts k rc st =
           (if list_ex exits (late st1)
            then (Exit 1,
                  after w2 [WarnBackupError err,
                            Log (''Deleting broken backup: '' @ davDir opts @ ''/'' @ fn),
                            DeleteFile (davDir opts @ ''/'' @ fn),
                            Warn ''Not enough storage space''] st1)
            else if rc < retries opts
            then backup env opts k (rc + 1)
                   (after w2 ([WarnBackupError err,
                               Log (''Deleting broken backup: '' @ davDir opts @ ''/'' @ fn),
                               DeleteFile (davDir opts @ ''/'' @ fn)] @ cleanup_warnings r @
                              [Log ''Retrying'', Delay 10000]) (st1\<lparr>late := []\<rparr>))
            else (Return (),
                  after w2 ([WarnBackupError err,
                             Log (''Deleting broken backup: '' @ davDir opts @ ''/'' @ fn),
                             DeleteFile (davDir opts @ ''/'' @ fn)] @ cleanup_warnings r)
                    (st1\<lparr>late := []\<rparr>))) \<and>
         cleanup_warnings r =
           (case r of
              Inr u \<Rightarrow> []
            | Inl e \<Rightarrow>
                if status e = Some 404 then []
                else if status e = Some 401 then [Warn ''Wrong credentials'']
                else [WarnCleanupError e])"
proof -
  have "cleanup_warnings r =
           (case r of
              Inr u \<Rightarrow> []
            | Inl e \<Rightarrow>
                if status e = Some 404 then []
                else if status e = Some 401 then [Warn ''Wrong credentials'']
                else [WarnCleanupError e])"
    by (cases r) (simp_all add: cleanup_warnings_def)
  then show ?thesis
    using backup_with_filename [OF assms, of rc] by blast
qed

lemma delete_fails_attempt:
  "\<not> list_ex exits (late st) \<Longrightarrow>
   backupFn (env_delete_fails code) options0 Tar st =
     (Throw \<lparr>message = ''Directory backup failed with code 2'', status = None, statusCode = None,
              backupFilename = Some ''backup-nightly_2024-03-09_00-05-59-007.tgz''\<rparr>,
      (after (world st + 1)
        [Spawn Tar, Log ''Uploading: https://dav.box.com/dav/backup/backup-nightly_2024-03-09_00-05-59-007.tgz'',
         Put ''https://dav.box.com/dav/backup/backup-nightly_2024-03-09_00-05-59-007.tgz''] st)
      \<lparr>late := [PutResponse 201 ''Created'']\<rparr>)"
  by (simp add: backupFn_def wait_def environments inputs formatting putUrl_of_def Let_def on_exit_def after_def)

theorem cleanup_outcome_is_ignored_witness:
  "backup (env_delete_fails 401) options0 Tar 1 \<lparr>world = 0, trace = [], late = []\<rparr> =
     (Return (),
      \<lparr>world = 1,
       trace =
         [Spawn Tar, Log ''Uploading: https://dav.box.com/dav/backup/backup-nightly_2024-03-09_00-05-59-007.tgz'',
          Put ''https://dav.box.com/dav/backup/backup-nightly_2024-03-09_00-05-59-007.tgz'',
          WarnBackupError \<lparr>message = ''Directory backup failed with code 2'', status = None, statusCode = None,
              backupFilename = Some ''backup-nightly_2024-03-09_00-05-59-007.tgz''\<rparr>,
          Log ''Deleting broken backup: /backup/backup-nightly_2024-03-09_00-05-59-007.tgz'',
          DeleteFile ''/backup/backup-nightly_2024-03-09_00-05-59-007.tgz'',
          Warn ''Wrong credentials''],
       late = []\<rparr>)"
proof -
  let ?err = "\<lparr>message = ''Directory backup failed with code 2'', status = None, statusCode = None,
              backupFilename = Some ''backup-nightly_2024-03-09_00-05-59-007.tgz''\<rparr>"
  let ?st1 = "(after 1
        [Spawn Tar, Log ''Uploading: https://dav.box.com/dav/backup/backup-nightly_2024-03-09_00-05-59-007.tgz'',
         Put ''https://dav.box.com/dav/backup/backup-nightly_2024-03-09_00-05-59-007.tgz'']
        \<lparr>world = 0, trace = [], late = []\<rparr>)\<lparr>late := [PutResponse 201 ''Created'']\<rparr>"
  have a: "backupFn (env_delete_fails 401) options0 Tar \<lparr>world = 0, trace = [], late = []\<rparr> = (Throw ?err, ?st1)"
    by (simp add: delete_fails_attempt)
  have b: "backupFilename ?err = Some ''backup-nightly_2024-03-09_00-05-59-007.tgz''"
    and c: "''backup-nightly_2024-03-09_00-05-59-007.tgz'' \<noteq> []"
    by simp_all
  have d: "deleteFile (env_delete_fails 401)
             (davDir options0 @ ''/'' @ ''backup-nightly_2024-03-09_00-05-59-007.tgz'') (world ?st1) =
           (Inl (error_status 401), 1)"
    by (simp add: env_delete_fails_def after_def)
  have "status (error_status 401) = Some 401"
    by (simp add: error_status_def)
  then show ?thesis
    using cleanup_outcome_is_ignored [OF a b c d, of 1]
    by (simp add: options0_fields after_def)
qed

subsection \<open>The acknowledgment of an upload\<close>

lemma react_Resolve: "react k fn ev = Resolve \<Longrightarrow> \<exists>msg. ev = PutResponse 201 msg"
  by (cases ev) (auto simp: on_exit_def on_put_error_def on_response_def split: if_splits)

lemma settle_Resolve:
  "settle k fn evs = Resolve \<Longrightarrow> \<exists>pre msg post. evs = pre @ PutResponse 201 msg # post \<and> settle k fn pre = Ignore"
proof (induction evs)
  case Nil
  then show ?case by simp
next
  case (Cons ev evs)
  show ?case
  proof (cases "react k fn ev = Ignore")
    case True
    then have "settle k fn evs = Resolve" using Cons.prems by simp
    then obtain pre msg post where "evs = pre @ PutResponse 201 msg # post" "settle k fn pre = Ignore"
      using Cons.IH by blast
    then have "ev # evs = (ev # pre) @ PutResponse 201 msg # post \<and> settle k fn (ev # pre) = Ignore"
      using True by simp
    then show ?thesis by blast
  next
    case False
    then have "react k fn ev = Resolve" using Cons.prems by (simp split: reaction.splits)
    then obtain msg where "ev = PutResponse 201 msg" using react_Resolve by blast
    then have "ev # evs = [] @ PutResponse 201 msg # evs \<and> settle k fn [] = Ignore" by simp
    then show ?thesis by blast
  qed
qed

text \<open>
  Claim C3, as the code has it. An attempt succeeds exactly when a response with status
  201 arrives while its promise is still pending, that is, before a producer failure, a
  spawn error or a stream error has rejected it. A response with any other status that
  arrives while the promise is pending rejects the attempt with an error that carries the
  generated filename. A stream error that arrives while the promise is pending rejects
  the attempt with that error as it is (unless its status is 507): no filename is
  attached to it. The generator's wait for an attempt returns exactly when the promise of
  the attempt resolves and no late 507 of an earlier attempt ends the process meanwhile.
\<close>

theorem upload_acknowledgment:
  "(settle k fn evs = Resolve \<longleftrightarrow>
      (\<exists>pre msg post. evs = pre @ PutResponse 201 msg # post \<and> settle k fn pre = Ignore)) \<and>
   (settle k fn pre = Ignore \<and> sc \<noteq> 201 \<longrightarrow>
      settle k fn (pre @ PutResponse sc msg # post) =
        Reject \<lparr>message = backup_words k @ '' upload failed with '' @ show_int sc @ '' '' @ msg,
                status = None, statusCode = None, backupFilename = Some fn\<rparr>) \<and>
   (settle k fn pre = Ignore \<and> statusCode err \<noteq> Some 507 \<longrightarrow>
      settle k fn (pre @ PutError err # post) = Reject err) \<and>
   (now env (world st) = (m, w1) \<and>
    stream_events env k (putUrl_of opts (backupFilename_of k opts m)) w1 = (evs', w2) \<longrightarrow>
      (fst (backupFn env opts k st) = Return () \<longleftrightarrow>
       \<not> list_ex exits (late st) \<and> settle k (backupFilename_of k opts m) evs' = Resolve))"
proof -
  have a: "settle k fn evs = Resolve \<longleftrightarrow>
      (\<exists>pre msg post. evs = pre @ PutResponse 201 msg # post \<and> settle k fn pre = Ignore)"
    using settle_Resolve [of k fn evs] by (auto simp: settle_append on_response_def)
  have b: "settle k fn (pre @ PutResponse sc msg # post) =
        Reject \<lparr>message = backup_words k @ '' upload failed with '' @ show_int sc @ '' '' @ msg,
                status = None, statusCode = None, backupFilename = Some fn\<rparr>"
    if "settle k fn pre = Ignore" and "sc \<noteq> 201"
    using that by (simp add: settle_append on_response_def)
  have c: "settle k fn (pre @ PutError err # post) = Reject err"
    if "settle k fn pre = Ignore" and "statusCode err \<noteq> Some 507"
    using that by (simp add: settle_append on_put_error_def)
  have d: "fst (backupFn env opts k st) = Return () \<longleftrightarrow>
       \<not> list_ex exits (late st) \<and> settle k (backupFilename_of k opts m) evs' = Resolve"
    if "now env (world st) = (m, w1)"
      and "stream_events env k (putUrl_of opts (backupFilename_of k opts m)) w1 = (evs', w2)"
    using that by (simp add: backupFn_def wait_def Let_def split: reaction.splits)
  show ?thesis using a b c d by blast
qed

theorem upload_acknowledgment_witness:
  "settle Mysql ''f.sql.gz'' [ProcessExit (Some 0), PutResponse 201 ''Created''] = Resolve \<and>
   settle Mysql ''f.sql.gz'' [ProcessExit (Some 0), PutResponse 204 ''No Content''] =
     Reject \<lparr>message = ''Database backup upload failed with 204 No Content'',
             status = None, statusCode = None, backupFilename = Some ''f.sql.gz''\<rparr> \<and>
   settle Mysql ''f.sql.gz'' [ProcessExit (Some 0), PutError (stream_error (Some 500))] =
     Reject (stream_error (Some 500)) \<and>
   backupFilename (stream_error (Some 500)) = None \<and>
   (fst (backupFn env0 options0 Mysql \<lparr>world = 0, trace = [], late = []\<rparr>) = Return () \<longleftrightarrow>
    \<not> list_ex exits (late \<lparr>world = 0::nat, trace = [], late = []\<rparr>) \<and>
    settle Mysql (backupFilename_of Mysql options0 moment0)
      [ProcessExit (Some 0), PutResponse 201 ''Created''] = Resolve)"
proof -
  let ?pre = "[ProcessExit (Some 0)]"
  have p: "settle Mysql ''f.sql.gz'' ?pre = Ignore"
    by (simp add: on_exit_def)
  have ne: "(204::int) \<noteq> 201" "statusCode (stream_error (Some 500)) \<noteq> Some 507"
    by (simp_all add: stream_error_def)
  have n: "now env0 (world \<lparr>world = 0::nat, trace = [], late = []\<rparr>) = (moment0, 0) \<and>
           stream_events env0 Mysql (putUrl_of options0 (backupFilename_of Mysql options0 moment0)) 0 =
             ([ProcessExit (Some 0), PutResponse 201 ''Created''], 1)"
    by (simp add: env0_def)
  note ack = upload_acknowledgment
    [of Mysql "''f.sql.gz''" "?pre @ PutResponse 201 ''Created'' # []" ?pre 204 "''No Content''" "[]"
        "stream_error (Some 500)" env0 "\<lparr>world = 0, trace = [], late = []\<rparr>" moment0 0 options0
        "[ProcessExit (Some 0), PutResponse 201 ''Created'']" 1]
  have 1: "settle Mysql ''f.sql.gz'' (?pre @ PutResponse 201 ''Created'' # []) = Resolve"
    using ack p by blast
  have 2: "settle Mysql ''f.sql.gz'' (?pre @ PutResponse 204 ''No Content'' # []) =
        Reject \<lparr>message = backup_words Mysql @ '' upload failed with '' @ show_int 204 @ '' '' @ ''No Content'',
                status = None, statusCode = None, backupFilename = Some ''f.sql.gz''\<rparr>"
    using ack p ne(1) by blast
  have 3: "settle Mysql ''f.sql.gz'' (?pre @ PutError (stream_error (Some 500)) # []) =
        Reject (stream_error (Some 500))"
    using ack p ne(2) by blast
  have 4: "fst (backupFn env0 options0 Mysql \<lparr>world = 0, trace = [], late = []\<rparr>) = Return () \<longleftrightarrow>
       \<not> list_ex exits (late \<lparr>world = 0::nat, trace = [], late = []\<rparr>) \<and>
       settle Mysql (backupFilename_of Mysql options0 moment0)
         [ProcessExit (Some 0), PutResponse 201 ''Created''] = Resolve"
    using ack n by blast
  have s: "backup_words Mysql @ '' upload failed with '' @ show_int 204 @ '' '' @ ''No Content'' =
           ''Database backup upload failed with 204 No Content''"
    by (simp add: formatting)
  have 5: "backupFilename (stream_error (Some 500)) = None"
    by (simp add: stream_error_def)
  show ?thesis
    using 1 2 3 4 5 unfolding s by simp
qed

text \<open>
  Claim C3 as stated fails: the archiver exits with code 2, which rejects the attempt with
  the filename attached, and the status 201 that the store then sends for the upload does
  not make the job succeed.
\<close>

theorem upload_acknowledgment_counterexample:
  "fst (stream_events env_tar_fails Tar
          ''https://dav.box.com/dav/backup/backup-nightly_2024-03-09_00-05-59-007.tgz'' 0) =
     [ProcessExit (Some 2), PutResponse 201 ''Created''] \<and>
   fst (backupFn env_tar_fails options0 Tar \<lparr>world = 0, trace = [], late = []\<rparr>) =
     Throw \<lparr>message = ''Directory backup failed with code 2'', status = None, statusCode = None,
            backupFilename = Some ''backup-nightly_2024-03-09_00-05-59-007.tgz''\<rparr>"
proof -
  have "fst (stream_events env_tar_fails Tar
          ''https://dav.box.com/dav/backup/backup-nightly_2024-03-09_00-05-59-007.tgz'' 0) =
     [ProcessExit (Some 2), PutResponse 201 ''Created'']"
    by (simp add: env_tar_fails_def)
  then show ?thesis by (simp add: tar_fails_attempt)
qed

section \<open>The whole run\<close>

subsection \<open>A full remote store\<close>

lemma tracked_calm: "storage_full \<notin> set added \<Longrightarrow> tracked r added"
  by (simp add: tracked_def)

lemma tracked_prepend:
  assumes "storage_full \<notin> set a1" and "tracked r a2"
  shows "tracked r (a1 @ a2)"
proof (cases "storage_full \<in> set a2")
  case False
  then show ?thesis using assms(1) by (simp add: tracked_def)
next
  case True
  then obtain pre where "r = Exit 1" "a2 = pre @ [storage_full]" "storage_full \<notin> set pre"
    using assms(2) by (auto simp: tracked_def)
  then have "a1 @ a2 = (a1 @ pre) @ [storage_full] \<and> storage_full \<notin> set (a1 @ pre)"
    using assms(1) by simp
  then show ?thesis using \<open>r = Exit 1\<close> unfolding tracked_def by blast
qed

lemma tracked_not_exit: "tracked r added \<Longrightarrow> r \<noteq> Exit 1 \<Longrightarrow> storage_full \<notin> set added"
  by (auto simp: tracked_def)

lemma backupFn_tracked:
  "\<exists>added. trace (snd (backupFn env opts k st)) = trace st @ added \<and>
           tracked (fst (backupFn env opts k st)) added"
proof (cases rule: backupFn_cases [of env opts k st])
  case (resolved u)
  then show ?thesis by (auto simp: tracked_def storage_full_def)
next
  case (rejected u err)
  then show ?thesis by (auto simp: tracked_def storage_full_def)
next
  case (exited u msg)
  have "tracked (Exit 1 :: unit result) ([Spawn k, Log (''Uploading: '' @ u), Put u] @ [Warn msg])"
    by (cases "Warn msg = storage_full") (auto simp: tracked_def storage_full_def)
  then show ?thesis using exited by auto
qed

lemma wait_tracked:
  "\<exists>added. trace (snd (wait st)) = trace st @ added \<and> tracked (fst (wait st)) added"
proof (cases "list_ex exits (late st)")
  case True
  have "tracked (Exit 1 :: unit result) ([] @ [storage_full])"
    unfolding tracked_def by simp
  then show ?thesis using True by (simp add: wait_def storage_full_def)
next
  case False
  then show ?thesis by (simp add: wait_def tracked_def)
qed

lemma cleanup_tracked:
  "\<exists>cl. trace (snd (cleanup env opts err st)) = trace st @ cl \<and> tracked (fst (cleanup env opts err st)) cl"
proof (cases rule: cleanup_cases [of env opts err st])
  case (cleaned cl)
  then show ?thesis by (auto simp: tracked_def storage_full_def)
next
  case (exited cl)
  then have "tracked (fst (cleanup env opts err st)) (cl @ [storage_full])"
    unfolding tracked_def storage_full_def by auto
  then show ?thesis using exited(2) by (auto simp: storage_full_def)
qed

lemma and_then_tracked:
  fixes p :: "'a result \<times> 'w state" and f :: "'a \<Rightarrow> 'w state \<Rightarrow> 'b result \<times> 'w state"
  assumes "\<exists>a1. trace (snd p) = trace st @ a1 \<and> tracked (fst p) a1"
    and "\<And>x st1. \<exists>a2. trace (snd (f x st1)) = trace st1 @ a2 \<and> tracked (fst (f x st1)) a2"
  shows "\<exists>a. trace (snd (and_then p f)) = trace st @ a \<and> tracked (fst (and_then p f)) a"
proof -
  obtain r st1 where p: "p = (r, st1)" by (cases p)
  obtain a1 where a1: "trace st1 = trace st @ a1" "tracked r a1" using assms(1) p by auto
  show ?thesis
  proof (cases r)
    case (Return x)
    then have c: "storage_full \<notin> set a1" using a1(2) by (auto simp: tracked_def)
    obtain a2 where a2: "trace (snd (f x st1)) = trace st1 @ a2" "tracked (fst (f x st1)) a2"
      using assms(2) by blast
    have "and_then p f = f x st1" using p Return by (simp add: and_then_def)
    then have "trace (snd (and_then p f)) = trace st @ (a1 @ a2) \<and> tracked (fst (and_then p f)) (a1 @ a2)"
      using a1(1) a2 tracked_prepend [OF c a2(2)] by simp
    then show ?thesis by blast
  next
    case (Throw err)
    then have "and_then p f = (Throw err, st1)" using p by (simp add: and_then_def)
    moreover have "tracked (Throw err :: 'b result) a1"
      using a1(2) Throw by (auto simp: tracked_def)
    ultimately show ?thesis using a1(1) by auto
  next
    case (Exit code)
    then have "and_then p f = (Exit code, st1)" using p by (simp add: and_then_def)
    moreover have "tracked (Exit code :: 'b result) a1"
      using a1(2) Exit by (auto simp: tracked_def)
    ultimately show ?thesis using a1(1) by auto
  qed
qed

text \<open>The generator \<open>backup\<close> as a sequence of its three waits.\<close>

lemma backup_rejected:
  assumes "backupFn env opts k st = (Throw err, st1)"
  shows "backup env opts k rc st =
           and_then (cleanup env opts err (after (world st1) [WarnBackupError err] st1)) (\<lambda>u st2.
             if rc < retries opts
             then and_then (wait (after (world st2) [Log ''Retrying'', Delay RETRY_DELAY] st2))
                    (\<lambda>u st3. backup env opts k (rc + 1) st3)
             else (Return (), st2))"
  using assms
  by (simp add: backup.simps [of env opts k rc st] and_then_def split: prod.splits result.splits)

lemma backup_tracked_step:
  assumes "\<And>st'. rc < retries opts \<Longrightarrow>
             \<exists>added. trace (snd (backup env opts k (rc + 1) st')) = trace st' @ added \<and>
                     tracked (fst (backup env opts k (rc + 1) st')) added"
  shows "\<exists>added. trace (snd (backup env opts k rc st)) = trace st @ added \<and>
           tracked (fst (backup env opts k rc st)) added"
proof -
  obtain r st1 where b: "backupFn env opts k st = (r, st1)" by (cases "backupFn env opts k st")
  obtain a1 where a1: "trace st1 = trace st @ a1" "tracked r a1"
    using backupFn_tracked [of env opts k st] b by auto
  show ?thesis
  proof (cases r)
    case (Return u)
    then have "backup env opts k rc st = (Return (), st1)" using b by (simp add: backup.simps)
    then show ?thesis using a1 Return by (auto simp: tracked_def)
  next
    case (Exit code)
    then have "backup env opts k rc st = (Exit code, st1)" using b by (simp add: backup.simps)
    then show ?thesis using a1 Exit by auto
  next
    case (Throw err)
    let ?st1 = "after (world st1) [WarnBackupError err] st1"
    let ?f = "\<lambda>u st2. if rc < retries opts
             then and_then (wait (after (world st2) [Log ''Retrying'', Delay RETRY_DELAY] st2))
                    (\<lambda>u st3. backup env opts k (rc + 1) st3)
             else (Return (), st2)"
    have eq: "backup env opts k rc st = and_then (cleanup env opts err ?st1) ?f"
      using b Throw by (simp add: backup_rejected)
    have f: "\<exists>a2. trace (snd (?f x st2)) = trace st2 @ a2 \<and> tracked (fst (?f x st2)) a2" for x st2
    proof (cases "rc < retries opts")
      case False
      then show ?thesis by (simp add: tracked_def)
    next
      case True
      let ?st2 = "after (world st2) [Log ''Retrying'', Delay RETRY_DELAY] st2"
      have "\<exists>a. trace (snd (and_then (wait ?st2) (\<lambda>u st3. backup env opts k (rc + 1) st3))) = trace ?st2 @ a \<and>
                tracked (fst (and_then (wait ?st2) (\<lambda>u st3. backup env opts k (rc + 1) st3))) a"
        by (rule and_then_tracked [OF wait_tracked]) (rule assms [OF True])
      then obtain a where a: "trace (snd (?f x st2)) = trace ?st2 @ a" "tracked (fst (?f x st2)) a"
        using True by auto
      have "storage_full \<notin> set [Log ''Retrying'', Delay RETRY_DELAY]"
        by (simp add: storage_full_def)
      then have "tracked (fst (?f x st2)) ([Log ''Retrying'', Delay RETRY_DELAY] @ a)"
        using a(2) by (rule tracked_prepend)
      then show ?thesis using a(1) by auto
    qed
    obtain a2 where a2: "trace (snd (backup env opts k rc st)) = trace ?st1 @ a2"
      "tracked (fst (backup env opts k rc st)) a2"
      using and_then_tracked [of "cleanup env opts err ?st1" ?st1 ?f, OF cleanup_tracked f] eq by auto
    have "storage_full \<notin> set (a1 @ [WarnBackupError err])"
      using a1(2) Throw by (auto simp: tracked_def storage_full_def)
    then have "tracked (fst (backup env opts k rc st)) ((a1 @ [WarnBackupError err]) @ a2)"
      using a2(2) by (rule tracked_prepend)
    then show ?thesis using a2(1) a1(1) by auto
  qed
qed

lemma backup_tracked:
  "\<exists>added. trace (snd (backup env opts k rc st)) = trace st @ added \<and>
           tracked (fst (backup env opts k rc st)) added"
proof (induction "retries opts - rc" arbitrary: rc st)
  case 0
  show ?case by (rule backup_tracked_step) (use 0 in simp)
next
  case (Suc n)
  show ?case
  proof (rule backup_tracked_step)
    fix st'
    show "\<exists>added. trace (snd (backup env opts k (rc + 1) st')) = trace st' @ added \<and>
                     tracked (fst (backup env opts k (rc + 1) st')) added"
      using Suc.hyps(1) [of "rc + 1" st'] Suc.hyps(2) by simp
  qed
qed

lemma tracked_retype:
  assumes "tracked r a" and "\<And>code. r = Exit code \<Longrightarrow> r' = Exit code"
  shows "tracked r' a"
  using assms by (auto simp: tracked_def)

lemma prune_added:
  "\<exists>added. trace (snd (prune env opts c st)) = trace st @ added \<and> housekeeping added \<and>
           (\<forall>code. fst (prune env opts c st) \<noteq> Exit code)"
proof (cases "window (daysToKeep opts)")
  case None
  then show ?thesis by (simp add: prune_def housekeeping_def)
next
  case (Some d)
  obtain m w1 where n: "now env (world st) = (m, w1)" by (cases "now env (world st)")
  show ?thesis
  proof (cases c)
    case None
    then show ?thesis using Some n by (simp add: prune_def housekeeping_def after_def)
  next
    case (Some listing)
    then show ?thesis
      using \<open>window (daysToKeep opts) = Some d\<close> n
        prune_loop_added [of env "name opts" "valueOf m - days_asMilliseconds d" listing "after w1 [] st"]
      by (auto simp: prune_def after_def)
  qed
qed

lemma housekeeping_tracked: "housekeeping added \<Longrightarrow> tracked r added"
  by (simp add: housekeeping_def tracked_def storage_full_def)

lemma stage_tracked:
  "\<exists>a. trace (snd (stage env opts k st)) = trace st @ a \<and> tracked (fst (stage env opts k st)) a"
proof (cases "configured opts k")
  case False
  then show ?thesis by (simp add: stage_def tracked_def)
next
  case True
  have "\<exists>a. trace (snd (and_then (backup env opts k 0 st)
                 (\<lambda>u st1. (Return (), after (world st1) [Log (completed k)] st1)))) = trace st @ a \<and>
            tracked (fst (and_then (backup env opts k 0 st)
                 (\<lambda>u st1. (Return (), after (world st1) [Log (completed k)] st1)))) a"
    by (rule and_then_tracked [OF backup_tracked]) (simp add: after_def tracked_def storage_full_def)
  then show ?thesis using True by (simp add: stage_def)
qed

lemma stages_tracked:
  "\<exists>a. trace (snd (stages env opts st)) = trace st @ a \<and> tracked (fst (stages env opts st)) a"
  unfolding stages_def
  by (intro and_then_tracked stage_tracked)

lemma co_body_tracked:
  "\<exists>a. trace (snd (co_body env opts st)) = trace st @ a \<and> tracked (fst (co_body env opts st)) a"
  unfolding co_body_def
proof (intro and_then_tracked stages_tracked)
  show "\<exists>a1. trace (snd (bootstrap env opts st)) = trace st @ a1 \<and> tracked (fst (bootstrap env opts st)) a1"
    using bootstrap_loop_added [of env "davDirSegments (davDir opts)" 0 None st]
    by (auto simp: bootstrap_def intro: housekeeping_tracked)
  show "\<exists>a2. trace (snd (prune env opts x st1)) = trace st1 @ a2 \<and> tracked (fst (prune env opts x st1)) a2"
    for x st1
    using prune_added [of env opts x st1] by (auto intro: housekeeping_tracked)
qed

lemma run_tracked:
  assumes "storage_full \<in> set (trace (snd (run env opts w)))"
  shows "fst (run env opts w) = 1 \<and>
         (\<exists>pre. trace (snd (run env opts w)) = pre @ [storage_full] \<and> storage_full \<notin> set pre)"
proof (cases "\<not> has_dirs (dirs opts) \<and> \<not> truthy (mysqlDb opts) \<and> \<not> truthy (mongoDb opts)")
  case True
  then show ?thesis using assms by (simp add: run_def storage_full_def)
next
  case False
  obtain r st1 where c: "co_body env opts \<lparr>world = w, trace = [], late = []\<rparr> = (r, st1)"
    by (cases "co_body env opts \<lparr>world = w, trace = [], late = []\<rparr>")
  obtain a where a: "trace st1 = a" "tracked r a"
    using co_body_tracked [of env opts "\<lparr>world = w, trace = [], late = []\<rparr>"] c by auto
  show ?thesis
  proof (cases r)
    case (Return u)
    then show ?thesis using assms False c a by (auto simp: run_def tracked_def)
  next
    case (Throw err)
    then show ?thesis using assms False c a by (auto simp: run_def tracked_def after_def storage_full_def)
  next
    case (Exit code)
    then show ?thesis using assms False c a by (auto simp: run_def tracked_def)
  qed
qed

lemma segments_backup: "davDirSegments ''/backup'' = [''backup'']"
  by (simp add: davDirSegments_def)

lemma bootstrap_env0:
  assumes "getDirectoryContents env = getDirectoryContents env0"
  shows "bootstrap env options0 \<lparr>world = w, trace = [], late = []\<rparr> =
           (Return (Some [old_tgz, notes_txt, recent_tgz, old_sql]),
            \<lparr>world = w, trace = [GetDirectoryContents ''/'', GetDirectoryContents ''/backup''], late = []\<rparr>)"
  by (simp add: bootstrap_def options0_fields segments_backup bootstrap_loop.simps bootstrap_step_def
      segmentedDavDir_def assms env0_def after_def)

lemma obsolete_entries:
  "obsolete ''nightly'' (1709942759007 - days_asMilliseconds 7) old_tgz"
  "\<not> obsolete ''nightly'' (1709942759007 - days_asMilliseconds 7) notes_txt"
  "\<not> obsolete ''nightly'' (1709942759007 - days_asMilliseconds 7) recent_tgz"
  "obsolete ''nightly'' (1709942759007 - days_asMilliseconds 7) old_sql"
  "obsolete ''nightly'' (1709942759007 - days_asMilliseconds 7) root_tgz"
  by (simp_all add: obsolete_def old_tgz_def notes_txt_def recent_tgz_def old_sql_def root_tgz_def
      days_asMilliseconds_def matching)

lemma entry_filenames:
  "filename old_tgz = ''/backup/backup-nightly_2024-01-01_00-00-00-000.tgz''"
  "filename old_sql = ''/backup/backup-nightly_mysql-shop_2024-01-01_00-00-00-000.sql.gz''"
  "filename root_tgz = ''/backup-nightly_2024-01-01_00-00-00-000.tgz''"
  by (simp_all add: old_tgz_def old_sql_def root_tgz_def)

lemma valueOf_moment0: "valueOf moment0 = 1709942759007"
  by (simp add: moment0_def)

lemma prune_env0:
  assumes "deleteFile env = deleteFile env0" and "now env = now env0"
  shows "prune env options0 (Some [old_tgz, notes_txt, recent_tgz, old_sql]) \<lparr>world = w, trace = tr, late = []\<rparr> =
           (Return (),
            \<lparr>world = w,
             trace = tr @
               [Log ''Deleting old backup: /backup/backup-nightly_2024-01-01_00-00-00-000.tgz'',
                DeleteFile ''/backup/backup-nightly_2024-01-01_00-00-00-000.tgz'',
                Log ''Deleting old backup: /backup/backup-nightly_mysql-shop_2024-01-01_00-00-00-000.sql.gz'',
                DeleteFile ''/backup/backup-nightly_mysql-shop_2024-01-01_00-00-00-000.sql.gz''], late = []\<rparr>)"
  by (simp add: prune_def options0_fields assms env0_def valueOf_moment0 obsolete_entries
      entry_filenames after_def)


lemma same_store:
  "getDirectoryContents env_full = getDirectoryContents env0" "deleteFile env_full = deleteFile env0"
  "now env_full = now env0"
  "getDirectoryContents env_tar_fails = getDirectoryContents env0" "deleteFile env_tar_fails = deleteFile env0"
  "now env_tar_fails = now env0"
  "getDirectoryContents (env_delete_fails code) = getDirectoryContents env0"
  "now (env_delete_fails code) = now env0"
  "deleteFile env_late_full = deleteFile env0"
  by (simp_all add: env_full_def env_tar_fails_def env_delete_fails_def env_late_full_def)

lemma configured0: "configured options0 Tar" "configured options0 Mysql" "\<not> configured options0 Mongo"
  by (simp_all add: options0_def)

lemma full_attempt:
  "\<not> list_ex exits (late st) \<Longrightarrow>
   backupFn env_full options0 Tar st =
     (Exit 1,
      (after (world st + 1)
        [Spawn Tar, Log ''Uploading: https://dav.box.com/dav/backup/backup-nightly_2024-03-09_00-05-59-007.tgz'',
         Put ''https://dav.box.com/dav/backup/backup-nightly_2024-03-09_00-05-59-007.tgz'',
         Warn ''Not enough storage space''] st)
      \<lparr>late := []\<rparr>)"
  by (simp add: backupFn_def wait_def environments inputs formatting putUrl_of_def Let_def on_exit_def
      on_put_error_def after_def)

lemma full_run:
  "run env_full options0 0 =
     (1, \<lparr>world = 1,
          trace =
            [GetDirectoryContents ''/'', GetDirectoryContents ''/backup'',
             Log ''Deleting old backup: /backup/backup-nightly_2024-01-01_00-00-00-000.tgz'',
             DeleteFile ''/backup/backup-nightly_2024-01-01_00-00-00-000.tgz'',
             Log ''Deleting old backup: /backup/backup-nightly_mysql-shop_2024-01-01_00-00-00-000.sql.gz'',
             DeleteFile ''/backup/backup-nightly_mysql-shop_2024-01-01_00-00-00-000.sql.gz'',
             Spawn Tar, Log ''Uploading: https://dav.box.com/dav/backup/backup-nightly_2024-03-09_00-05-59-007.tgz'',
             Put ''https://dav.box.com/dav/backup/backup-nightly_2024-03-09_00-05-59-007.tgz'',
             Warn ''Not enough storage space''],
          late = []\<rparr>)"
  by (simp add: run_def co_body_def and_then_def stages_def stage_def configured0 options0_fields
      bootstrap_env0 [OF same_store(1)] prune_env0 [OF same_store(2,3)]
      backup.simps full_attempt after_def)

text \<open>The archiver fails and the store then reports 507: the attempt is rejected, with the 507 late.\<close>

lemma late_full_attempt:
  "\<not> list_ex exits (late st) \<Longrightarrow>
   backupFn env_late_full options0 Tar st =
     (Throw \<lparr>message = ''Directory backup failed with code 2'', status = None, statusCode = None,
              backupFilename = Some ''backup-nightly_2024-03-09_00-05-59-007.tgz''\<rparr>,
      (after (world st + 1)
         [Spawn Tar, Log ''Uploading: https://dav.box.com/dav/backup/backup-nightly_2024-03-09_00-05-59-007.tgz'',
          Put ''https://dav.box.com/dav/backup/backup-nightly_2024-03-09_00-05-59-007.tgz''] st)
      \<lparr>late := [PutError (stream_error (Some 507))]\<rparr>)"
  by (simp add: backupFn_def wait_def env_late_full_def env0_def inputs formatting putUrl_of_def Let_def
      on_exit_def after_def)

text \<open>
  Claim C7. A status 507 that the PUT stream of an attempt reports through its error
  event ends the process with exit code 1 at the moment it is delivered, and the warning
  is the last action of the run. Delivered while the attempt is pending, it ends the
  process before any cleanup delete, delay or further attempt. Delivered after the attempt
  has been rejected (the producer had failed first), it arrives, as late events are taken
  to do, during the next wait of the orchestrator: the request just made, the cleanup
  delete or else the delay, is the last, and nothing follows the warning. When the job
  has nothing left to wait for (the attempt succeeded, or failed without a filename with
  no retry left) it returns with the event still late; an event that is late when a job
  begins ends the process while that job waits for its first attempt. And in every run
  whose trace has the warning, the warning is the last action of the run, it is there
  once, and the exit code is 1.
\<close>

theorem insufficient_storage_is_fatal:
  "(now env (world st) = (m, w1) \<and>
    stream_events env k (putUrl_of opts (backupFilename_of k opts m)) w1 = (pre @ PutError err # post, w2) \<and>
    settle k (backupFilename_of k opts m) pre = Ignore \<and> statusCode err = Some 507 \<longrightarrow>
      fst (backup env opts k rc st) = Exit 1 \<and>
      world (snd (backup env opts k rc st)) = w2 \<and>
      trace (snd (backup env opts k rc st)) =
        trace st @ [Spawn k, Log (''Uploading: '' @ putUrl_of opts (backupFilename_of k opts m)),
                    Put (putUrl_of opts (backupFilename_of k opts m)),
                    Warn ''Not enough storage space'']) \<and>
   (now env (world st) = (m, w1) \<and>
    stream_events env k (putUrl_of opts (backupFilename_of k opts m)) w1 = (pre @ PutError err # post, w2) \<and>
    settle k (backupFilename_of k opts m) pre = Reject e \<and> statusCode err = Some 507 \<and>
    \<not> list_ex exits (late st) \<and> (truthy (backupFilename e) \<or> rc < retries opts) \<longrightarrow>
      fst (backup env opts k rc st) = Exit 1 \<and>
      trace (snd (backup env opts k rc st)) =
        trace st @ [Spawn k, Log (''Uploading: '' @ putUrl_of opts (backupFilename_of k opts m)),
                    Put (putUrl_of opts (backupFilename_of k opts m)),
                    WarnBackupError e] @
        (if truthy (backupFilename e)
         then [Log (''Deleting broken backup: '' @ davDir opts @ ''/'' @ interpolate (backupFilename e)),
               DeleteFile (davDir opts @ ''/'' @ interpolate (backupFilename e))]
         else [Log ''Retrying'', Delay 10000]) @
        [Warn ''Not enough storage space'']) \<and>
   (now env (world st) = (m, w1) \<and>
    stream_events env k (putUrl_of opts (backupFilename_of k opts m)) w1 = (pre @ PutError err # post, w2) \<and>
    statusCode err = Some 507 \<and> \<not> list_ex exits (late st) \<and>
    (settle k (backupFilename_of k opts m) pre = Resolve \<or>
     settle k (backupFilename_of k opts m) pre = Reject e \<and> \<not> truthy (backupFilename e) \<and>
     \<not> rc < retries opts) \<longrightarrow>
      fst (backup env opts k rc st) = Return () \<and>
      list_ex exits (late (snd (backup env opts k rc st)))) \<and>
   (list_ex exits (late st) \<longrightarrow>
      fst (backup env opts k rc st) = Exit 1 \<and>
      (\<exists>u. trace (snd (backup env opts k rc st)) =
             trace st @ [Spawn k, Log (''Uploading: '' @ u), Put u, Warn ''Not enough storage space''])) \<and>
   (Warn ''Not enough storage space'' \<in> set (trace (snd (run env opts w))) \<longrightarrow>
      fst (run env opts w) = 1 \<and>
      (\<exists>before. trace (snd (run env opts w)) = before @ [Warn ''Not enough storage space''] \<and>
                Warn ''Not enough storage space'' \<notin> set before))"
proof -
  let ?fn = "backupFilename_of k opts m"
  let ?u = "putUrl_of opts ?fn"
  let ?started = "[Spawn k, Log (''Uploading: '' @ ?u), Put ?u]"
  have pending: "fst (backup env opts k rc st) = Exit 1 \<and>
      world (snd (backup env opts k rc st)) = w2 \<and>
      trace (snd (backup env opts k rc st)) = trace st @ ?started @ [Warn ''Not enough storage space'']"
    if a: "now env (world st) = (m, w1)"
      and b: "stream_events env k ?u w1 = (pre @ PutError err # post, w2)"
      and c: "settle k ?fn pre = Ignore" and d: "statusCode err = Some 507"
  proof -
    have "settle k ?fn (pre @ PutError err # post) = Process_exit 1 [Warn ''Not enough storage space'']"
      using d by (simp add: settle_append [OF c] on_put_error_def)
    then have "fst (backupFn env opts k st) = Exit 1 \<and> world (snd (backupFn env opts k st)) = w2 \<and>
               trace (snd (backupFn env opts k st)) = trace st @ ?started @ [Warn ''Not enough storage space'']"
      using a b by (simp add: backupFn_def wait_def Let_def)
    then show ?thesis
      by (cases "backupFn env opts k st") (simp add: backup.simps [of env opts k rc st])
  qed
  have settled: "fst (backup env opts k rc st) = Exit 1 \<and>
      trace (snd (backup env opts k rc st)) =
        trace st @ (?started @ [WarnBackupError e]) @
        (if truthy (backupFilename e)
         then [Log (''Deleting broken backup: '' @ davDir opts @ ''/'' @ interpolate (backupFilename e)),
               DeleteFile (davDir opts @ ''/'' @ interpolate (backupFilename e))]
         else [Log ''Retrying'', Delay 10000]) @
        [Warn ''Not enough storage space'']"
    if a: "now env (world st) = (m, w1)"
      and b: "stream_events env k ?u w1 = (pre @ PutError err # post, w2)"
      and c: "settle k ?fn pre = Reject e" and d: "statusCode err = Some 507"
      and l: "\<not> list_ex exits (late st)" and t: "truthy (backupFilename e) \<or> rc < retries opts"
  proof -
    let ?st1 = "(after w2 ?started st)\<lparr>late := leftover k ?fn pre @ PutError err # post\<rparr>"
    have s: "settle k ?fn (pre @ PutError err # post) = Reject e"
      "leftover k ?fn (pre @ PutError err # post) = leftover k ?fn pre @ PutError err # post"
      using c by (simp_all add: settle_settled leftover_settled)
    have f: "backupFn env opts k st = (Throw e, ?st1)"
      using a b l s by (simp add: backupFn_def wait_def Let_def)
    have x: "list_ex exits (late ?st1)"
      using d by (simp add: list_ex_iff)
    show ?thesis
    proof (cases "truthy (backupFilename e)")
      case True
      then obtain fn where fn: "backupFilename e = Some fn" "fn \<noteq> []"
        by (cases "backupFilename e") auto
      obtain r w3 where del: "deleteFile env (davDir opts @ ''/'' @ fn) (world ?st1) = (r, w3)"
        by (cases "deleteFile env (davDir opts @ ''/'' @ fn) (world ?st1)")
      show ?thesis
        using backup_with_filename [OF f fn del, of rc] x True fn by simp
    next
      case False
      then have "rc < retries opts" using t by simp
      then show ?thesis
        using backup_without_filename [OF f False, of rc] x False by simp
    qed
  qed
  have returned: "fst (backup env opts k rc st) = Return () \<and>
      list_ex exits (late (snd (backup env opts k rc st)))"
    if a: "now env (world st) = (m, w1)"
      and b: "stream_events env k ?u w1 = (pre @ PutError err # post, w2)"
      and d: "statusCode err = Some 507" and l: "\<not> list_ex exits (late st)"
      and c: "settle k ?fn pre = Resolve \<or>
              settle k ?fn pre = Reject e \<and> \<not> truthy (backupFilename e) \<and> \<not> rc < retries opts"
  proof -
    let ?st1 = "(after w2 ?started st)\<lparr>late := leftover k ?fn pre @ PutError err # post\<rparr>"
    have x: "list_ex exits (late ?st1)"
      using d by (simp add: list_ex_iff)
    from c show ?thesis
    proof
      assume r: "settle k ?fn pre = Resolve"
      then have "settle k ?fn (pre @ PutError err # post) = Resolve"
        "leftover k ?fn (pre @ PutError err # post) = leftover k ?fn pre @ PutError err # post"
        by (simp_all add: settle_settled leftover_settled)
      then have "backupFn env opts k st = (Return (), ?st1)"
        using a b l by (simp add: backupFn_def wait_def Let_def)
      then show ?thesis using x by (simp add: backup.simps [of env opts k rc st])
    next
      assume r: "settle k ?fn pre = Reject e \<and> \<not> truthy (backupFilename e) \<and> \<not> rc < retries opts"
      then have "settle k ?fn (pre @ PutError err # post) = Reject e"
        "leftover k ?fn (pre @ PutError err # post) = leftover k ?fn pre @ PutError err # post"
        by (simp_all add: settle_settled leftover_settled)
      then have f: "backupFn env opts k st = (Throw e, ?st1)"
        using a b l by (simp add: backupFn_def wait_def Let_def)
      show ?thesis
        using backup_without_filename [OF f, of rc] r x by simp
    qed
  qed
  have overdue: "fst (backup env opts k rc st) = Exit 1 \<and>
      (\<exists>u. trace (snd (backup env opts k rc st)) =
             trace st @ [Spawn k, Log (''Uploading: '' @ u), Put u, Warn ''Not enough storage space''])"
    if "list_ex exits (late st)"
  proof -
    have "fst (backupFn env opts k st) = Exit 1 \<and>
          (\<exists>u. trace (snd (backupFn env opts k st)) =
             trace st @ [Spawn k, Log (''Uploading: '' @ u), Put u, Warn ''Not enough storage space''])"
      using that by (auto simp: backupFn_def wait_def Let_def split: prod.splits)
    then show ?thesis
      by (cases "backupFn env opts k st") (simp add: backup.simps [of env opts k rc st])
  qed
  show ?thesis
    using pending settled returned overdue run_tracked [of env opts w] unfolding storage_full_def
    by (simp only: append.simps append_assoc) blast
qed

theorem insufficient_storage_is_fatal_witness:
  "(now env_full (world \<lparr>world = 0, trace = [], late = []\<rparr>) = (moment0, 0) \<and>
    stream_events env_full Tar (putUrl_of options0 (backupFilename_of Tar options0 moment0)) 0 =
      ([ProcessExit (Some 0)] @ PutError (stream_error (Some 507)) # [], 1) \<and>
    settle Tar (backupFilename_of Tar options0 moment0) [ProcessExit (Some 0)] = Ignore \<and>
    statusCode (stream_error (Some 507)) = Some 507) \<and>
   fst (backup env_full options0 Tar 0 \<lparr>world = 0, trace = [], late = []\<rparr>) = Exit 1 \<and>
   (stream_events env_late_full Tar (putUrl_of options0 (backupFilename_of Tar options0 moment0)) 0 =
      ([ProcessExit (Some 2)] @ PutError (stream_error (Some 507)) # [], 1) \<and>
    settle Tar (backupFilename_of Tar options0 moment0) [ProcessExit (Some 2)] =
      Reject \<lparr>message = ''Directory backup failed with code 2'', status = None, statusCode = None,
              backupFilename = Some ''backup-nightly_2024-03-09_00-05-59-007.tgz''\<rparr>) \<and>
   fst (backup env_late_full options0 Tar 0 \<lparr>world = 0, trace = [], late = []\<rparr>) = Exit 1 \<and>
   trace (snd (backup env_late_full options0 Tar 0 \<lparr>world = 0, trace = [], late = []\<rparr>)) =
     [Spawn Tar, Log ''Uploading: https://dav.box.com/dav/backup/backup-nightly_2024-03-09_00-05-59-007.tgz'',
      Put ''https://dav.box.com/dav/backup/backup-nightly_2024-03-09_00-05-59-007.tgz'',
      WarnBackupError \<lparr>message = ''Directory backup failed with code 2'', status = None, statusCode = None,
          backupFilename = Some ''backup-nightly_2024-03-09_00-05-59-007.tgz''\<rparr>,
      Log ''Deleting broken backup: /backup/backup-nightly_2024-03-09_00-05-59-007.tgz'',
      DeleteFile ''/backup/backup-nightly_2024-03-09_00-05-59-007.tgz'',
      Warn ''Not enough storage space''] \<and>
   (stream_events env_spawn_fails_full Tar (putUrl_of options0 (backupFilename_of Tar options0 moment0)) 0 =
      ([SpawnError \<lparr>message = ''spawn ENOENT'', status = None, statusCode = None, backupFilename = None\<rparr>] @
       PutError (stream_error (Some 507)) # [], 1) \<and>
    \<not> (1::nat) < retries options0) \<and>
   fst (backup env_spawn_fails_full options0 Tar 1 \<lparr>world = 0, trace = [], late = []\<rparr>) = Return () \<and>
   list_ex exits (late (snd (backup env_spawn_fails_full options0 Tar 1 \<lparr>world = 0, trace = [], late = []\<rparr>))) \<and>
   list_ex exits (late \<lparr>world = 1::nat, trace = [], late = [PutError (stream_error (Some 507))]\<rparr>) \<and>
   fst (backup env0 options0 Mysql 0 \<lparr>world = 1, trace = [], late = [PutError (stream_error (Some 507))]\<rparr>) = Exit 1 \<and>
   Warn ''Not enough storage space'' \<in> set (trace (snd (run env_full options0 0))) \<and>
   fst (run env_full options0 0) = 1 \<and>
   last (trace (snd (run env_full options0 0))) = Warn ''Not enough storage space''"
proof -
  let ?st0 = "\<lparr>world = 0::nat, trace = [], late = []\<rparr>"
  let ?e = "\<lparr>message = ''Directory backup failed with code 2'', status = None, statusCode = None,
              backupFilename = Some ''backup-nightly_2024-03-09_00-05-59-007.tgz''\<rparr>"
  have n: "backupFilename_of Tar options0 moment0 = ''backup-nightly_2024-03-09_00-05-59-007.tgz''"
    "putUrl_of options0 ''backup-nightly_2024-03-09_00-05-59-007.tgz'' =
       ''https://dav.box.com/dav/backup/backup-nightly_2024-03-09_00-05-59-007.tgz''"
    by (simp_all add: inputs formatting putUrl_of_def)
  have h1: "now env_full (world ?st0) = (moment0, 0) \<and>
    stream_events env_full Tar (putUrl_of options0 (backupFilename_of Tar options0 moment0)) 0 =
      ([ProcessExit (Some 0)] @ PutError (stream_error (Some 507)) # [], 1) \<and>
    settle Tar (backupFilename_of Tar options0 moment0) [ProcessExit (Some 0)] = Ignore \<and>
    statusCode (stream_error (Some 507)) = Some 507"
    by (simp add: environments on_exit_def)
  have h2: "now env_late_full (world ?st0) = (moment0, 0) \<and>
    stream_events env_late_full Tar (putUrl_of options0 (backupFilename_of Tar options0 moment0)) 0 =
      ([ProcessExit (Some 2)] @ PutError (stream_error (Some 507)) # [], 1) \<and>
    settle Tar (backupFilename_of Tar options0 moment0) [ProcessExit (Some 2)] = Reject ?e \<and>
    statusCode (stream_error (Some 507)) = Some 507 \<and>
    \<not> list_ex exits (late ?st0) \<and> (truthy (backupFilename ?e) \<or> (0::nat) < retries options0)"
    by (simp add: environments on_exit_def inputs formatting putUrl_of_def)
  let ?s = "\<lparr>message = ''spawn ENOENT'', status = None, statusCode = None, backupFilename = None\<rparr>"
  have h5: "now env_spawn_fails_full (world ?st0) = (moment0, 0) \<and>
    stream_events env_spawn_fails_full Tar (putUrl_of options0 (backupFilename_of Tar options0 moment0)) 0 =
      ([SpawnError ?s] @ PutError (stream_error (Some 507)) # [], 1) \<and>
    statusCode (stream_error (Some 507)) = Some 507 \<and> \<not> list_ex exits (late ?st0) \<and>
    (settle Tar (backupFilename_of Tar options0 moment0) [SpawnError ?s] = Resolve \<or>
     settle Tar (backupFilename_of Tar options0 moment0) [SpawnError ?s] = Reject ?s \<and>
     \<not> truthy (backupFilename ?s) \<and> \<not> (1::nat) < retries options0)"
    by (simp add: environments options0_fields)
  have h3: "list_ex exits (late \<lparr>world = 1::nat, trace = [], late = [PutError (stream_error (Some 507))]\<rparr>)"
    by (simp add: stream_error_def)
  have h4: "Warn ''Not enough storage space'' \<in> set (trace (snd (run env_full options0 0)))"
    by (simp add: full_run)
  note pending = insufficient_storage_is_fatal
      [where env = env_full and st = ?st0 and m = moment0 and ?w1.0 = 0 and k = Tar and opts = options0
         and pre = "[ProcessExit (Some 0)]" and err = "stream_error (Some 507)" and post = "[]" and ?w2.0 = 1
         and rc = 0 and w = 0]
  note settled = insufficient_storage_is_fatal
      [where env = env_late_full and st = ?st0 and m = moment0 and ?w1.0 = 0 and k = Tar and opts = options0
         and pre = "[ProcessExit (Some 2)]" and err = "stream_error (Some 507)" and post = "[]" and ?w2.0 = 1
         and rc = 0 and e = ?e]
  note returned = insufficient_storage_is_fatal
      [where env = env_spawn_fails_full and st = ?st0 and m = moment0 and ?w1.0 = 0 and k = Tar
         and opts = options0 and pre = "[SpawnError ?s]" and err = "stream_error (Some 507)" and post = "[]"
         and ?w2.0 = 1 and rc = 1 and e = ?s]
  note overdue = insufficient_storage_is_fatal
      [where env = env0 and st = "\<lparr>world = 1::nat, trace = [], late = [PutError (stream_error (Some 507))]\<rparr>"
         and k = Mysql and opts = options0 and rc = 0]
  have 1: "fst (backup env_full options0 Tar 0 ?st0) = Exit 1"
    using pending h1 by blast
  have "fst (backup env_late_full options0 Tar 0 ?st0) = Exit 1 \<and>
      trace (snd (backup env_late_full options0 Tar 0 ?st0)) =
        trace ?st0 @ [Spawn Tar, Log (''Uploading: '' @ putUrl_of options0 (backupFilename_of Tar options0 moment0)),
                    Put (putUrl_of options0 (backupFilename_of Tar options0 moment0)),
                    WarnBackupError ?e] @
        (if truthy (backupFilename ?e)
         then [Log (''Deleting broken backup: '' @ davDir options0 @ ''/'' @ interpolate (backupFilename ?e)),
               DeleteFile (davDir options0 @ ''/'' @ interpolate (backupFilename ?e))]
         else [Log ''Retrying'', Delay 10000]) @
        [Warn ''Not enough storage space'']"
    using settled h2 by blast
  then have 2: "fst (backup env_late_full options0 Tar 0 ?st0) = Exit 1"
    "trace (snd (backup env_late_full options0 Tar 0 ?st0)) =
     [Spawn Tar, Log ''Uploading: https://dav.box.com/dav/backup/backup-nightly_2024-03-09_00-05-59-007.tgz'',
      Put ''https://dav.box.com/dav/backup/backup-nightly_2024-03-09_00-05-59-007.tgz'',
      WarnBackupError ?e,
      Log ''Deleting broken backup: /backup/backup-nightly_2024-03-09_00-05-59-007.tgz'',
      DeleteFile ''/backup/backup-nightly_2024-03-09_00-05-59-007.tgz'',
      Warn ''Not enough storage space'']"
    unfolding n by (simp_all add: options0_fields)
  have 3: "fst (backup env0 options0 Mysql 0 \<lparr>world = 1, trace = [], late = [PutError (stream_error (Some 507))]\<rparr>) = Exit 1"
    using overdue h3 by blast
  have 6: "fst (backup env_spawn_fails_full options0 Tar 1 ?st0) = Return () \<and>
           list_ex exits (late (snd (backup env_spawn_fails_full options0 Tar 1 ?st0)))"
    using returned h5 by blast
  obtain before where 4: "fst (run env_full options0 0) = 1"
    "trace (snd (run env_full options0 0)) = before @ [Warn ''Not enough storage space'']"
    using pending h4 by blast
  have 5: "last (trace (snd (run env_full options0 0))) = Warn ''Not enough storage space''"
    using 4(2) by simp
  show ?thesis using h1 h2 h3 h4 h5 1 2 3 4(1) 5 6 by simp
qed

subsection \<open>The exit code\<close>

lemma backup_never_throws: "fst (backup env opts k rc st) \<noteq> Throw err"
  using backup_added [of env opts k rc st] by (auto simp: job_added_def)

lemma bootstrap_late: "late (snd (bootstrap env opts st)) = late st"
  by (simp add: bootstrap_def bootstrap_loop_late)

text \<open>
  Attempts in an environment whose streams never report 507 and whose attempts all
  settle: no attempt ends the process, and no late event will.
\<close>

lemma backupFn_quiet:
  assumes "\<forall>k u w. \<not> list_ex exits (fst (stream_events env k u w))"
    and "\<forall>k u w fn. settle k fn (fst (stream_events env k u w)) \<noteq> Ignore"
    and "\<not> list_ex exits (late st)"
  shows "(\<forall>code. fst (backupFn env opts k st) \<noteq> Exit code) \<and>
         \<not> list_ex exits (late (snd (backupFn env opts k st)))"
proof -
  obtain m w1 where n: "now env (world st) = (m, w1)" by (cases "now env (world st)")
  let ?fn = "backupFilename_of k opts m"
  obtain evs w2 where e: "stream_events env k (putUrl_of opts ?fn) w1 = (evs, w2)"
    by (cases "stream_events env k (putUrl_of opts ?fn) w1")
  have q: "\<not> list_ex exits evs" and s: "settle k ?fn evs \<noteq> Ignore"
    using assms(1,2) e by (metis fst_conv)+
  have l: "\<not> list_ex exits (leftover k ?fn evs)"
    using q leftover_subset [of k ?fn evs] by (auto simp: list_ex_iff)
  show ?thesis
  proof (cases "settle k ?fn evs")
    case Ignore
    then show ?thesis using s by simp
  next
    case Resolve
    then show ?thesis using n e l assms(3) by (simp add: backupFn_def wait_def Let_def)
  next
    case (Reject err)
    then show ?thesis using n e l assms(3) by (simp add: backupFn_def wait_def Let_def)
  next
    case (Process_exit code logged)
    then show ?thesis using settle_exits [OF Process_exit] q by simp
  qed
qed

lemma cleanup_quiet:
  assumes "\<not> list_ex exits (late st)"
  shows "fst (cleanup env opts err st) = Return () \<and> \<not> list_ex exits (late (snd (cleanup env opts err st)))"
  using assms by (auto simp: cleanup_def wait_def Let_def split: prod.splits)

lemma backup_quiet:
  assumes "\<forall>k u w. \<not> list_ex exits (fst (stream_events env k u w))"
    and "\<forall>k u w fn. settle k fn (fst (stream_events env k u w)) \<noteq> Ignore"
  shows "\<not> list_ex exits (late st) \<Longrightarrow>
         fst (backup env opts k rc st) = Return () \<and> \<not> list_ex exits (late (snd (backup env opts k rc st)))"
proof (induction "retries opts - rc" arbitrary: rc st)
  case 0
  obtain r st1 where b: "backupFn env opts k st = (r, st1)" by (cases "backupFn env opts k st")
  have q: "\<forall>code. r \<noteq> Exit code" "\<not> list_ex exits (late st1)"
    using backupFn_quiet [OF assms "0.prems", of opts k] b by simp_all
  show ?case
  proof (cases r)
    case (Return u)
    then show ?thesis using b q by (simp add: backup.simps [of env opts k rc st])
  next
    case (Exit code)
    then show ?thesis using q by simp
  next
    case (Throw err)
    let ?st1 = "after (world st1) [WarnBackupError err] st1"
    have "fst (cleanup env opts err ?st1) = Return () \<and> \<not> list_ex exits (late (snd (cleanup env opts err ?st1)))"
      using q(2) by (intro cleanup_quiet) simp
    then show ?thesis
      using b Throw "0.hyps"
      by (cases "cleanup env opts err ?st1") (simp add: backup_rejected and_then_def)
  qed
next
  case (Suc n)
  obtain r st1 where b: "backupFn env opts k st = (r, st1)" by (cases "backupFn env opts k st")
  have q: "\<forall>code. r \<noteq> Exit code" "\<not> list_ex exits (late st1)"
    using backupFn_quiet [OF assms Suc.prems, of opts k] b by simp_all
  show ?case
  proof (cases r)
    case (Return u)
    then show ?thesis using b q by (simp add: backup.simps [of env opts k rc st])
  next
    case (Exit code)
    then show ?thesis using q by simp
  next
    case (Throw err)
    let ?st1 = "after (world st1) [WarnBackupError err] st1"
    obtain c st2 where c: "cleanup env opts err ?st1 = (c, st2)" by (cases "cleanup env opts err ?st1")
    have c': "c = Return ()" "\<not> list_ex exits (late st2)"
      using cleanup_quiet [of ?st1 env opts err] q(2) c by simp_all
    let ?st3 = "(after (world st2) [Log ''Retrying'', Delay RETRY_DELAY] st2)\<lparr>late := []\<rparr>"
    have lt: "rc < retries opts" using Suc.hyps(2) by simp
    have "backup env opts k rc st = backup env opts k (rc + 1) ?st3"
      using b Throw c c' lt by (simp add: backup_rejected and_then_def wait_def)
    moreover have "fst (backup env opts k (rc + 1) ?st3) = Return () \<and>
                   \<not> list_ex exits (late (snd (backup env opts k (rc + 1) ?st3)))"
      using Suc.hyps(2) by (intro Suc.hyps(1)) simp_all
    ultimately show ?thesis by simp
  qed
qed

text \<open>A stage of a run in such an environment.\<close>

lemma stage_completes:
  assumes "\<forall>k u w. \<not> list_ex exits (fst (stream_events env k u w))"
    and "\<forall>k u w fn. settle k fn (fst (stream_events env k u w)) \<noteq> Ignore"
    and "\<not> list_ex exits (late st)"
  shows "\<exists>added. fst (stage env opts k st) = Return () \<and> \<not> list_ex exits (late (snd (stage env opts k st))) \<and>
           trace (snd (stage env opts k st)) = trace st @ added \<and>
           (configured opts k \<longrightarrow> Spawn k \<in> set added \<and> Log (completed k) \<in> set added)"
proof (cases "configured opts k")
  case False
  then show ?thesis using assms(3) by (simp add: stage_def)
next
  case True
  obtain r st1 where b: "backup env opts k 0 st = (r, st1)" by (cases "backup env opts k 0 st")
  have "r = Return ()" "\<not> list_ex exits (late st1)"
    using backup_quiet [OF assms, of opts k 0] b by simp_all
  moreover obtain u a where "trace st1 = trace st @ [Spawn k, Log (''Uploading: '' @ u), Put u] @ a"
    using backup_starts [of env opts k 0 st] b by auto
  ultimately show ?thesis using True b by (simp add: stage_def and_then_def)
qed

lemma stages_complete:
  assumes "\<forall>k u w. \<not> list_ex exits (fst (stream_events env k u w))"
    and "\<forall>k u w fn. settle k fn (fst (stream_events env k u w)) \<noteq> Ignore"
    and "\<not> list_ex exits (late st)"
  shows "fst (stages env opts st) = Return () \<and>
         (\<forall>k. configured opts k \<longrightarrow>
            Spawn k \<in> set (trace (snd (stages env opts st))) \<and>
            Log (completed k) \<in> set (trace (snd (stages env opts st))))"
proof -
  obtain a1 where 1: "fst (stage env opts Tar st) = Return ()"
    "\<not> list_ex exits (late (snd (stage env opts Tar st)))"
    "trace (snd (stage env opts Tar st)) = trace st @ a1"
    "configured opts Tar \<longrightarrow> Spawn Tar \<in> set a1 \<and> Log (completed Tar) \<in> set a1"
    using stage_completes [OF assms, of opts Tar] by blast
  let ?st1 = "snd (stage env opts Tar st)"
  obtain a2 where 2: "fst (stage env opts Mysql ?st1) = Return ()"
    "\<not> list_ex exits (late (snd (stage env opts Mysql ?st1)))"
    "trace (snd (stage env opts Mysql ?st1)) = trace ?st1 @ a2"
    "configured opts Mysql \<longrightarrow> Spawn Mysql \<in> set a2 \<and> Log (completed Mysql) \<in> set a2"
    using stage_completes [OF assms(1,2) 1(2), of opts Mysql] by blast
  let ?st2 = "snd (stage env opts Mysql ?st1)"
  obtain a3 where 3: "fst (stage env opts Mongo ?st2) = Return ()"
    "trace (snd (stage env opts Mongo ?st2)) = trace ?st2 @ a3"
    "configured opts Mongo \<longrightarrow> Spawn Mongo \<in> set a3 \<and> Log (completed Mongo) \<in> set a3"
    using stage_completes [OF assms(1,2) 2(2), of opts Mongo] by blast
  have s: "stages env opts st = stage env opts Mongo ?st2"
    using 1(1) 2(1)
    by (cases "stage env opts Tar st"; cases "stage env opts Mysql ?st1")
       (simp add: stages_def and_then_def)
  have t: "trace (snd (stages env opts st)) = trace st @ a1 @ a2 @ a3"
    using s 1(3) 2(3) 3(2) by simp
  have "configured opts k \<longrightarrow>
            Spawn k \<in> set (trace (snd (stages env opts st))) \<and>
            Log (completed k) \<in> set (trace (snd (stages env opts st)))" for k
    using 1(4) 2(4) 3(3) unfolding t by (cases k) auto
  then show ?thesis using s 3(1) by simp
qed

lemma mysql_succeeds_attempt:
  "\<not> list_ex exits (late st) \<Longrightarrow>
   backupFn env_tar_fails options0 Mysql st =
     (Return (),
      (after (world st + 1)
        [Spawn Mysql,
         Log ''Uploading: https://dav.box.com/dav/backup/backup-nightly_mysql-shop_2024-03-09_00-05-59-007.sql.gz'',
         Put ''https://dav.box.com/dav/backup/backup-nightly_mysql-shop_2024-03-09_00-05-59-007.sql.gz''] st)
      \<lparr>late := []\<rparr>)"
  by (simp add: backupFn_def wait_def environments inputs formatting putUrl_of_def Let_def on_exit_def
      on_response_def after_def)

lemma tar_fails_streams:
  "\<forall>k u w. \<not> list_ex exits (fst (stream_events env_tar_fails k u w))"
  "\<forall>k u w fn. settle k fn (fst (stream_events env_tar_fails k u w)) \<noteq> Ignore"
proof -
  show "\<forall>k u w. \<not> list_ex exits (fst (stream_events env_tar_fails k u w))"
    by (simp add: env_tar_fails_def)
  have "settle k fn (fst (stream_events env_tar_fails k u w)) \<noteq> Ignore" for k u w fn
    by (cases k) (simp_all add: env_tar_fails_def on_exit_def on_response_def)
  then show "\<forall>k u w fn. settle k fn (fst (stream_events env_tar_fails k u w)) \<noteq> Ignore"
    by blast
qed

lemma tar_fails_run:
  "run env_tar_fails options0 0 =
     (0, \<lparr>world = 3,
          trace =
            [GetDirectoryContents ''/'', GetDirectoryContents ''/backup'',
             Log ''Deleting old backup: /backup/backup-nightly_2024-01-01_00-00-00-000.tgz'',
             DeleteFile ''/backup/backup-nightly_2024-01-01_00-00-00-000.tgz'',
             Log ''Deleting old backup: /backup/backup-nightly_mysql-shop_2024-01-01_00-00-00-000.sql.gz'',
             DeleteFile ''/backup/backup-nightly_mysql-shop_2024-01-01_00-00-00-000.sql.gz'',
             Spawn Tar, Log ''Uploading: https://dav.box.com/dav/backup/backup-nightly_2024-03-09_00-05-59-007.tgz'',
             Put ''https://dav.box.com/dav/backup/backup-nightly_2024-03-09_00-05-59-007.tgz'',
             WarnBackupError \<lparr>message = ''Directory backup failed with code 2'', status = None, statusCode = None,
                 backupFilename = Some ''backup-nightly_2024-03-09_00-05-59-007.tgz''\<rparr>,
             Log ''Deleting broken backup: /backup/backup-nightly_2024-03-09_00-05-59-007.tgz'',
             DeleteFile ''/backup/backup-nightly_2024-03-09_00-05-59-007.tgz'',
             Log ''Retrying'', Delay 10000,
             Spawn Tar, Log ''Uploading: https://dav.box.com/dav/backup/backup-nightly_2024-03-09_00-05-59-007.tgz'',
             Put ''https://dav.box.com/dav/backup/backup-nightly_2024-03-09_00-05-59-007.tgz'',
             WarnBackupError \<lparr>message = ''Directory backup failed with code 2'', status = None, statusCode = None,
                 backupFilename = Some ''backup-nightly_2024-03-09_00-05-59-007.tgz''\<rparr>,
             Log ''Deleting broken backup: /backup/backup-nightly_2024-03-09_00-05-59-007.tgz'',
             DeleteFile ''/backup/backup-nightly_2024-03-09_00-05-59-007.tgz'',
             Log ''Directory dump completed'',
             Spawn Mysql,
             Log ''Uploading: https://dav.box.com/dav/backup/backup-nightly_mysql-shop_2024-03-09_00-05-59-007.sql.gz'',
             Put ''https://dav.box.com/dav/backup/backup-nightly_mysql-shop_2024-03-09_00-05-59-007.sql.gz'',
             Log ''MySQL dump completed''], late = []\<rparr>)"
proof -
  have "deleteFile env_tar_fails p w = (Inr (), w)" for p w
    by (simp add: environments)
  then show ?thesis
    by (simp add: run_def co_body_def and_then_def stages_def stage_def configured0 options0_fields
        bootstrap_env0 [OF same_store(4)] prune_env0 [OF same_store(5,6)]
        backup.simps tar_fails_attempt mysql_succeeds_attempt cleanup_def cleanup_warnings_def wait_def
        RETRY_DELAY_def Let_def after_def)
qed

text \<open>
  Claim C1, as the code has it. When bootstrap and pruning return, no stream ever reports
  status 507, every attempt settles (no promise is left pending until the watchdog) and
  at least one target is configured, the exit code is 0, whether or not the attempts of a
  stage succeeded; every configured stage is started and runs to its completion line. The
  orchestrator never throws: a job that has used up its retries returns like one that
  succeeded.
\<close>

theorem exit_code_ignores_failed_stages:
  assumes "bootstrap env opts \<lparr>world = w, trace = [], late = []\<rparr> = (Return c, st1)"
    and "prune env opts c st1 = (Return (), st2)"
    and "\<forall>k u w'. \<not> list_ex exits (fst (stream_events env k u w'))"
    and "\<forall>k u w' fn. settle k fn (fst (stream_events env k u w')) \<noteq> Ignore"
    and "configured opts Tar \<or> configured opts Mysql \<or> configured opts Mongo"
  shows "fst (run env opts w) = 0 \<and>
         (\<forall>k. configured opts k \<longrightarrow>
            Spawn k \<in> set (trace (snd (run env opts w))) \<and>
            Log (completed k) \<in> set (trace (snd (run env opts w)))) \<and>
         (\<forall>k rc st err. fst (backup env opts k rc st) \<noteq> Throw err)"
proof -
  have c: "co_body env opts \<lparr>world = w, trace = [], late = []\<rparr> = stages env opts st2"
    using assms(1,2) by (simp add: co_body_def and_then_def)
  obtain r st3 where s: "stages env opts st2 = (r, st3)" by (cases "stages env opts st2")
  have "late st2 = []"
    using bootstrap_late [of env opts "\<lparr>world = w, trace = [], late = []\<rparr>"] prune_late [of env opts c st1]
      assms(1,2) by simp
  then have q: "\<not> list_ex exits (late st2)" by simp
  have r: "r = Return ()"
    and l: "\<forall>k. configured opts k \<longrightarrow> Spawn k \<in> set (trace st3) \<and> Log (completed k) \<in> set (trace st3)"
    using stages_complete [OF assms(3,4) q, of opts] s by simp_all
  have "run env opts w = (0, st3)"
    using assms(5) c s r by (auto simp: run_def)
  then show ?thesis using l by (simp add: backup_never_throws)
qed

theorem exit_code_ignores_failed_stages_witness:
  "fst (run env_tar_fails options0 0) = 0 \<and>
   Log (completed Tar) \<in> set (trace (snd (run env_tar_fails options0 0))) \<and>
   Log (completed Mysql) \<in> set (trace (snd (run env_tar_fails options0 0))) \<and>
   failures (trace (snd (run env_tar_fails options0 0))) =
     [\<lparr>message = ''Directory backup failed with code 2'', status = None, statusCode = None,
         backupFilename = Some ''backup-nightly_2024-03-09_00-05-59-007.tgz''\<rparr>,
      \<lparr>message = ''Directory backup failed with code 2'', status = None, statusCode = None,
         backupFilename = Some ''backup-nightly_2024-03-09_00-05-59-007.tgz''\<rparr>]"
proof -
  have 1: "bootstrap env_tar_fails options0 \<lparr>world = 0, trace = [], late = []\<rparr> =
           (Return (Some [old_tgz, notes_txt, recent_tgz, old_sql]),
            \<lparr>world = 0, trace = [GetDirectoryContents ''/'', GetDirectoryContents ''/backup''], late = []\<rparr>)"
    by (rule bootstrap_env0 [OF same_store(4)])
  have 2: "prune env_tar_fails options0 (Some [old_tgz, notes_txt, recent_tgz, old_sql])
             \<lparr>world = 0, trace = [GetDirectoryContents ''/'', GetDirectoryContents ''/backup''], late = []\<rparr> =
           (Return (),
            \<lparr>world = 0,
             trace = [GetDirectoryContents ''/'', GetDirectoryContents ''/backup''] @
               [Log ''Deleting old backup: /backup/backup-nightly_2024-01-01_00-00-00-000.tgz'',
                DeleteFile ''/backup/backup-nightly_2024-01-01_00-00-00-000.tgz'',
                Log ''Deleting old backup: /backup/backup-nightly_mysql-shop_2024-01-01_00-00-00-000.sql.gz'',
                DeleteFile ''/backup/backup-nightly_mysql-shop_2024-01-01_00-00-00-000.sql.gz''], late = []\<rparr>)"
    by (rule prune_env0 [OF same_store(5,6)])
  note 3 = tar_fails_streams
  have 4: "configured options0 Tar \<or> configured options0 Mysql \<or> configured options0 Mongo"
    using configured0 by blast
  have "fst (run env_tar_fails options0 0) = 0 \<and>
        Log (completed Tar) \<in> set (trace (snd (run env_tar_fails options0 0))) \<and>
        Log (completed Mysql) \<in> set (trace (snd (run env_tar_fails options0 0)))"
    using exit_code_ignores_failed_stages [OF 1 2 3 4] configured0 by blast
  then show ?thesis by (simp add: tar_fails_run)
qed

text \<open>
  Claim C1 as stated fails: the archiver fails on both attempts the retry budget of 1
  allows, and the run still ends with exit code 0.
\<close>

theorem exhausted_stage_exit_code_counterexample:
  "retries options0 = 1 \<and>
   fst (run env_tar_fails options0 0) = 0 \<and>
   steps (trace (snd (run env_tar_fails options0 0))) =
     [DeleteFile ''/backup/backup-nightly_2024-01-01_00-00-00-000.tgz'',
      DeleteFile ''/backup/backup-nightly_mysql-shop_2024-01-01_00-00-00-000.sql.gz'',
      Put ''https://dav.box.com/dav/backup/backup-nightly_2024-03-09_00-05-59-007.tgz'',
      WarnBackupError \<lparr>message = ''Directory backup failed with code 2'', status = None, statusCode = None,
          backupFilename = Some ''backup-nightly_2024-03-09_00-05-59-007.tgz''\<rparr>,
      DeleteFile ''/backup/backup-nightly_2024-03-09_00-05-59-007.tgz'',
      Delay 10000,
      Put ''https://dav.box.com/dav/backup/backup-nightly_2024-03-09_00-05-59-007.tgz'',
      WarnBackupError \<lparr>message = ''Directory backup failed with code 2'', status = None, statusCode = None,
          backupFilename = Some ''backup-nightly_2024-03-09_00-05-59-007.tgz''\<rparr>,
      DeleteFile ''/backup/backup-nightly_2024-03-09_00-05-59-007.tgz'',
      Put ''https://dav.box.com/dav/backup/backup-nightly_mysql-shop_2024-03-09_00-05-59-007.sql.gz'']"
  by (simp add: tar_fails_run options0_fields)

subsection \<open>Retention\<close>

lemma bootstrap_added:
  "\<exists>added. trace (snd (bootstrap env opts st)) = trace st @ added \<and> housekeeping added \<and> deletes added = []"
  unfolding bootstrap_def by (rule bootstrap_loop_added)

text \<open>
  Claim C6, as the code has it. A retention delete that fails is thrown out of the loop:
  the entries after it are not looked at. A throw from the pruner ends the run: the error
  is printed, the exit code is 1, and no backup stage has run.
\<close>

theorem retention_delete_failure_ends_run:
  "(obsolete nm t e \<and> deleteFile env (filename e) (world st) = (Inl err, w1) \<longrightarrow>
      prune_loop env nm t (e # es) st =
        (Throw err, after w1 [Log (''Deleting old backup: '' @ filename e), DeleteFile (filename e)] st)) \<and>
   (bootstrap env opts \<lparr>world = w, trace = [], late = []\<rparr> = (Return c, st1) \<and>
    prune env opts c st1 = (Throw err, st2) \<and>
    (configured opts Tar \<or> configured opts Mysql \<or> configured opts Mongo) \<longrightarrow>
      run env opts w = (1, after (world st2) [ConsoleError err] st2) \<and>
      puts (trace (snd (run env opts w))) = [])"
proof -
  have "run env opts w = (1, after (world st2) [ConsoleError err] st2) \<and>
        puts (trace (snd (run env opts w))) = []"
    if b: "bootstrap env opts \<lparr>world = w, trace = [], late = []\<rparr> = (Return c, st1)"
      and p: "prune env opts c st1 = (Throw err, st2)"
      and t: "configured opts Tar \<or> configured opts Mysql \<or> configured opts Mongo"
  proof -
    have "co_body env opts \<lparr>world = w, trace = [], late = []\<rparr> = (Throw err, st2)"
      using b p by (simp add: co_body_def and_then_def)
    then have r: "run env opts w = (1, after (world st2) [ConsoleError err] st2)"
      using t by (auto simp: run_def)
    obtain a1 where a1: "trace st1 = a1" "housekeeping a1"
      using bootstrap_added [of env opts "\<lparr>world = w, trace = [], late = []\<rparr>"] b by auto
    obtain a2 where a2: "trace st2 = trace st1 @ a2" "housekeeping a2"
      using prune_added [of env opts c st1] p by auto
    have "puts (trace st2) = []" using a1 a2 by (simp add: housekeeping_def)
    then show ?thesis using r by (simp add: after_def)
  qed
  moreover have "prune_loop env nm t (e # es) st =
        (Throw err, after w1 [Log (''Deleting old backup: '' @ filename e), DeleteFile (filename e)] st)"
    if "obsolete nm t e" and "deleteFile env (filename e) (world st) = (Inl err, w1)"
    using that by simp
  ultimately show ?thesis by blast
qed

lemma delete_fails_store:
  "deleteFile (env_delete_fails code) p w = (Inl (error_status code), w)"
  by (simp add: env_delete_fails_def)

lemma prune_delete_fails:
  "prune (env_delete_fails code) options0 (Some [old_tgz, notes_txt, recent_tgz, old_sql]) \<lparr>world = w, trace = tr, late = []\<rparr> =
     (Throw (error_status code),
      \<lparr>world = w,
       trace = tr @
         [Log ''Deleting old backup: /backup/backup-nightly_2024-01-01_00-00-00-000.tgz'',
          DeleteFile ''/backup/backup-nightly_2024-01-01_00-00-00-000.tgz''], late = []\<rparr>)"
  by (simp add: prune_def options0_fields same_store env0_def valueOf_moment0 obsolete_entries
      entry_filenames delete_fails_store after_def)

theorem retention_delete_failure_ends_run_witness:
  "(obsolete ''nightly'' (1709942759007 - days_asMilliseconds 7) old_tgz \<and>
    deleteFile (env_delete_fails 500) (filename old_tgz) 0 = (Inl (error_status 500), 0)) \<and>
   prune_loop (env_delete_fails 500) ''nightly'' (1709942759007 - days_asMilliseconds 7)
       [old_tgz, notes_txt, recent_tgz, old_sql] \<lparr>world = 0, trace = [], late = []\<rparr> =
     (Throw (error_status 500),
      \<lparr>world = 0,
       trace = [Log ''Deleting old backup: /backup/backup-nightly_2024-01-01_00-00-00-000.tgz'',
                DeleteFile ''/backup/backup-nightly_2024-01-01_00-00-00-000.tgz''], late = []\<rparr>) \<and>
   run (env_delete_fails 500) options0 0 =
     (1, \<lparr>world = 0,
          trace = [GetDirectoryContents ''/'', GetDirectoryContents ''/backup'',
                   Log ''Deleting old backup: /backup/backup-nightly_2024-01-01_00-00-00-000.tgz'',
                   DeleteFile ''/backup/backup-nightly_2024-01-01_00-00-00-000.tgz'',
                   ConsoleError (error_status 500)], late = []\<rparr>)"
proof -
  have h: "obsolete ''nightly'' (1709942759007 - days_asMilliseconds 7) old_tgz \<and>
    deleteFile (env_delete_fails 500) (filename old_tgz) (world \<lparr>world = 0::nat, trace = [], late = []\<rparr>) =
      (Inl (error_status 500), 0)"
    by (simp add: obsolete_entries delete_fails_store)
  have 1: "bootstrap (env_delete_fails 500) options0 \<lparr>world = 0, trace = [], late = []\<rparr> =
           (Return (Some [old_tgz, notes_txt, recent_tgz, old_sql]),
            \<lparr>world = 0, trace = [GetDirectoryContents ''/'', GetDirectoryContents ''/backup''], late = []\<rparr>)"
    by (rule bootstrap_env0 [OF same_store(7)])
  have 2: "prune (env_delete_fails 500) options0 (Some [old_tgz, notes_txt, recent_tgz, old_sql])
             \<lparr>world = 0, trace = [GetDirectoryContents ''/'', GetDirectoryContents ''/backup''], late = []\<rparr> =
           (Throw (error_status 500),
            \<lparr>world = 0,
             trace = [GetDirectoryContents ''/'', GetDirectoryContents ''/backup''] @
               [Log ''Deleting old backup: /backup/backup-nightly_2024-01-01_00-00-00-000.tgz'',
                DeleteFile ''/backup/backup-nightly_2024-01-01_00-00-00-000.tgz''], late = []\<rparr>)"
    by (rule prune_delete_fails)
  have 3: "configured options0 Tar \<or> configured options0 Mysql \<or> configured options0 Mongo"
    using configured0 by blast
  note ends = retention_delete_failure_ends_run
    [of "''nightly''" "1709942759007 - days_asMilliseconds 7" old_tgz "env_delete_fails 500"
        "\<lparr>world = 0, trace = [], late = []\<rparr>" "error_status 500" 0 "[notes_txt, recent_tgz, old_sql]" options0 0
        "Some [old_tgz, notes_txt, recent_tgz, old_sql]"
        "\<lparr>world = 0, trace = [GetDirectoryContents ''/'', GetDirectoryContents ''/backup''], late = []\<rparr>"]
  have "prune_loop (env_delete_fails 500) ''nightly'' (1709942759007 - days_asMilliseconds 7)
       [old_tgz, notes_txt, recent_tgz, old_sql] \<lparr>world = 0, trace = [], late = []\<rparr> =
     (Throw (error_status 500),
      \<lparr>world = 0,
       trace = [Log ''Deleting old backup: /backup/backup-nightly_2024-01-01_00-00-00-000.tgz'',
                DeleteFile ''/backup/backup-nightly_2024-01-01_00-00-00-000.tgz''], late = []\<rparr>)"
    using ends h by (simp add: after_def entry_filenames)
  moreover have "run (env_delete_fails 500) options0 0 =
     (1, \<lparr>world = 0,
          trace = [GetDirectoryContents ''/'', GetDirectoryContents ''/backup'',
                   Log ''Deleting old backup: /backup/backup-nightly_2024-01-01_00-00-00-000.tgz'',
                   DeleteFile ''/backup/backup-nightly_2024-01-01_00-00-00-000.tgz'',
                   ConsoleError (error_status 500)], late = []\<rparr>)"
    using ends 1 2 3 by (simp add: after_def)
  ultimately show ?thesis using h by simp
qed

text \<open>
  Claim C6 as stated fails: the store refuses the first retention delete with status 500,
  and the run ends with exit code 1 without looking at the second old backup and without
  starting a backup stage.
\<close>

theorem retention_delete_failure_counterexample:
  "fst (run (env_delete_fails 500) options0 0) = 1 \<and>
   deletes (trace (snd (run (env_delete_fails 500) options0 0))) =
     [''/backup/backup-nightly_2024-01-01_00-00-00-000.tgz''] \<and>
   puts (trace (snd (run (env_delete_fails 500) options0 0))) = [] \<and>
   last (trace (snd (run (env_delete_fails 500) options0 0))) = ConsoleError (error_status 500)"
  by (simp add: run_def co_body_def and_then_def configured0 options0_fields
      bootstrap_env0 [OF same_store(7)] prune_delete_fails after_def)

text \<open>The deletes the pruning loop requests, and how it ends.\<close>

lemma deletions_complete:
  "snd (deletions_until_failure env ps w) = None \<Longrightarrow> fst (deletions_until_failure env ps w) = ps"
proof (induction ps arbitrary: w)
  case Nil
  then show ?case by simp
next
  case (Cons p ps)
  obtain r w1 where d: "deleteFile env p w = (r, w1)" by (cases "deleteFile env p w")
  obtain requested failure where f: "deletions_until_failure env ps w1 = (requested, failure)"
    by (cases "deletions_until_failure env ps w1")
  show ?case
  proof (cases r)
    case (Inl err)
    then show ?thesis using Cons.prems d by simp
  next
    case (Inr u)
    then have "failure = None" using Cons.prems d f by simp
    then have "requested = ps" using Cons.IH [of w1] f by simp
    then show ?thesis using d f Inr by simp
  qed
qed

lemma prune_loop_deletions:
  "\<exists>added. trace (snd (prune_loop env nm obs es st)) = trace st @ added \<and>
           deletes added =
             fst (deletions_until_failure env (map filename (filter (obsolete nm obs) es)) (world st)) \<and>
           fst (prune_loop env nm obs es st) =
             (case snd (deletions_until_failure env (map filename (filter (obsolete nm obs) es)) (world st)) of
                None \<Rightarrow> Return ()
              | Some err \<Rightarrow> Throw err)"
proof (induction es arbitrary: st)
  case Nil
  then show ?case by simp
next
  case (Cons e es)
  show ?case
  proof (cases "obsolete nm obs e")
    case False
    then show ?thesis using Cons.IH [of st] by simp
  next
    case True
    obtain r w1 where d: "deleteFile env (filename e) (world st) = (r, w1)"
      by (cases "deleteFile env (filename e) (world st)")
    let ?a1 = "[Log (''Deleting old backup: '' @ filename e), DeleteFile (filename e)]"
    show ?thesis
    proof (cases r)
      case (Inl err)
      then have "prune_loop env nm obs (e # es) st = (Throw err, after w1 ?a1 st)"
        using True d by simp
      then have "trace (snd (prune_loop env nm obs (e # es) st)) = trace st @ ?a1 \<and>
           deletes ?a1 =
             fst (deletions_until_failure env (map filename (filter (obsolete nm obs) (e # es))) (world st)) \<and>
           fst (prune_loop env nm obs (e # es) st) =
             (case snd (deletions_until_failure env (map filename (filter (obsolete nm obs) (e # es))) (world st)) of
                None \<Rightarrow> Return ()
              | Some err \<Rightarrow> Throw err)"
        using True d Inl by simp
      then show ?thesis by blast
    next
      case (Inr u)
      then have eq: "prune_loop env nm obs (e # es) st = prune_loop env nm obs es (after w1 ?a1 st)"
        using True d by simp
      let ?rest = "deletions_until_failure env (map filename (filter (obsolete nm obs) es)) w1"
      obtain a2 where a2: "trace (snd (prune_loop env nm obs es (after w1 ?a1 st))) = trace (after w1 ?a1 st) @ a2"
        "deletes a2 = fst ?rest"
        "fst (prune_loop env nm obs es (after w1 ?a1 st)) =
           (case snd ?rest of None \<Rightarrow> Return () | Some err \<Rightarrow> Throw err)"
        using Cons.IH [of "after w1 ?a1 st"] by auto
      have "trace (snd (prune_loop env nm obs (e # es) st)) = trace st @ (?a1 @ a2) \<and>
           deletes (?a1 @ a2) =
             fst (deletions_until_failure env (map filename (filter (obsolete nm obs) (e # es))) (world st)) \<and>
           fst (prune_loop env nm obs (e # es) st) =
             (case snd (deletions_until_failure env (map filename (filter (obsolete nm obs) (e # es))) (world st)) of
                None \<Rightarrow> Return ()
              | Some err \<Rightarrow> Throw err)"
        using a2 True d Inr unfolding eq by (cases ?rest) simp
      then show ?thesis by blast
    qed
  qed
qed

text \<open>
  Claim C4, as the code has it. With a retention window that is not a positive finite
  number of days the pruner does nothing at all. With a window of \<open>d > 0\<close> days and an
  alphanumeric run name it reads the clock once and goes through the listing in order,
  selecting an entry exactly when its type is \<^verbatim>\<open>file\<close>, its basename matches the pattern
  of the run name and its last-modified instant is strictly before now minus \<open>d\<close> days. It
  requests the deletion of the selected entries one after the other until a request fails:
  that failure is thrown, and no entry after it is deleted. When no request fails the
  pruner returns, and the deletes requested are those of all the selected entries.
\<close>

theorem pruner_selection:
  "(daysToKeep opts = Infinity \<or> daysToKeep opts = NaN \<or> (\<exists>n. daysToKeep opts = Finite n \<and> n \<le> 0) \<longrightarrow>
      prune env opts c st = (Return (), st)) \<and>
   (alphanumeric (name opts) \<and> daysToKeep opts = Finite d \<and> 0 < d \<and> now env (world st) = (m, w1) \<longrightarrow>
      (\<exists>added.
         trace (snd (prune env opts (Some listing) st)) = trace st @ added \<and>
         deletes added =
           fst (deletions_until_failure env
                  (map filename (filter (obsolete (name opts) (valueOf m - d * 86400000)) listing)) w1) \<and>
         fst (prune env opts (Some listing) st) =
           (case snd (deletions_until_failure env
                        (map filename (filter (obsolete (name opts) (valueOf m - d * 86400000)) listing)) w1) of
              None \<Rightarrow> Return ()
            | Some err \<Rightarrow> Throw err) \<and>
         (fst (prune env opts (Some listing) st) = Return () \<longrightarrow>
            deletes added =
              map filename (filter (obsolete (name opts) (valueOf m - d * 86400000)) listing)))) \<and>
   (alphanumeric nm \<longrightarrow>
      (obsolete nm t e \<longleftrightarrow>
         type e = ''file'' \<and> BACKUP_FILENAME_REGEXP_test nm (basename e) \<and>
         (\<exists>l. lastmod e = Some l \<and> l < t)))"
proof -
  have skip: "prune env opts c st = (Return (), st)"
    if "daysToKeep opts = Infinity \<or> daysToKeep opts = NaN \<or> (\<exists>n. daysToKeep opts = Finite n \<and> n \<le> 0)"
    using that by (auto simp: prune_def)
  let ?sel = "map filename (filter (obsolete (name opts) (valueOf m - d * 86400000)) listing)"
  have sel: "\<exists>added.
         trace (snd (prune env opts (Some listing) st)) = trace st @ added \<and>
         deletes added = fst (deletions_until_failure env ?sel w1) \<and>
         fst (prune env opts (Some listing) st) =
           (case snd (deletions_until_failure env ?sel w1) of None \<Rightarrow> Return () | Some err \<Rightarrow> Throw err) \<and>
         (fst (prune env opts (Some listing) st) = Return () \<longrightarrow> deletes added = ?sel)"
    if "daysToKeep opts = Finite d" and "0 < d" and "now env (world st) = (m, w1)"
  proof -
    have p: "prune env opts (Some listing) st =
          prune_loop env (name opts) (valueOf m - d * 86400000) listing (after w1 [] st)"
      using that by (simp add: prune_def days_asMilliseconds_def)
    obtain added where a: "trace (snd (prune env opts (Some listing) st)) = trace st @ added"
      "deletes added = fst (deletions_until_failure env ?sel w1)"
      "fst (prune env opts (Some listing) st) =
         (case snd (deletions_until_failure env ?sel w1) of None \<Rightarrow> Return () | Some err \<Rightarrow> Throw err)"
      using prune_loop_deletions [of env "name opts" "valueOf m - d * 86400000" listing "after w1 [] st"]
      unfolding p by auto
    have "deletes added = ?sel" if "fst (prune env opts (Some listing) st) = Return ()"
    proof -
      have "snd (deletions_until_failure env ?sel w1) = None"
        using that a(3) by (cases "snd (deletions_until_failure env ?sel w1)") simp_all
      then show ?thesis using a(2) deletions_complete by metis
    qed
    then show ?thesis using a by blast
  qed
  have cond: "obsolete nm t e \<longleftrightarrow>
      type e = ''file'' \<and> BACKUP_FILENAME_REGEXP_test nm (basename e) \<and>
      (\<exists>l. lastmod e = Some l \<and> l < t)"
    by (cases "lastmod e") (simp_all add: obsolete_def)
  show ?thesis using skip sel cond by blast
qed

theorem pruner_selection_witness:
  "(daysToKeep (options0\<lparr>daysToKeep := Infinity\<rparr>) = Infinity \<and>
    prune env0 (options0\<lparr>daysToKeep := Infinity\<rparr>) (Some [old_tgz, notes_txt, recent_tgz, old_sql])
        \<lparr>world = 0, trace = [], late = []\<rparr> = (Return (), \<lparr>world = 0, trace = [], late = []\<rparr>)) \<and>
   (alphanumeric (name options0) \<and> daysToKeep options0 = Finite 7 \<and> (0::int) < 7 \<and>
    now env0 (world \<lparr>world = 0, trace = [], late = []\<rparr>) = (moment0, 0) \<and>
    map filename (filter (obsolete (name options0) (valueOf moment0 - 7 * 86400000))
                      [old_tgz, notes_txt, recent_tgz, old_sql]) =
      [''/backup/backup-nightly_2024-01-01_00-00-00-000.tgz'',
       ''/backup/backup-nightly_mysql-shop_2024-01-01_00-00-00-000.sql.gz''] \<and>
    fst (prune env0 options0 (Some [old_tgz, notes_txt, recent_tgz, old_sql])
           \<lparr>world = 0, trace = [], late = []\<rparr>) = Return () \<and>
    deletes (trace (snd (prune env0 options0 (Some [old_tgz, notes_txt, recent_tgz, old_sql])
                          \<lparr>world = 0, trace = [], late = []\<rparr>))) =
      [''/backup/backup-nightly_2024-01-01_00-00-00-000.tgz'',
       ''/backup/backup-nightly_mysql-shop_2024-01-01_00-00-00-000.sql.gz''] \<and>
    now (env_delete_fails 500) (world \<lparr>world = 0, trace = [], late = []\<rparr>) = (moment0, 0) \<and>
    fst (prune (env_delete_fails 500) options0 (Some [old_tgz, notes_txt, recent_tgz, old_sql])
           \<lparr>world = 0, trace = [], late = []\<rparr>) = Throw (error_status 500) \<and>
    deletes (trace (snd (prune (env_delete_fails 500) options0 (Some [old_tgz, notes_txt, recent_tgz, old_sql])
                          \<lparr>world = 0, trace = [], late = []\<rparr>))) =
      [''/backup/backup-nightly_2024-01-01_00-00-00-000.tgz'']) \<and>
   (alphanumeric ''nightly'' \<and>
    obsolete ''nightly'' (valueOf moment0 - 7 * 86400000) old_tgz \<and>
    type old_tgz = ''file'' \<and> BACKUP_FILENAME_REGEXP_test ''nightly'' (basename old_tgz) \<and>
    lastmod old_tgz = Some 1704067200000 \<and> 1704067200000 < valueOf moment0 - 7 * 86400000)"
proof -
  let ?listing = "[old_tgz, notes_txt, recent_tgz, old_sql]"
  let ?st0 = "\<lparr>world = 0::nat, trace = [], late = []\<rparr>"
  let ?sel = "map filename (filter (obsolete (name options0) (valueOf moment0 - 7 * 86400000)) ?listing)"
  have a: "daysToKeep (options0\<lparr>daysToKeep := Infinity\<rparr>) = Infinity"
    by simp
  have b: "prune env0 (options0\<lparr>daysToKeep := Infinity\<rparr>) (Some ?listing) ?st0 = (Return (), ?st0)"
    using pruner_selection [where opts = "options0\<lparr>daysToKeep := Infinity\<rparr>" and env = env0
        and c = "Some ?listing" and st = ?st0] a
    by blast
  have n: "alphanumeric (name options0)" "alphanumeric ''nightly''"
    by (simp_all add: options0_fields alphanumeric_def)
  have h: "daysToKeep options0 = Finite 7 \<and> (0::int) < 7 \<and> now env0 (world ?st0) = (moment0, 0)"
    by (simp add: options0_fields env0_def)
  have h': "now (env_delete_fails 500) (world ?st0) = (moment0, 0)"
    by (simp add: same_store env0_def)
  have e: "?sel = [''/backup/backup-nightly_2024-01-01_00-00-00-000.tgz'',
                   ''/backup/backup-nightly_mysql-shop_2024-01-01_00-00-00-000.sql.gz'']"
    using obsolete_entries
    by (simp add: options0_fields valueOf_moment0 days_asMilliseconds_def entry_filenames)
  have d0: "deletions_until_failure env0 ?sel 0 = (?sel, None)"
    unfolding e by (simp add: env0_def)
  have d1: "deletions_until_failure (env_delete_fails 500) ?sel 0 =
              ([''/backup/backup-nightly_2024-01-01_00-00-00-000.tgz''], Some (error_status 500))"
    unfolding e by (simp add: delete_fails_store)
  obtain added where
    "trace (snd (prune env0 options0 (Some ?listing) ?st0)) = trace ?st0 @ added"
    "deletes added = fst (deletions_until_failure env0 ?sel 0)"
    "fst (prune env0 options0 (Some ?listing) ?st0) =
       (case snd (deletions_until_failure env0 ?sel 0) of None \<Rightarrow> Return () | Some err \<Rightarrow> Throw err)"
    using pruner_selection [where opts = options0 and env = env0 and st = ?st0 and d = 7 and m = moment0
        and ?w1.0 = 0 and listing = ?listing] h n(1)
    by blast
  then have 1: "fst (prune env0 options0 (Some ?listing) ?st0) = Return ()"
    "deletes (trace (snd (prune env0 options0 (Some ?listing) ?st0))) =
       [''/backup/backup-nightly_2024-01-01_00-00-00-000.tgz'',
        ''/backup/backup-nightly_mysql-shop_2024-01-01_00-00-00-000.sql.gz'']"
    unfolding d0 using e by simp_all
  obtain added' where
    "trace (snd (prune (env_delete_fails 500) options0 (Some ?listing) ?st0)) = trace ?st0 @ added'"
    "deletes added' = fst (deletions_until_failure (env_delete_fails 500) ?sel 0)"
    "fst (prune (env_delete_fails 500) options0 (Some ?listing) ?st0) =
       (case snd (deletions_until_failure (env_delete_fails 500) ?sel 0) of
          None \<Rightarrow> Return () | Some err \<Rightarrow> Throw err)"
    using pruner_selection [where opts = options0 and env = "env_delete_fails 500" and st = ?st0 and d = 7
        and m = moment0 and ?w1.0 = 0 and listing = ?listing] h h' n(1)
    by blast
  then have 2: "fst (prune (env_delete_fails 500) options0 (Some ?listing) ?st0) = Throw (error_status 500)"
    "deletes (trace (snd (prune (env_delete_fails 500) options0 (Some ?listing) ?st0))) =
       [''/backup/backup-nightly_2024-01-01_00-00-00-000.tgz'']"
    unfolding d1 by simp_all
  have o: "obsolete ''nightly'' (valueOf moment0 - 7 * 86400000) old_tgz"
    using obsolete_entries(1) by (simp add: valueOf_moment0 days_asMilliseconds_def)
  then have 3: "type old_tgz = ''file'' \<and> BACKUP_FILENAME_REGEXP_test ''nightly'' (basename old_tgz) \<and>
                (\<exists>l. lastmod old_tgz = Some l \<and> l < valueOf moment0 - 7 * 86400000)"
    using pruner_selection [where opts = options0 and env = env0 and c = None and st = ?st0 and d = 7
        and m = moment0 and ?w1.0 = 0 and listing = ?listing
        and nm = "''nightly''" and t = "valueOf moment0 - 7 * 86400000" and e = old_tgz]
      n(2) by blast
  have 4: "lastmod old_tgz = Some 1704067200000"
    by (simp add: old_tgz_def)
  then have 5: "1704067200000 < valueOf moment0 - 7 * 86400000"
    using 3 by simp
  show ?thesis using a b n h h' e 1 2 o 3 4 5 by simp
qed

text \<open>
  Claim C4 as stated fails when a delete request fails: the second old backup is a file,
  matches the pattern and is older than the window, and is not deleted, because the first
  delete was refused and the loop ended there.
\<close>

theorem pruner_selection_counterexample:
  "daysToKeep options0 = Finite 7 \<and>
   obsolete (name options0) (valueOf moment0 - 7 * 86400000) old_sql \<and>
   old_sql \<in> set [old_tgz, notes_txt, recent_tgz, old_sql] \<and>
   deletes (trace (snd (prune (env_delete_fails 500) options0 (Some [old_tgz, notes_txt, recent_tgz, old_sql])
                          \<lparr>world = 0, trace = [], late = []\<rparr>))) =
     [''/backup/backup-nightly_2024-01-01_00-00-00-000.tgz''] \<and>
   filename old_sql \<noteq> ''/backup/backup-nightly_2024-01-01_00-00-00-000.tgz''"
  using obsolete_entries
  by (simp add: options0_fields valueOf_moment0 days_asMilliseconds_def prune_delete_fails entry_filenames)

subsection \<open>Bootstrap\<close>

lemma listed_append [simp]: "listed (xs @ ys) = listed xs @ listed ys"
  by (induction xs rule: listed.induct) simp_all

text \<open>
  What the bootstrap does at each depth. One pass lists its directory once; a 404 creates the
  directory and keeps the listing of the pass before, a 401 ends the process with code 1,
  any other error is thrown. A bootstrap that returns has listed the path at every depth
  from 0 to the number of segments, in that order.
\<close>

lemma bootstrap_step_outcomes:
  assumes "getDirectoryContents env dir (world st) = (r, w1)"
  shows "(\<forall>listing. r = Inr listing \<longrightarrow>
            bootstrap_step env dir c st = (Return (Some listing), after w1 [GetDirectoryContents dir] st)) \<and>
         (\<forall>err. r = Inl err \<and> status err = Some 404 \<longrightarrow>
            CreateDirectory dir \<in> set (trace (snd (bootstrap_step env dir c st))) \<and>
            (fst (bootstrap_step env dir c st) = Return c \<or>
             (\<exists>err2. fst (bootstrap_step env dir c st) = Throw err2))) \<and>
         (\<forall>err. r = Inl err \<and> status err = Some 401 \<longrightarrow> fst (bootstrap_step env dir c st) = Exit 1) \<and>
         (\<forall>err. r = Inl err \<and> status err \<noteq> Some 404 \<and> status err \<noteq> Some 401 \<longrightarrow>
            fst (bootstrap_step env dir c st) = Throw err)"
  using assms by (auto simp: bootstrap_step_def after_def split: prod.splits sum.splits)

lemma bootstrap_step_listed:
  "\<exists>added. trace (snd (bootstrap_step env dir c st)) = trace st @ added \<and> listed added = [dir]"
  by (auto simp: bootstrap_step_def after_def split: prod.splits sum.splits)

lemma bootstrap_loop_listed:
  assumes "fst (bootstrap_loop env segs i c st) = Return c'" and "i \<le> length segs"
  shows "\<exists>added. trace (snd (bootstrap_loop env segs i c st)) = trace st @ added \<and>
           listed added = map (segmentedDavDir segs) [i..<Suc (length segs)]"
  using assms
proof (induction env segs i c st rule: bootstrap_loop.induct)
  case (1 env segs i c st)
  obtain r st1 where b: "bootstrap_step env (segmentedDavDir segs i) c st = (r, st1)"
    by (cases "bootstrap_step env (segmentedDavDir segs i) c st")
  obtain a1 where a1: "trace st1 = trace st @ a1" "listed a1 = [segmentedDavDir segs i]"
    using bootstrap_step_listed [of env "segmentedDavDir segs i" c st] b by auto
  obtain c1 where r: "r = Return c1"
    using "1.prems"(1) b by (cases r) (auto simp: bootstrap_loop.simps [of env segs i c st])
  show ?case
  proof (cases "i + 1 \<le> length segs")
    case True
    have eq: "bootstrap_loop env segs i c st = bootstrap_loop env segs (i + 1) c1 st1"
      using b r True by (simp add: bootstrap_loop.simps [of env segs i c st])
    obtain a2 where a2: "trace (snd (bootstrap_loop env segs (i + 1) c1 st1)) = trace st1 @ a2"
      "listed a2 = map (segmentedDavDir segs) [i + 1..<Suc (length segs)]"
      using "1.IH" [OF b [symmetric] r True] "1.prems"(1) True eq by auto
    have "[i..<Suc (length segs)] = i # [i + 1..<Suc (length segs)]"
      using True by (simp add: upt_conv_Cons)
    then have "trace (snd (bootstrap_loop env segs i c st)) = trace st @ (a1 @ a2) \<and>
               listed (a1 @ a2) = map (segmentedDavDir segs) [i..<Suc (length segs)]"
      using eq a1 a2 by simp
    then show ?thesis by blast
  next
    case False
    then have i: "i = length segs" using "1.prems"(2) by simp
    have "bootstrap_loop env segs i c st = (Return c1, st1)"
      using b r False by (simp add: bootstrap_loop.simps [of env segs i c st])
    then show ?thesis using a1 i by auto
  qed
qed

lemma bootstrap_lists_every_depth:
  assumes "fst (bootstrap env opts st) = Return c"
  shows "\<exists>added. trace (snd (bootstrap env opts st)) = trace st @ added \<and>
           listed added =
             map (segmentedDavDir (davDirSegments (davDir opts)))
               [0..<Suc (length (davDirSegments (davDir opts)))]"
  using assms unfolding bootstrap_def by (intro bootstrap_loop_listed) simp_all

text \<open>A target directory that does not exist yet.\<close>

lemma fresh_store: "deleteFile env_fresh = deleteFile env0" "now env_fresh = now env0"
  by (simp_all add: env_fresh_def)

lemma fresh_bootstrap:
  "bootstrap env_fresh options0 \<lparr>world = 0, trace = [], late = []\<rparr> =
     (Return (Some [root_tgz]),
      \<lparr>world = 0,
       trace = [GetDirectoryContents ''/'', GetDirectoryContents ''/backup'',
                Log ''Creating directory: /backup'', CreateDirectory ''/backup''], late = []\<rparr>)"
  by (simp add: bootstrap_def options0_fields segments_backup bootstrap_loop.simps bootstrap_step_def
      segmentedDavDir_def env_fresh_def env0_def error_status_def after_def)

lemma fresh_prune:
  "prune env_fresh options0 (Some [root_tgz]) \<lparr>world = w, trace = tr, late = []\<rparr> =
     (Return (),
      \<lparr>world = w,
       trace = tr @ [Log ''Deleting old backup: /backup-nightly_2024-01-01_00-00-00-000.tgz'',
                     DeleteFile ''/backup-nightly_2024-01-01_00-00-00-000.tgz''], late = []\<rparr>)"
  by (simp add: prune_def options0_fields fresh_store env0_def valueOf_moment0 obsolete_entries
      entry_filenames after_def)

lemma fresh_attempts:
  "\<not> list_ex exits (late st) \<Longrightarrow>
   backupFn env_fresh options0 Tar st =
     (Return (),
      (after (world st + 1)
        [Spawn Tar, Log ''Uploading: https://dav.box.com/dav/backup/backup-nightly_2024-03-09_00-05-59-007.tgz'',
         Put ''https://dav.box.com/dav/backup/backup-nightly_2024-03-09_00-05-59-007.tgz''] st)
      \<lparr>late := []\<rparr>)"
  "\<not> list_ex exits (late st) \<Longrightarrow>
   backupFn env_fresh options0 Mysql st =
     (Return (),
      (after (world st + 1)
        [Spawn Mysql,
         Log ''Uploading: https://dav.box.com/dav/backup/backup-nightly_mysql-shop_2024-03-09_00-05-59-007.sql.gz'',
         Put ''https://dav.box.com/dav/backup/backup-nightly_mysql-shop_2024-03-09_00-05-59-007.sql.gz''] st)
      \<lparr>late := []\<rparr>)"
  by (simp_all add: backupFn_def wait_def environments inputs formatting putUrl_of_def Let_def on_exit_def
      on_response_def after_def)

text \<open>
  Claim C8, at an input where the code departs from it. The target directory
  \<^verbatim>\<open>/backup\<close> does not exist: its listing fails with 404, it is created, and the loop
  ends. The listing handed to the pruner is the one of the root directory, the last that
  succeeded, and the pruner deletes an old backup there, outside the target directory.
\<close>

theorem stale_listing_is_pruned:
  "davDir options0 = ''/backup'' \<and>
   fst (getDirectoryContents env_fresh ''/'' 0) = Inr [root_tgz] \<and>
   fst (getDirectoryContents env_fresh ''/backup'' 0) = Inl (error_status 404) \<and>
   fst (bootstrap env_fresh options0 \<lparr>world = 0, trace = [], late = []\<rparr>) = Return (Some [root_tgz]) \<and>
   run env_fresh options0 0 =
     (0, \<lparr>world = 2,
          trace =
            [GetDirectoryContents ''/'', GetDirectoryContents ''/backup'',
             Log ''Creating directory: /backup'', CreateDirectory ''/backup'',
             Log ''Deleting old backup: /backup-nightly_2024-01-01_00-00-00-000.tgz'',
             DeleteFile ''/backup-nightly_2024-01-01_00-00-00-000.tgz'',
             Spawn Tar, Log ''Uploading: https://dav.box.com/dav/backup/backup-nightly_2024-03-09_00-05-59-007.tgz'',
             Put ''https://dav.box.com/dav/backup/backup-nightly_2024-03-09_00-05-59-007.tgz'',
             Log ''Directory dump completed'',
             Spawn Mysql,
             Log ''Uploading: https://dav.box.com/dav/backup/backup-nightly_mysql-shop_2024-03-09_00-05-59-007.sql.gz'',
             Put ''https://dav.box.com/dav/backup/backup-nightly_mysql-shop_2024-03-09_00-05-59-007.sql.gz'',
             Log ''MySQL dump completed''], late = []\<rparr>)"
proof -
  have "fst (getDirectoryContents env_fresh ''/'' 0) = Inr [root_tgz] \<and>
        fst (getDirectoryContents env_fresh ''/backup'' 0) = Inl (error_status 404)"
    by (simp add: env_fresh_def)
  moreover have "run env_fresh options0 0 =
     (0, \<lparr>world = 2,
          trace =
            [GetDirectoryContents ''/'', GetDirectoryContents ''/backup'',
             Log ''Creating directory: /backup'', CreateDirectory ''/backup'',
             Log ''Deleting old backup: /backup-nightly_2024-01-01_00-00-00-000.tgz'',
             DeleteFile ''/backup-nightly_2024-01-01_00-00-00-000.tgz'',
             Spawn Tar, Log ''Uploading: https://dav.box.com/dav/backup/backup-nightly_2024-03-09_00-05-59-007.tgz'',
             Put ''https://dav.box.com/dav/backup/backup-nightly_2024-03-09_00-05-59-007.tgz'',
             Log ''Directory dump completed'',
             Spawn Mysql,
             Log ''Uploading: https://dav.box.com/dav/backup/backup-nightly_mysql-shop_2024-03-09_00-05-59-007.sql.gz'',
             Put ''https://dav.box.com/dav/backup/backup-nightly_mysql-shop_2024-03-09_00-05-59-007.sql.gz'',
             Log ''MySQL dump completed''], late = []\<rparr>)"
    by (simp add: run_def co_body_def and_then_def stages_def stage_def configured0 options0_fields
        fresh_bootstrap fresh_prune backup.simps fresh_attempts after_def)
  ultimately show ?thesis by (simp add: fresh_bootstrap options0_fields)
qed

end
